theory Spec2Isabelle
  imports Main "HOL-Library.FSet" "HOL-Library.AList"
begin

section \<open>Outcomes of a call\<close>

text \<open>
  A Go call of this program ends in one of four ways: it returns a value, it returns an
  \<^verbatim>\<open>error\<close>, it panics (a failed type assertion, an index out of range, a nil
  dereference), or it ends the process through \<^verbatim>\<open>log.Fatal\<close>. The last three are
  kept apart, because the callers treat them differently: only a returned error can be
  wrapped or reported by the caller.
\<close>

type_synonym pos = nat

definition NoPos :: pos where
  "NoPos = 0"

definition IsValid :: "pos \<Rightarrow> bool" where
  "IsValid p = (p \<noteq> NoPos)"

text \<open>The text of \<^verbatim>\<open>duplicateImport.Error()\<close>: the name and the paths it formats.\<close>

datatype message = duplicateImport_Error string "string list"

text \<open>
  One constructor for each \<^verbatim>\<open>fmt.Errorf\<close> and \<^verbatim>\<open>p.errorf\<close> of parse.go, holding
  the position given to \<^verbatim>\<open>errorf\<close> and the values formatted into the message.
\<close>

datatype error =
    BadArraySize pos string
  | UnknownPackageQ pos string
  | NonEmptyInterface pos
  | NonEmptyStruct pos
  | DontKnowType string
  | FailedVariadic pos error
  | FailedArguments pos error
  | FailedReturns pos error
  | ExpectedOneName string nat
  | UnknownEmbedded pos string
  | UnknownPackage pos string
  | CouldNotParsePackage pos string string
  | UnknownEmbeddedIn pos string string
  | DontKnowMock string

datatype failure = Error error | Panic | Fatal message

type_synonym 'a result = "failure + 'a"

text \<open>\<^verbatim>\<open>p.errorf(pos, "...: %v", err)\<close> wraps a returned error only.\<close>

fun wrap :: "(error \<Rightarrow> error) \<Rightarrow> failure \<Rightarrow> failure" where
  "wrap f (Error e) = Error (f e)"
| "wrap f Panic = Panic"
| "wrap f (Fatal m) = Fatal m"

section \<open>The syntax tree of go/ast, as far as parse.go reads it\<close>

datatype ident = Ident (NamePos: pos) (Name: string)

text \<open>
  A comment group holds its comments' texts (\<^verbatim>\<open>List[i].Text\<close>) and the result of its
  \<^verbatim>\<open>Text()\<close> method, which go/ast computes from them.
\<close>

datatype commentGroup = CommentGroup (cg_List: "string list") (cg_Text: string)

datatype kind = token_INT | token_FLOAT | token_IMAG | token_CHAR | token_STRING

text \<open>
  \<open>ast_Nil\<close> is the nil interface value of \<^verbatim>\<open>ast.Expr\<close>; \<open>ast_Other\<close> stands for every
  node type that parse.go has no case for, with its Go type name and position. A pointer to
  a field list may be nil: \<open>fieldList option\<close>. The direction of a channel is the integer
  of go/ast (\<^verbatim>\<open>SEND = 1\<close>, \<^verbatim>\<open>RECV = 2\<close>).
\<close>

datatype expr =
    ast_Nil
  | ast_Ident ident
  | ast_Ellipsis pos expr
  | ast_BasicLit pos kind string
  | ast_ParenExpr pos expr
  | ast_SelectorExpr expr ident
  | ast_IndexExpr expr expr
  | ast_IndexListExpr expr "expr list"
  | ast_StarExpr pos expr
  | ast_ArrayType pos expr expr
  | ast_StructType pos "fieldList option"
  | ast_FuncType pos "fieldList option" "fieldList option"
  | ast_InterfaceType pos "fieldList option"
  | ast_MapType pos expr expr
  | ast_ChanType pos nat expr
  | ast_Other string pos
and field = Field (field_Doc: "commentGroup option") (field_Names: "ident list")
                  (field_Type: expr) (field_Comment: "commentGroup option")
and fieldList = FieldList (Opening: pos) (fl_List: "field list")

text \<open>The \<^verbatim>\<open>Pos()\<close> methods of go/ast.\<close>

fun exprPos :: "expr \<Rightarrow> pos"
  and fieldPos :: "field \<Rightarrow> pos"
  and fieldListPos :: "fieldList \<Rightarrow> pos" where
  "exprPos ast_Nil = NoPos"
| "exprPos (ast_Ident i) = NamePos i"
| "exprPos (ast_Ellipsis p _) = p"
| "exprPos (ast_BasicLit p _ _) = p"
| "exprPos (ast_ParenExpr p _) = p"
| "exprPos (ast_SelectorExpr x _) = exprPos x"
| "exprPos (ast_IndexExpr x _) = exprPos x"
| "exprPos (ast_IndexListExpr x _) = exprPos x"
| "exprPos (ast_StarExpr p _) = p"
| "exprPos (ast_ArrayType p _ _) = p"
| "exprPos (ast_StructType p _) = p"
| "exprPos (ast_FuncType p params _) =
     (case params of
        None \<Rightarrow> p
      | Some fl \<Rightarrow> if IsValid p then p else fieldListPos fl)"
| "exprPos (ast_InterfaceType p _) = p"
| "exprPos (ast_MapType p _ _) = p"
| "exprPos (ast_ChanType p _ _) = p"
| "exprPos (ast_Other _ p) = p"
| "fieldPos (Field _ names typ _) =
     (case names of
        n # _ \<Rightarrow> NamePos n
      | [] \<Rightarrow> if typ \<noteq> ast_Nil then exprPos typ else NoPos)"
| "fieldListPos (FieldList opening fs) =
     (if IsValid opening then opening
      else case fs of f # _ \<Rightarrow> fieldPos f | [] \<Rightarrow> NoPos)"

text \<open>What \<^verbatim>\<open>%T\<close> prints for the nodes that reach the default case of a type switch.\<close>

fun typeName :: "expr \<Rightarrow> string" where
  "typeName ast_Nil = ''<nil>''"
| "typeName (ast_Ident _) = ''*ast.Ident''"
| "typeName (ast_Ellipsis _ _) = ''*ast.Ellipsis''"
| "typeName (ast_BasicLit _ _ _) = ''*ast.BasicLit''"
| "typeName (ast_ParenExpr _ _) = ''*ast.ParenExpr''"
| "typeName (ast_SelectorExpr _ _) = ''*ast.SelectorExpr''"
| "typeName (ast_IndexExpr _ _) = ''*ast.IndexExpr''"
| "typeName (ast_IndexListExpr _ _) = ''*ast.IndexListExpr''"
| "typeName (ast_StarExpr _ _) = ''*ast.StarExpr''"
| "typeName (ast_ArrayType _ _ _) = ''*ast.ArrayType''"
| "typeName (ast_StructType _ _) = ''*ast.StructType''"
| "typeName (ast_FuncType _ _ _) = ''*ast.FuncType''"
| "typeName (ast_InterfaceType _ _) = ''*ast.InterfaceType''"
| "typeName (ast_MapType _ _ _) = ''*ast.MapType''"
| "typeName (ast_ChanType _ _ _) = ''*ast.ChanType''"
| "typeName (ast_Other n _) = n"

text \<open>
  \<^verbatim>\<open>ast.Ident.IsExported\<close> is \<^verbatim>\<open>token.IsExported(id.Name)\<close>: it decodes the first rune of
  the name with \<^verbatim>\<open>utf8.DecodeRuneInString\<close> and gives it to \<^verbatim>\<open>unicode.IsUpper\<close>. Names
  are byte strings, as in Go; a rune is its code point.
\<close>

definition RuneError :: nat where
  "RuneError = 0xFFFD"

text \<open>
  The array \<^verbatim>\<open>first\<close> of package utf8, by the ranges of its index: \<^verbatim>\<open>as = 0xF0\<close> for
  ASCII, \<^verbatim>\<open>xx = 0xF1\<close> for a byte that begins no sequence, and otherwise the size of the
  sequence in the low bits and the index into \<^verbatim>\<open>acceptRanges\<close> in the high bits.
\<close>

definition first :: "nat \<Rightarrow> nat" where
  "first b =
     (if b < 0x80 then 0xF0
      else if b < 0xC2 then 0xF1
      else if b < 0xE0 then 0x02
      else if b = 0xE0 then 0x13
      else if b < 0xED then 0x03
      else if b = 0xED then 0x23
      else if b < 0xF0 then 0x03
      else if b = 0xF0 then 0x34
      else if b < 0xF4 then 0x04
      else if b = 0xF4 then 0x44
      else 0xF1)"

definition acceptRanges :: "nat \<Rightarrow> nat \<times> nat" where
  "acceptRanges i =
     (if i = 1 then (0xA0, 0xBF)
      else if i = 2 then (0x80, 0x9F)
      else if i = 3 then (0x90, 0xBF)
      else if i = 4 then (0x80, 0x8F)
      else (0x80, 0xBF))"

text \<open>
  \<^verbatim>\<open>utf8.DecodeRuneInString\<close>: the rune and its width in bytes. The masks
  \<^verbatim>\<open>s0&mask2\<close>, \<^verbatim>\<open>s0&mask3\<close>, \<^verbatim>\<open>s0&mask4\<close> and \<^verbatim>\<open>s&maskx\<close> keep the low 5, 4, 3 and 6
  bits, and the shifted parts do not overlap.
\<close>

definition DecodeRuneInString :: "string \<Rightarrow> nat \<times> nat" where
  "DecodeRuneInString s =
     (if length s < 1 then (RuneError, 0)
      else
        let s0 = (of_char (s ! 0) :: nat); x = first s0 in
        if x \<ge> 0xF0 then (if x = 0xF0 then s0 else RuneError, 1)
        else
          let sz = x mod 8; accept = acceptRanges (x div 16) in
          if length s < sz then (RuneError, 1)
          else
            let s1 = (of_char (s ! 1) :: nat) in
            if s1 < fst accept \<or> snd accept < s1 then (RuneError, 1)
            else if sz \<le> 2 then (s0 mod 32 * 64 + s1 mod 64, 2)
            else
              let s2 = (of_char (s ! 2) :: nat) in
              if s2 < 0x80 \<or> 0xBF < s2 then (RuneError, 1)
              else if sz \<le> 3 then (s0 mod 16 * 4096 + s1 mod 64 * 64 + s2 mod 64, 3)
              else
                let s3 = (of_char (s ! 3) :: nat) in
                if s3 < 0x80 \<or> 0xBF < s3 then (RuneError, 1)
                else (s0 mod 8 * 262144 + s1 mod 64 * 4096 + s2 mod 64 * 64 + s3 mod 64, 4))"

text \<open>
  The table \<^verbatim>\<open>unicode.Upper\<close> above Latin-1: the code points of the category Lu of
  Unicode 15.0.0, as ranges \<open>(Lo, Hi, Stride)\<close> in increasing order.
\<close>

definition Upper :: "(nat \<times> nat \<times> nat) list" where
  "Upper = [
    (0x0100, 0x0136, 2), (0x0139, 0x0147, 2), (0x014A, 0x0176, 2), (0x0178, 0x0179, 1),
    (0x017B, 0x017B, 1), (0x017D, 0x017D, 1), (0x0181, 0x0182, 1), (0x0184, 0x0184, 1),
    (0x0186, 0x0187, 1), (0x0189, 0x018B, 1), (0x018E, 0x0191, 1), (0x0193, 0x0194, 1),
    (0x0196, 0x0198, 1), (0x019C, 0x019D, 1), (0x019F, 0x01A0, 1), (0x01A2, 0x01A2, 1),
    (0x01A4, 0x01A4, 1), (0x01A6, 0x01A7, 1), (0x01A9, 0x01A9, 1), (0x01AC, 0x01AC, 1),
    (0x01AE, 0x01AF, 1), (0x01B1, 0x01B3, 1), (0x01B5, 0x01B5, 1), (0x01B7, 0x01B8, 1),
    (0x01BC, 0x01BC, 1), (0x01C4, 0x01CD, 3), (0x01CF, 0x01DB, 2), (0x01DE, 0x01EE, 2),
    (0x01F1, 0x01F1, 1), (0x01F4, 0x01F4, 1), (0x01F6, 0x01F8, 1), (0x01FA, 0x0232, 2),
    (0x023A, 0x023B, 1), (0x023D, 0x023E, 1), (0x0241, 0x0241, 1), (0x0243, 0x0246, 1),
    (0x0248, 0x024E, 2), (0x0370, 0x0370, 1), (0x0372, 0x0372, 1), (0x0376, 0x0376, 1),
    (0x037F, 0x037F, 1), (0x0386, 0x0386, 1), (0x0388, 0x038A, 1), (0x038C, 0x038C, 1),
    (0x038E, 0x038F, 1), (0x0391, 0x03A1, 1), (0x03A3, 0x03AB, 1), (0x03CF, 0x03CF, 1),
    (0x03D2, 0x03D4, 1), (0x03D8, 0x03EE, 2), (0x03F4, 0x03F4, 1), (0x03F7, 0x03F7, 1),
    (0x03F9, 0x03FA, 1), (0x03FD, 0x042F, 1), (0x0460, 0x0480, 2), (0x048A, 0x04BE, 2),
    (0x04C0, 0x04C1, 1), (0x04C3, 0x04CD, 2), (0x04D0, 0x052E, 2), (0x0531, 0x0556, 1),
    (0x10A0, 0x10C5, 1), (0x10C7, 0x10C7, 1), (0x10CD, 0x10CD, 1), (0x13A0, 0x13F5, 1),
    (0x1C90, 0x1CBA, 1), (0x1CBD, 0x1CBF, 1), (0x1E00, 0x1E94, 2), (0x1E9E, 0x1EFE, 2),
    (0x1F08, 0x1F0F, 1), (0x1F18, 0x1F1D, 1), (0x1F28, 0x1F2F, 1), (0x1F38, 0x1F3F, 1),
    (0x1F48, 0x1F4D, 1), (0x1F59, 0x1F5F, 2), (0x1F68, 0x1F6F, 1), (0x1FB8, 0x1FBB, 1),
    (0x1FC8, 0x1FCB, 1), (0x1FD8, 0x1FDB, 1), (0x1FE8, 0x1FEC, 1), (0x1FF8, 0x1FFB, 1),
    (0x2102, 0x2102, 1), (0x2107, 0x2107, 1), (0x210B, 0x210D, 1), (0x2110, 0x2112, 1),
    (0x2115, 0x2115, 1), (0x2119, 0x211D, 1), (0x2124, 0x2128, 2), (0x212A, 0x212D, 1),
    (0x2130, 0x2133, 1), (0x213E, 0x213F, 1), (0x2145, 0x2145, 1), (0x2183, 0x2183, 1),
    (0x2C00, 0x2C2F, 1), (0x2C60, 0x2C60, 1), (0x2C62, 0x2C64, 1), (0x2C67, 0x2C6B, 2),
    (0x2C6D, 0x2C70, 1), (0x2C72, 0x2C72, 1), (0x2C75, 0x2C75, 1), (0x2C7E, 0x2C80, 1),
    (0x2C82, 0x2CE2, 2), (0x2CEB, 0x2CEB, 1), (0x2CED, 0x2CED, 1), (0x2CF2, 0x2CF2, 1),
    (0xA640, 0xA66C, 2), (0xA680, 0xA69A, 2), (0xA722, 0xA72E, 2), (0xA732, 0xA76E, 2),
    (0xA779, 0xA779, 1), (0xA77B, 0xA77B, 1), (0xA77D, 0xA77E, 1), (0xA780, 0xA786, 2),
    (0xA78B, 0xA78B, 1), (0xA78D, 0xA78D, 1), (0xA790, 0xA790, 1), (0xA792, 0xA792, 1),
    (0xA796, 0xA7A8, 2), (0xA7AA, 0xA7AE, 1), (0xA7B0, 0xA7B4, 1), (0xA7B6, 0xA7C2, 2),
    (0xA7C4, 0xA7C7, 1), (0xA7C9, 0xA7C9, 1), (0xA7D0, 0xA7D0, 1), (0xA7D6, 0xA7D6, 1),
    (0xA7D8, 0xA7D8, 1), (0xA7F5, 0xA7F5, 1), (0xFF21, 0xFF3A, 1), (0x10400, 0x10427, 1),
    (0x104B0, 0x104D3, 1), (0x10570, 0x1057A, 1), (0x1057C, 0x1058A, 1), (0x1058C, 0x10592, 1),
    (0x10594, 0x10595, 1), (0x10C80, 0x10CB2, 1), (0x118A0, 0x118BF, 1), (0x16E40, 0x16E5F, 1),
    (0x1D400, 0x1D419, 1), (0x1D434, 0x1D44D, 1), (0x1D468, 0x1D481, 1), (0x1D49C, 0x1D49C, 1),
    (0x1D49E, 0x1D49F, 1), (0x1D4A2, 0x1D4A2, 1), (0x1D4A5, 0x1D4A6, 1), (0x1D4A9, 0x1D4AC, 1),
    (0x1D4AE, 0x1D4B5, 1), (0x1D4D0, 0x1D4E9, 1), (0x1D504, 0x1D505, 1), (0x1D507, 0x1D50A, 1),
    (0x1D50D, 0x1D514, 1), (0x1D516, 0x1D51C, 1), (0x1D538, 0x1D539, 1), (0x1D53B, 0x1D53E, 1),
    (0x1D540, 0x1D544, 1), (0x1D546, 0x1D546, 1), (0x1D54A, 0x1D550, 1), (0x1D56C, 0x1D585, 1),
    (0x1D5A0, 0x1D5B9, 1), (0x1D5D4, 0x1D5ED, 1), (0x1D608, 0x1D621, 1), (0x1D63C, 0x1D655, 1),
    (0x1D670, 0x1D689, 1), (0x1D6A8, 0x1D6C0, 1), (0x1D6E2, 0x1D6FA, 1), (0x1D71C, 0x1D734, 1),
    (0x1D756, 0x1D76E, 1), (0x1D790, 0x1D7A8, 1), (0x1D7CA, 0x1D7CA, 1), (0x1E900, 0x1E921, 1)]"

definition inRange :: "nat \<Rightarrow> nat \<times> nat \<times> nat \<Rightarrow> bool" where
  "inRange r rng = (case rng of (lo, hi, stride) \<Rightarrow> lo \<le> r \<and> r \<le> hi \<and> (r - lo) mod stride = 0)"

text \<open>
  \<^verbatim>\<open>unicode.IsUpper\<close>: up to \<^verbatim>\<open>MaxLatin1\<close> the array \<^verbatim>\<open>properties\<close> decides, in which
  the entries with \<^verbatim>\<open>pLu\<close> are A to Z, U+00C0 to U+00D6 and U+00D8 to U+00DE; above it
  the search in the table does.
\<close>

definition IsUpper :: "nat \<Rightarrow> bool" where
  "IsUpper r =
     (if r \<le> 0xFF then
        (0x41 \<le> r \<and> r \<le> 0x5A) \<or> (0xC0 \<le> r \<and> r \<le> 0xD6) \<or> (0xD8 \<le> r \<and> r \<le> 0xDE)
      else list_ex (inRange r) Upper)"

definition IsExported :: "ident \<Rightarrow> bool" where
  "IsExported i = IsUpper (fst (DecodeRuneInString (Name i)))"

text \<open>A name that begins with an ASCII byte is exported when that byte is one of A to Z.\<close>

lemma IsExported_ascii:
  "(of_char c :: nat) < 128 \<Longrightarrow>
     IsExported (Ident ps (c # cs)) = (65 \<le> (of_char c :: nat) \<and> (of_char c :: nat) \<le> 90)"
  by (auto simp: IsExported_def DecodeRuneInString_def first_def IsUpper_def Let_def)

lemma IsExported_empty: "\<not> IsExported (Ident ps [])"
  by (simp add: IsExported_def DecodeRuneInString_def IsUpper_def RuneError_def Upper_def
      inRange_def)

text \<open>
  Names that begin with two bytes: U+00C4 and U+03A9 are upper case letters, U+00E4 and
  U+03C9 are not. The first two names are exported, by \<^verbatim>\<open>properties\<close> and by the
  table.
\<close>

lemma IsExported_two_bytes:
  "IsExported (Ident ps (CHR 0xC3 # CHR 0x84 # ''rger''))"
  "\<not> IsExported (Ident ps (CHR 0xC3 # CHR 0xA4 # ''rger''))"
  "IsExported (Ident ps (CHR 0xCE # CHR 0xA9 # ''mega''))"
  "\<not> IsExported (Ident ps (CHR 0xCF # CHR 0x89 # ''mega''))"
  by (simp_all add: IsExported_def DecodeRuneInString_def first_def acceptRanges_def
      IsUpper_def Let_def Upper_def inRange_def)

section \<open>The output model (package model)\<close>

text \<open>
  Modelled from the spec: the package \<^verbatim>\<open>model\<close> is imported by parse.go and is not
  among the sources. Its types are taken from section 3 of the specification and from the
  composite literals of parse.go, field by field. A Go pointer that the code can leave nil
  is an \<open>option\<close>.
\<close>

datatype chanDir = BothDir | RecvDir | SendDir

datatype mtype =
    model_NamedType string string
  | model_PredeclaredType string
  | model_PointerType mtype
  | model_ArrayType int mtype
  | model_MapType mtype mtype
  | model_ChanType chanDir mtype
  | model_FuncType "parameter option list" "parameter option" "parameter option list"
  | model_GenericType mtype "mtype list"
and parameter = Parameter (param_Name: string) (param_Type: mtype)

datatype model_Method = Method (method_Name: string) (method_Doc: "string list")
  (method_Comment: string) (method_In: "parameter option list")
  (method_Variadic: "parameter option") (method_Out: "parameter option list")

datatype interface = Interface (intf_Name: string) (intf_Doc: "string list")
  (intf_Comment: string) (intf_Methods: "model_Method list")

datatype struct = Struct (struct_Name: string) (struct_Doc: "string list")
  (struct_Comment: string) (struct_Methods: "string \<Rightarrow> model_Method option")

datatype package = Package (pkg_Name: string) (pkg_PkgPath: string)
  (pkg_Interfaces: "interface list") (pkg_StructNames: "struct list")
  (pkg_DotImports: "string list")

section \<open>strconv\<close>

text \<open>
  \<^verbatim>\<open>strconv.Atoi\<close>: an optional sign, then one or more decimal digits, and a value that
  fits a 64-bit \<^verbatim>\<open>int\<close>; every other string is an error (\<open>None\<close>).
\<close>

definition is_digit :: "char \<Rightarrow> bool" where
  "is_digit c = (48 \<le> (of_char c :: nat) \<and> (of_char c :: nat) \<le> 57)"

definition digits_val :: "string \<Rightarrow> nat" where
  "digits_val s = foldl (\<lambda>a c. 10 * a + (of_char c - 48)) 0 s"

definition Atoi :: "string \<Rightarrow> int option" where
  "Atoi s =
     (let neg = (case s of c # _ \<Rightarrow> c = CHR ''-'' | [] \<Rightarrow> False);
          ds = (case s of c # r \<Rightarrow> if c = CHR ''-'' \<or> c = CHR ''+'' then r else s | [] \<Rightarrow> s)
      in if ds = [] \<or> \<not> list_all is_digit ds then None
         else let n = int (digits_val ds); v = (if neg then - n else n)
              in if - (2 ^ 63) \<le> v \<and> v < 2 ^ 63 then Some v else None)"

text \<open>\<^verbatim>\<open>strconv.Itoa\<close> on the non-negative integers: the decimal digits.\<close>

definition digit_char :: "nat \<Rightarrow> char" where
  "digit_char d = ''0123456789'' ! d"

function Itoa :: "nat \<Rightarrow> string" where
  "Itoa n = (if n < 10 then [digit_char n] else Itoa (n div 10) @ [digit_char (n mod 10)])"
  by pat_completeness auto
termination
  by (relation "measure id") auto

declare Itoa.simps [simp del]

section \<open>Declarations and files\<close>

datatype spec =
    TypeSpec (ts_Name: ident) (ts_Type: expr) (ts_Comment: "commentGroup option")
  | OtherSpec

datatype funcDecl = FuncDecl (fd_Doc: "commentGroup option") (fd_Recv: "fieldList option")
  (fd_Name: ident) (fd_Type: expr)

datatype token = token_IMPORT | token_CONST | token_TYPE | token_VAR

datatype decl =
    ast_GenDecl (gd_Doc: "commentGroup option") (gd_Tok: token) (gd_Specs: "spec list")
  | ast_FuncDecl funcDecl
  | ast_BadDecl

text \<open>An import: its alias (nil when there is none) and \<^verbatim>\<open>Path.Value\<close>, quotes included.\<close>

datatype importSpec = ImportSpec (is_Name: "ident option") (is_Path_Value: string)

datatype astFile = File (file_Name: ident) (file_Decls: "decl list")
  (file_Imports: "importSpec list")

section \<open>The parser state\<close>

text \<open>
  A \<^verbatim>\<open>namedInterface\<close> keeps, of its \<^verbatim>\<open>*ast.InterfaceType\<close>, the \<^verbatim>\<open>Methods\<close>
  field list, the only part that is read; a \<^verbatim>\<open>namedStruct\<close> keeps the \<^verbatim>\<open>Fields\<close> of
  its \<^verbatim>\<open>*ast.StructType\<close>. A map lookup that finds nothing gives the zero value, whose
  \<^verbatim>\<open>it\<close> is nil: \<open>None\<close> here.
\<close>

datatype namedInterface = NamedInterface (ni_name: ident) (ni_doc: "commentGroup option")
  (ni_comment: "commentGroup option") (ni_it: "fieldList option")

datatype namedStruct = NamedStruct (ns_name: ident) (ns_doc: "commentGroup option")
  (ns_comment: "commentGroup option") (ns_it: "fieldList option")
  (ns_methods: "funcDecl list")

text \<open>
  The fields of \<^verbatim>\<open>fileParser\<close> that are read or written after construction. A Go map is a
  partial function; a map of maps yields the empty inner map where the outer key is
  missing. An \<^verbatim>\<open>importedPkg\<close> holds a pointer to the parser of its package, nil until
  the package is first needed.
\<close>

datatype fileParser = FileParser
    (fp_imports: "string \<Rightarrow> importedPackage option")
    (fp_importedInterfaces: "string \<Rightarrow> string \<Rightarrow> namedInterface option")
    (fp_auxFiles: "astFile list")
    (fp_auxStruct: "string \<Rightarrow> string \<Rightarrow> namedStruct option")
    (fp_auxInterfaces: "string \<Rightarrow> string \<Rightarrow> namedInterface option")
    (fp_srcDir: string)
and importedPackage =
    importedPkg string "fileParser option"
  | duplicateImport string "string list"

text \<open>The two accessors: on a \<^verbatim>\<open>duplicateImport\<close> both call \<^verbatim>\<open>log.Fatal\<close>.\<close>

fun Path :: "importedPackage \<Rightarrow> string result" where
  "Path (importedPkg pth _) = Inr pth"
| "Path (duplicateImport n ds) = Inl (Fatal (duplicateImport_Error n ds))"

fun Parser :: "importedPackage \<Rightarrow> fileParser option result" where
  "Parser (importedPkg _ ps) = Inr ps"
| "Parser (duplicateImport n ds) = Inl (Fatal (duplicateImport_Error n ds))"

definition set_imports :: "fileParser \<Rightarrow> (string \<Rightarrow> importedPackage option) \<Rightarrow> fileParser" where
  "set_imports p m =
     FileParser m (fp_importedInterfaces p) (fp_auxFiles p) (fp_auxStruct p)
       (fp_auxInterfaces p) (fp_srcDir p)"

text \<open>The parser that \<^verbatim>\<open>sourceMode\<close> and \<^verbatim>\<open>parsePackage\<close> construct: every map empty.\<close>

definition newFileParser :: "string \<Rightarrow> fileParser" where
  "newFileParser dir =
     FileParser Map.empty (\<lambda>_. Map.empty) [] (\<lambda>_. Map.empty) (\<lambda>_. Map.empty) dir"

section \<open>Type translation: parseType, parseFunc, parseFieldList\<close>

text \<open>
  The length of an array type: \<^verbatim>\<open>-1\<close> when \<^verbatim>\<open>v.Len\<close> is nil; otherwise
  \<^verbatim>\<open>v.Len.(*ast.BasicLit)\<close> is asserted without a check and its \<^verbatim>\<open>Value\<close> goes to
  \<^verbatim>\<open>strconv.Atoi\<close>.
\<close>

fun arrayLen :: "expr \<Rightarrow> int result" where
  "arrayLen ast_Nil = Inr (- 1)"
| "arrayLen (ast_BasicLit p k v) =
     (case Atoi v of
        None \<Rightarrow> Inl (Error (BadArraySize p v))
      | Some x \<Rightarrow> Inr x)"
| "arrayLen _ = Inl Panic"

fun isEllipsis :: "expr \<Rightarrow> bool" where
  "isEllipsis (ast_Ellipsis _ _) = True"
| "isEllipsis _ = False"

definition isVariadic :: "field list \<Rightarrow> bool" where
  "isVariadic params =
     (if length params = 0 then False else isEllipsis (field_Type (last params)))"

text \<open>The first loop of \<^verbatim>\<open>parseFieldList\<close>: the number of parameters to make room for.\<close>

definition countFields :: "field list \<Rightarrow> nat" where
  "countFields fs =
     fold (\<lambda>f nf. nf + (if length (field_Names f) = 0 then 1 else length (field_Names f))) fs 0"

text \<open>
  The inner loop of \<^verbatim>\<open>parseFieldList\<close> over the names of one field:
  \<^verbatim>\<open>ps[i] = &model.Parameter{Name: name.Name, Type: t}; i++\<close>. An index outside
  \<^verbatim>\<open>ps\<close> panics.
\<close>

fun fillNames :: "mtype \<Rightarrow> ident list \<Rightarrow> parameter option list \<Rightarrow> nat \<Rightarrow>
    (parameter option list \<times> nat) result" where
  "fillNames t [] ps i = Inr (ps, i)"
| "fillNames t (n # ns) ps i =
     (if i < length ps then fillNames t ns (ps[i := Some (Parameter (Name n) t)]) (i + 1)
      else Inl Panic)"

text \<open>Sizes of syntax trees, for the termination of the translation.\<close>

lemma size_last_less: "xs \<noteq> [] \<Longrightarrow> size (last xs) < size_list size xs"
  by (induction xs) auto

lemma size_butlast_le: "size_list size (butlast xs) \<le> size_list size xs"
  by (induction xs) auto

lemma size_field_Type: "size (field_Type f) < size f"
  by (cases f) simp

lemma isVariadic_nonempty: "isVariadic xs \<Longrightarrow> xs \<noteq> []"
  by (auto simp: isVariadic_def)

lemma size_fieldList: "size fl = Suc (size_list size (fl_List fl))"
  by (cases fl) simp

text \<open>
  \<open>parseFunc\<close> is the Go function of that name; its two blocks
  (\<^verbatim>\<open>if f.Params != nil\<close> and \<^verbatim>\<open>if f.Results != nil\<close>) are \<open>parseFunc_params\<close> and
  \<open>parseFunc_results\<close>, which get \<^verbatim>\<open>f.Pos()\<close> for their error messages.
  \<open>parseFieldList\<close> makes the slice of \<open>nf\<close> nil pointers and \<open>fillFields\<close> is its second
  loop, with the destination index \<open>i\<close>. \<open>parseTypes\<close> is the loop over the indices of an
  \<^verbatim>\<open>ast.IndexListExpr\<close>.
\<close>

function (sequential) parseType :: "fileParser \<Rightarrow> string \<Rightarrow> expr \<Rightarrow> mtype result"
  and parseTypes :: "fileParser \<Rightarrow> string \<Rightarrow> expr list \<Rightarrow> mtype list result"
  and parseFunc :: "fileParser \<Rightarrow> string \<Rightarrow> pos \<Rightarrow> fieldList option \<Rightarrow> fieldList option \<Rightarrow>
        (parameter option list \<times> parameter option \<times> parameter option list) result"
  and parseFunc_params :: "fileParser \<Rightarrow> string \<Rightarrow> pos \<Rightarrow> fieldList option \<Rightarrow>
        (parameter option list \<times> parameter option) result"
  and parseFunc_results :: "fileParser \<Rightarrow> string \<Rightarrow> pos \<Rightarrow> fieldList option \<Rightarrow>
        parameter option list result"
  and parseFieldList :: "fileParser \<Rightarrow> string \<Rightarrow> field list \<Rightarrow> parameter option list result"
  and fillFields :: "fileParser \<Rightarrow> string \<Rightarrow> field list \<Rightarrow> parameter option list \<Rightarrow> nat \<Rightarrow>
        parameter option list result"
where
  "parseType p pkg (ast_IndexExpr x index) =
     (case parseType p pkg x of
        Inl e \<Rightarrow> Inl e
      | Inr t \<Rightarrow>
          (case parseType p pkg index of
             Inl e \<Rightarrow> Inl e
           | Inr typ \<Rightarrow> Inr (model_GenericType t [typ])))"
| "parseType p pkg (ast_IndexListExpr x indices) =
     (case parseType p pkg x of
        Inl e \<Rightarrow> Inl e
      | Inr t \<Rightarrow>
          (case parseTypes p pkg indices of
             Inl e \<Rightarrow> Inl e
           | Inr types \<Rightarrow> Inr (model_GenericType t types)))"
| "parseType p pkg (ast_ArrayType lbrack len elt) =
     (case arrayLen len of
        Inl e \<Rightarrow> Inl e
      | Inr ln \<Rightarrow>
          (case parseType p pkg elt of
             Inl e \<Rightarrow> Inl e
           | Inr t \<Rightarrow> Inr (model_ArrayType ln t)))"
| "parseType p pkg (ast_ChanType begin dir val) =
     (case parseType p pkg val of
        Inl e \<Rightarrow> Inl e
      | Inr t \<Rightarrow>
          Inr (model_ChanType
                 (if dir = 2 then RecvDir else if dir = 1 then SendDir else BothDir) t))"
| "parseType p pkg (ast_Ellipsis ps elt) = parseType p pkg elt"
| "parseType p pkg (ast_FuncType func params results) =
     (case parseFunc p pkg func params results of
        Inl e \<Rightarrow> Inl e
      | Inr (ins, variadic, out) \<Rightarrow> Inr (model_FuncType ins variadic out))"
| "parseType p pkg (ast_Ident v) =
     (if IsExported v then
        (case fp_imports p pkg of
           Some maybeImportedPkg \<Rightarrow>
             (case Path maybeImportedPkg of
                Inl e \<Rightarrow> Inl e
              | Inr pkg' \<Rightarrow> Inr (model_NamedType pkg' (Name v)))
         | None \<Rightarrow> Inr (model_NamedType pkg (Name v)))
      else Inr (model_PredeclaredType (Name v)))"
| "parseType p pkg (ast_InterfaceType interface methods) =
     (case methods of
        Some fl \<Rightarrow>
          if length (fl_List fl) > 0 then Inl (Error (NonEmptyInterface interface))
          else Inr (model_PredeclaredType ''interface{}'')
      | None \<Rightarrow> Inr (model_PredeclaredType ''interface{}''))"
| "parseType p pkg (ast_MapType mp key val) =
     (case parseType p pkg key of
        Inl e \<Rightarrow> Inl e
      | Inr k \<Rightarrow>
          (case parseType p pkg val of
             Inl e \<Rightarrow> Inl e
           | Inr v \<Rightarrow> Inr (model_MapType k v)))"
| "parseType p pkg (ast_SelectorExpr x sel) =
     (case x of
        ast_Ident xi \<Rightarrow>
          (case fp_imports p (Name xi) of
             None \<Rightarrow> Inl (Error (UnknownPackageQ (NamePos xi) (Name xi)))
           | Some ip \<Rightarrow>
               (case Path ip of
                  Inl e \<Rightarrow> Inl e
                | Inr pth \<Rightarrow> Inr (model_NamedType pth (Name sel))))
      | _ \<Rightarrow> Inl Panic)"
| "parseType p pkg (ast_StarExpr star x) =
     (case parseType p pkg x of
        Inl e \<Rightarrow> Inl e
      | Inr t \<Rightarrow> Inr (model_PointerType t))"
| "parseType p pkg (ast_StructType strct flds) =
     (case flds of
        Some fl \<Rightarrow>
          if length (fl_List fl) > 0 then Inl (Error (NonEmptyStruct strct))
          else Inr (model_PredeclaredType ''struct{}'')
      | None \<Rightarrow> Inr (model_PredeclaredType ''struct{}''))"
| "parseType p pkg (ast_ParenExpr lparen x) = parseType p pkg x"
| "parseType p pkg typ = Inl (Error (DontKnowType (typeName typ)))"
| "parseTypes p pkg [] = Inr []"
| "parseTypes p pkg (v # vs) =
     (case parseType p pkg v of
        Inl e \<Rightarrow> Inl e
      | Inr typ \<Rightarrow>
          (case parseTypes p pkg vs of
             Inl e \<Rightarrow> Inl e
           | Inr types \<Rightarrow> Inr (typ # types)))"
| "parseFunc p pkg func params results =
     (case parseFunc_params p pkg (exprPos (ast_FuncType func params results)) params of
        Inl e \<Rightarrow> Inl e
      | Inr (ins, variadic) \<Rightarrow>
          (case parseFunc_results p pkg (exprPos (ast_FuncType func params results)) results of
             Inl e \<Rightarrow> Inl e
           | Inr out \<Rightarrow> Inr (ins, variadic, out)))"
| "parseFunc_params p pkg fpos None = Inr ([], None)"
| "parseFunc_params p pkg fpos (Some fl) =
     (if isVariadic (fl_List fl) then
        (case parseFieldList p pkg [last (fl_List fl)] of
           Inl e \<Rightarrow> Inl (wrap (FailedVariadic (fieldPos (last (fl_List fl)))) e)
         | Inr vp \<Rightarrow>
             (case vp of
                [] \<Rightarrow> Inl Panic
              | variadic # _ \<Rightarrow>
                  (case parseFieldList p pkg (butlast (fl_List fl)) of
                     Inl e \<Rightarrow> Inl (wrap (FailedArguments fpos) e)
                   | Inr ins \<Rightarrow> Inr (ins, variadic))))
      else
        (case parseFieldList p pkg (fl_List fl) of
           Inl e \<Rightarrow> Inl (wrap (FailedArguments fpos) e)
         | Inr ins \<Rightarrow> Inr (ins, None)))"
| "parseFunc_results p pkg fpos None = Inr []"
| "parseFunc_results p pkg fpos (Some rl) =
     (case parseFieldList p pkg (fl_List rl) of
        Inl e \<Rightarrow> Inl (wrap (FailedReturns fpos) e)
      | Inr out \<Rightarrow> Inr out)"
| "parseFieldList p pkg flds =
     (if countFields flds = 0 then Inr []
      else fillFields p pkg flds (replicate (countFields flds) None) 0)"
| "fillFields p pkg [] ps i = Inr ps"
| "fillFields p pkg (f # fs) ps i =
     (case parseType p pkg (field_Type f) of
        Inl e \<Rightarrow> Inl e
      | Inr t \<Rightarrow>
          if length (field_Names f) = 0 then
            (if i < length ps then fillFields p pkg fs (ps[i := Some (Parameter [] t)]) (i + 1)
             else Inl Panic)
          else
            (case fillNames t (field_Names f) ps i of
               Inl e \<Rightarrow> Inl e
             | Inr (ps', i') \<Rightarrow> fillFields p pkg fs ps' i'))"
  by pat_completeness auto

termination
  apply (relation "measure (\<lambda>x. case x of
      Inl (Inl (p, pkg, typ)) \<Rightarrow> 2 * size typ
    | Inl (Inr (Inl (p, pkg, es))) \<Rightarrow> 2 * size_list size es
    | Inl (Inr (Inr (p, pkg, func, params, results))) \<Rightarrow>
        2 * (size_option size params + size_option size results) + 1
    | Inr (Inl (Inl (p, pkg, fpos, params))) \<Rightarrow> 2 * size_option size params
    | Inr (Inl (Inr (p, pkg, fpos, results))) \<Rightarrow> 2 * size_option size results
    | Inr (Inr (Inl (p, pkg, flds))) \<Rightarrow> 2 * size_list size flds + 3
    | Inr (Inr (Inr (p, pkg, flds, ps, i))) \<Rightarrow> 2 * size_list size flds + 2)")
  apply simp_all
  subgoal for fl
    using size_last_less[of "fl_List fl"] isVariadic_nonempty[of "fl_List fl"]
      size_fieldList[of fl]
    by simp
  subgoal for p pkg fl
    using size_butlast_le[of "fl_List fl"] size_fieldList[of fl] by simp
  subgoal for fl
    using size_fieldList[of fl] by simp
  subgoal for rl
    using size_fieldList[of rl] by simp
  subgoal for f fs
    using size_field_Type[of f] by simp
  done

section \<open>The declaration scanner: iterInterfaces and iterStruct\<close>

text \<open>
  Both iterators run a goroutine that sends on an unbuffered channel and closes it; the
  consumer ranges over the channel. What the consumer sees is the list of the values sent,
  in the order sent; a panic of the producer ends the process.
\<close>

fun interfacesOfSpecs :: "commentGroup option \<Rightarrow> spec list \<Rightarrow> namedInterface list" where
  "interfacesOfSpecs doc [] = []"
| "interfacesOfSpecs doc (TypeSpec nm (ast_InterfaceType interface methods) comment # specs) =
     NamedInterface nm doc comment methods # interfacesOfSpecs doc specs"
| "interfacesOfSpecs doc (_ # specs) = interfacesOfSpecs doc specs"

fun interfacesOfDecls :: "decl list \<Rightarrow> namedInterface list" where
  "interfacesOfDecls [] = []"
| "interfacesOfDecls (ast_GenDecl doc tok specs # decls) =
     (if tok \<noteq> token_TYPE then interfacesOfDecls decls
      else interfacesOfSpecs doc specs @ interfacesOfDecls decls)"
| "interfacesOfDecls (_ # decls) = interfacesOfDecls decls"

definition iterInterfaces :: "astFile \<Rightarrow> namedInterface list" where
  "iterInterfaces file = interfacesOfDecls (file_Decls file)"

text \<open>
  \<^verbatim>\<open>structMap\<close> is a Go map from the struct's name to a pointer to its
  \<^verbatim>\<open>namedStruct\<close>: an association list with one entry for each key. An assignment to
  an existing key replaces the value.
\<close>

type_synonym structMap = "(string \<times> namedStruct) list"

fun structsOfSpecs :: "commentGroup option \<Rightarrow> spec list \<Rightarrow> structMap \<Rightarrow> structMap" where
  "structsOfSpecs doc [] m = m"
| "structsOfSpecs doc (TypeSpec nm (ast_StructType strct flds) comment # specs) m =
     structsOfSpecs doc specs (AList.update (Name nm) (NamedStruct nm doc comment flds []) m)"
| "structsOfSpecs doc (_ # specs) m = structsOfSpecs doc specs m"

fun structsOfDecls :: "decl list \<Rightarrow> structMap \<Rightarrow> structMap" where
  "structsOfDecls [] m = m"
| "structsOfDecls (ast_GenDecl doc tok specs # decls) m =
     (if tok \<noteq> token_TYPE then structsOfDecls decls m
      else structsOfDecls decls (structsOfSpecs doc specs m))"
| "structsOfDecls (_ # decls) m = structsOfDecls decls m"

text \<open>
  The type switch on the receiver's type: \<^verbatim>\<open>v.X.(*ast.Ident)\<close> is asserted without a
  check under a star; a type that is neither a star nor an identifier leaves
  \<^verbatim>\<open>typ\<close> empty.
\<close>

fun receiverType :: "expr \<Rightarrow> string result" where
  "receiverType (ast_StarExpr star x) =
     (case x of ast_Ident i \<Rightarrow> Inr (Name i) | _ \<Rightarrow> Inl Panic)"
| "receiverType (ast_Ident i) = Inr (Name i)"
| "receiverType _ = Inr []"

definition appendMethod :: "funcDecl \<Rightarrow> namedStruct \<Rightarrow> namedStruct" where
  "appendMethod gd s =
     NamedStruct (ns_name s) (ns_doc s) (ns_comment s) (ns_it s) (ns_methods s @ [gd])"

definition attachMethod :: "funcDecl \<Rightarrow> structMap \<Rightarrow> structMap result" where
  "attachMethod gd m =
     (case fd_Recv gd of
        None \<Rightarrow> Inr m
      | Some recv \<Rightarrow>
          (case fl_List recv of
             [] \<Rightarrow> Inr m
           | fld # _ \<Rightarrow>
               (case receiverType (field_Type fld) of
                  Inl e \<Rightarrow> Inl e
                | Inr typ \<Rightarrow>
                    (case map_of m typ of
                       None \<Rightarrow> Inr m
                     | Some nameStruct \<Rightarrow>
                         Inr (AList.update typ (appendMethod gd nameStruct) m)))))"

text \<open>
  \<^verbatim>\<open>for _, s := range structMap\<close>: Go leaves the order of a range over a map
  unspecified, and it may differ from one range statement to the next. The order is an
  argument of the model: \<open>ord k\<close> maps the keys of the map to the order in which the
  \<open>k\<close>-th range statement of the run visits them. It is an order of the map when it
  permutes the keys.
\<close>

type_synonym mapOrder = "nat \<Rightarrow> string list \<Rightarrow> string list"

definition rangeMap :: "(string list \<Rightarrow> string list) \<Rightarrow> (string \<times> 'v) list \<Rightarrow> 'v list" where
  "rangeMap perm m = List.map_filter (map_of m) (perm (map fst m))"

definition is_mapOrder :: "mapOrder \<Rightarrow> bool" where
  "is_mapOrder ord = (\<forall>k ks. distinct ks \<longrightarrow> distinct (ord k ks) \<and> set (ord k ks) = set ks)"

text \<open>
  The second loop of \<^verbatim>\<open>iterStruct\<close> over \<^verbatim>\<open>file.Decls\<close>: a declaration that is not a
  function is skipped by \<^verbatim>\<open>continue\<close>; for a function declaration the method is
  attached and then, still inside the loop body, every struct of the map is sent.
  \<open>k\<close> counts the range statements executed so far.
\<close>

fun attachAndSend :: "mapOrder \<Rightarrow> nat \<Rightarrow> decl list \<Rightarrow> structMap \<Rightarrow> namedStruct list result" where
  "attachAndSend ord k [] m = Inr []"
| "attachAndSend ord k (ast_FuncDecl gd # decls) m =
     (case attachMethod gd m of
        Inl e \<Rightarrow> Inl e
      | Inr m' \<Rightarrow>
          (case attachAndSend ord (k + 1) decls m' of
             Inl e \<Rightarrow> Inl e
           | Inr sent \<Rightarrow> Inr (rangeMap (ord k) m' @ sent)))"
| "attachAndSend ord k (_ # decls) m = attachAndSend ord k decls m"

definition iterStruct :: "mapOrder \<Rightarrow> astFile \<Rightarrow> namedStruct list result" where
  "iterStruct ord file =
     attachAndSend ord 0 (file_Decls file) (structsOfDecls (file_Decls file) [])"

section \<open>The import table: importsOfFile\<close>

text \<open>
  What the program reads from outside: \<open>goList\<close> is the decoded output of
  \<^verbatim>\<open>go list -json\<close> for the given import paths, a sequence of (ImportPath, Name);
  \<open>parseDir\<close> is \<^verbatim>\<open>build.Import\<close>, \<^verbatim>\<open>parser.ParseDir\<close> and
  \<^verbatim>\<open>ast.MergePackageFiles\<close> for an import path and a source directory: the text of the
  error, or the merged file of each package of the directory, in the order in which the
  range over the map of packages visits them.
\<close>

record env =
  goList :: "string list \<Rightarrow> (string \<times> string) list"
  parseDir :: "string \<Rightarrow> string \<Rightarrow> string + astFile list"

definition createPackageMap :: "env \<Rightarrow> string list \<Rightarrow> (string \<Rightarrow> string option)" where
  "createPackageMap ev importPaths =
     fold (\<lambda>(importPath, nm) pkgMap. pkgMap(importPath \<mapsto> nm)) (goList ev importPaths) Map.empty"

text \<open>\<^verbatim>\<open>is.Path.Value[1 : len(is.Path.Value)-1]\<close>: the slice panics on fewer than two bytes.\<close>

definition unquote :: "string \<Rightarrow> string result" where
  "unquote v = (if length v < 2 then Inl Panic else Inr (butlast (tl v)))"

fun unnamedImportPaths :: "importSpec list \<Rightarrow> string list result" where
  "unnamedImportPaths [] = Inr []"
| "unnamedImportPaths (imp # imps) =
     (if is_Name imp \<noteq> None then unnamedImportPaths imps
      else
        (case unquote (is_Path_Value imp) of
           Inl e \<Rightarrow> Inl e
         | Inr importPath \<Rightarrow>
             (case unnamedImportPaths imps of
                Inl e \<Rightarrow> Inl e
              | Inr importPaths \<Rightarrow> Inr (importPath # importPaths))))"

text \<open>
  \<^verbatim>\<open>path.Split\<close> gives the part after the last slash;
  \<^verbatim>\<open>strings.SplitN(last, ".", 2)[0]\<close> its part before the first dot.
\<close>

definition pathSuffixName :: "string \<Rightarrow> string" where
  "pathSuffixName importPath =
     takeWhile (\<lambda>c. c \<noteq> CHR ''.'') (rev (takeWhile (\<lambda>c. c \<noteq> CHR ''/'') (rev importPath)))"

text \<open>
  The name under which an import is entered: \<open>None\<close> for the blank alias, which is
  skipped by \<^verbatim>\<open>continue\<close>.
\<close>

definition importName :: "(string \<Rightarrow> string option) \<Rightarrow> importSpec \<Rightarrow> string \<Rightarrow> string option" where
  "importName packagesName imp importPath =
     (case is_Name imp of
        Some nm \<Rightarrow> if Name nm = ''_'' then None else Some (Name nm)
      | None \<Rightarrow>
          (case packagesName importPath of
             None \<Rightarrow> Some (pathSuffixName importPath)
           | Some pkg \<Rightarrow> Some pkg))"

definition addImport ::
    "string \<Rightarrow> string \<Rightarrow> (string \<Rightarrow> importedPackage option) \<Rightarrow> (string \<Rightarrow> importedPackage option)" where
  "addImport pkgName importPath normalImports =
     (case normalImports pkgName of
        Some (duplicateImport nm dups) \<Rightarrow>
          normalImports(pkgName \<mapsto> duplicateImport nm (importPath # dups))
      | Some (importedPkg pth ps) \<Rightarrow>
          normalImports(pkgName \<mapsto> duplicateImport pkgName [pth, importPath])
      | None \<Rightarrow> normalImports(pkgName \<mapsto> importedPkg importPath None))"

fun importsLoop :: "(string \<Rightarrow> string option) \<Rightarrow> importSpec list \<Rightarrow>
    (string \<Rightarrow> importedPackage option) \<Rightarrow> string list \<Rightarrow>
    ((string \<Rightarrow> importedPackage option) \<times> string list) result" where
  "importsLoop packagesName [] normalImports dotImports = Inr (normalImports, dotImports)"
| "importsLoop packagesName (imp # imps) normalImports dotImports =
     (case unquote (is_Path_Value imp) of
        Inl e \<Rightarrow> Inl e
      | Inr importPath \<Rightarrow>
          (case importName packagesName imp importPath of
             None \<Rightarrow> importsLoop packagesName imps normalImports dotImports
           | Some pkgName \<Rightarrow>
               if pkgName = ''.'' then
                 importsLoop packagesName imps normalImports (dotImports @ [importPath])
               else
                 importsLoop packagesName imps (addImport pkgName importPath normalImports)
                   dotImports))"

definition importsOfFile :: "env \<Rightarrow> astFile \<Rightarrow>
    ((string \<Rightarrow> importedPackage option) \<times> string list) result" where
  "importsOfFile ev file =
     (case unnamedImportPaths (file_Imports file) of
        Inl e \<Rightarrow> Inl e
      | Inr importPaths \<Rightarrow>
          importsLoop (createPackageMap ev importPaths) (file_Imports file) Map.empty [])"

section \<open>The resolver: parsePackage, parseInterface, parseStruct, parseFile\<close>

definition docList :: "commentGroup option \<Rightarrow> string list" where
  "docList doc = (case doc of None \<Rightarrow> [] | Some g \<Rightarrow> cg_List g)"

definition commentText :: "commentGroup option \<Rightarrow> string" where
  "commentText comment = (case comment of None \<Rightarrow> [] | Some g \<Rightarrow> cg_Text g)"

definition addInterfaces :: "string \<Rightarrow> namedInterface list \<Rightarrow>
    (string \<Rightarrow> string \<Rightarrow> namedInterface option) \<Rightarrow> (string \<Rightarrow> string \<Rightarrow> namedInterface option)" where
  "addInterfaces pkg nis m =
     fold (\<lambda>ni m. m(pkg := (m pkg)(Name (ni_name ni) \<mapsto> ni))) nis m"

definition addStructs :: "string \<Rightarrow> namedStruct list \<Rightarrow>
    (string \<Rightarrow> string \<Rightarrow> namedStruct option) \<Rightarrow> (string \<Rightarrow> string \<Rightarrow> namedStruct option)" where
  "addStructs pkg nss m =
     fold (\<lambda>ni m. m(pkg := (m pkg)(Name (ns_name ni) \<mapsto> ni))) nss m"

text \<open>
  \<^verbatim>\<open>addAuxInterfacesFromFile\<close> ranges over \<^verbatim>\<open>iterStruct(file)\<close> first, then over
  \<^verbatim>\<open>iterInterfaces(file)\<close>.
\<close>

definition addAuxInterfacesFromFile :: "mapOrder \<Rightarrow> fileParser \<Rightarrow> string \<Rightarrow> astFile \<Rightarrow>
    fileParser result" where
  "addAuxInterfacesFromFile ord p pkg file =
     (case iterStruct ord file of
        Inl e \<Rightarrow> Inl e
      | Inr nss \<Rightarrow>
          Inr (FileParser (fp_imports p) (fp_importedInterfaces p) (fp_auxFiles p)
                 (addStructs pkg nss (fp_auxStruct p))
                 (addInterfaces pkg (iterInterfaces file) (fp_auxInterfaces p))
                 (fp_srcDir p)))"

text \<open>
  \<^verbatim>\<open>parsePackage\<close>: a new parser with the interfaces of each package of the directory
  under the key \<open>path\<close>, and with the imports of its files, a later file's import
  replacing an earlier one of the same name.
\<close>

fun parsePackage_files :: "env \<Rightarrow> string \<Rightarrow> astFile list \<Rightarrow> fileParser \<Rightarrow> fileParser result" where
  "parsePackage_files ev pth [] newP = Inr newP"
| "parsePackage_files ev pth (file # files) newP =
     (case importsOfFile ev file of
        Inl e \<Rightarrow> Inl e
      | Inr (imps, _) \<Rightarrow>
          parsePackage_files ev pth files
            (FileParser (fp_imports newP ++ imps)
               (addInterfaces pth (iterInterfaces file) (fp_importedInterfaces newP))
               (fp_auxFiles newP) (fp_auxStruct newP) (fp_auxInterfaces newP)
               (fp_srcDir newP)))"

datatype pkgError = PkgError string

definition parsePackage :: "env \<Rightarrow> fileParser \<Rightarrow> string \<Rightarrow> (pkgError + fileParser) result" where
  "parsePackage ev p pth =
     (case parseDir ev pth (fp_srcDir p) of
        Inl err \<Rightarrow> Inr (Inl (PkgError err))
      | Inr files \<Rightarrow>
          (case parsePackage_files ev pth files (newFileParser (fp_srcDir p)) of
             Inl e \<Rightarrow> Inl e
           | Inr newP \<Rightarrow> Inr (Inr newP)))"

text \<open>
  \<^verbatim>\<open>parseStruct\<close>: the name and the doc of each method declaration, nothing of its
  signature. It never returns an error.
\<close>

definition structMethod :: "funcDecl \<Rightarrow> model_Method" where
  "structMethod fld = Method (Name (fd_Name fld)) (docList (fd_Doc fld)) [] [] None []"

definition parseStruct :: "fileParser \<Rightarrow> string \<Rightarrow> string \<Rightarrow> namedStruct \<Rightarrow> struct result" where
  "parseStruct p nm pkg it =
     Inr (Struct nm (docList (ns_doc it)) (commentText (ns_comment it))
            (fold (\<lambda>fld methods. methods(method_Name (structMethod fld) \<mapsto> structMethod fld))
               (ns_methods it) Map.empty))"

text \<open>
  \<^verbatim>\<open>parseInterface\<close> calls itself on every embedded interface, which it looks up by
  name in the caches of the parser: nothing bounds the depth of these calls, and an
  interface that embeds itself never returns. The first argument bounds that depth:
  \<open>None\<close> means that the bound was reached, not an outcome of the program.
  \<open>parseMethods\<close> is the loop over \<^verbatim>\<open>it.it.Methods.List\<close>, with the methods appended so
  far. The parser is passed on and returned, since resolving an interface of another
  package stores the parser of that package in \<^verbatim>\<open>p.imports\<close>, and that parser is
  changed in turn by the calls made on it.
\<close>

fun parseInterface :: "nat \<Rightarrow> env \<Rightarrow> fileParser \<Rightarrow> string \<Rightarrow> string \<Rightarrow> namedInterface \<Rightarrow>
      (interface \<times> fileParser) result option"
  and parseMethods :: "nat \<Rightarrow> env \<Rightarrow> fileParser \<Rightarrow> string \<Rightarrow> string \<Rightarrow> field list \<Rightarrow>
      model_Method list \<Rightarrow> (model_Method list \<times> fileParser) result option"
where
  "parseInterface fuel ev p nm pkg it =
     (case ni_it it of
        None \<Rightarrow> Some (Inl Panic)
      | Some fl \<Rightarrow>
          (case parseMethods fuel ev p nm pkg (fl_List fl) [] of
             None \<Rightarrow> None
           | Some (Inl e) \<Rightarrow> Some (Inl e)
           | Some (Inr (methods, p')) \<Rightarrow>
               Some (Inr (Interface nm (docList (ni_doc it)) (commentText (ni_comment it))
                            methods, p'))))"
| "parseMethods fuel ev p nm pkg [] methods = Some (Inr (methods, p))"
| "parseMethods fuel ev p nm pkg (fld # flds) methods =
     (case field_Type fld of
        ast_FuncType func params results \<Rightarrow>
          (case field_Names fld of
             [n] \<Rightarrow>
               (case parseFunc p pkg func params results of
                  Inl e \<Rightarrow> Some (Inl e)
                | Inr (ins, variadic, out) \<Rightarrow>
                    parseMethods fuel ev p nm pkg flds
                      (methods @ [Method (Name n) (docList (field_Doc fld))
                                    (commentText (field_Comment fld)) ins variadic out]))
           | names \<Rightarrow> Some (Inl (Error (ExpectedOneName nm (length names)))))
      | ast_Ident v \<Rightarrow>
          (case (case fp_auxInterfaces p pkg (Name v) of
                   Some ei \<Rightarrow> Some ei
                 | None \<Rightarrow> fp_importedInterfaces p pkg (Name v)) of
             None \<Rightarrow> Some (Inl (Error (UnknownEmbedded (NamePos v) (Name v))))
           | Some ei \<Rightarrow>
               (case fuel of
                  0 \<Rightarrow> None
                | Suc fuel' \<Rightarrow>
                    (case parseInterface fuel' ev p (Name v) pkg ei of
                       None \<Rightarrow> None
                     | Some (Inl e) \<Rightarrow> Some (Inl e)
                     | Some (Inr (eintf, p')) \<Rightarrow>
                         parseMethods fuel ev p' nm pkg flds (methods @ intf_Methods eintf))))
      | ast_SelectorExpr x sel \<Rightarrow>
          (case x of
             ast_Ident fpkg \<Rightarrow>
               (case fp_imports p (Name fpkg) of
                  None \<Rightarrow> Some (Inl (Error (UnknownPackage (NamePos fpkg) (Name fpkg))))
                | Some epkg \<Rightarrow>
                    (case fp_auxInterfaces p (Name fpkg) (Name sel) of
                       Some ei \<Rightarrow>
                         (case fuel of
                            0 \<Rightarrow> None
                          | Suc fuel' \<Rightarrow>
                              (case parseInterface fuel' ev p (Name sel) (Name fpkg) ei of
                                 None \<Rightarrow> None
                               | Some (Inl e) \<Rightarrow> Some (Inl e)
                               | Some (Inr (eintf, p')) \<Rightarrow>
                                   parseMethods fuel ev p' nm pkg flds
                                     (methods @ intf_Methods eintf)))
                     | None \<Rightarrow>
                         (case Path epkg of
                            Inl e \<Rightarrow> Some (Inl e)
                          | Inr pth \<Rightarrow>
                              (case Parser epkg of
                                 Inl e \<Rightarrow> Some (Inl e)
                               | Inr cached \<Rightarrow>
                                   (case (case cached of
                                            Some parser \<Rightarrow> Inr parser
                                          | None \<Rightarrow>
                                              (case parsePackage ev p pth of
                                                 Inl e \<Rightarrow> Inl e
                                               | Inr (Inl (PkgError err)) \<Rightarrow>
                                                   Inl (Error (CouldNotParsePackage
                                                          (NamePos fpkg) pth err))
                                               | Inr (Inr ip) \<Rightarrow> Inr ip)) of
                                      Inl e \<Rightarrow> Some (Inl e)
                                    | Inr parser \<Rightarrow>
                                        (case fp_importedInterfaces parser pth (Name sel) of
                                           None \<Rightarrow>
                                             Some (Inl (Error (UnknownEmbeddedIn
                                                     (NamePos fpkg) pth (Name sel))))
                                         | Some ei \<Rightarrow>
                                             (case fuel of
                                                0 \<Rightarrow> None
                                              | Suc fuel' \<Rightarrow>
                                                  (case parseInterface fuel' ev parser
                                                          (Name sel) pth ei of
                                                     None \<Rightarrow> None
                                                   | Some (Inl e) \<Rightarrow> Some (Inl e)
                                                   | Some (Inr (eintf, parser')) \<Rightarrow>
                                                       parseMethods fuel ev
                                                         (set_imports p ((fp_imports p)
                                                            (Name fpkg \<mapsto>
                                                               importedPkg pth (Some parser'))))
                                                         nm pkg flds
                                                         (methods @ intf_Methods eintf)))))))))
           | _ \<Rightarrow> Some (Inl Panic))
      | typ \<Rightarrow> Some (Inl (Error (DontKnowMock (typeName typ)))))"

text \<open>The two recursive equations are unfolded where a proof asks for them.\<close>

declare parseInterface.simps [simp del] parseMethods.simps(2) [simp del]

text \<open>The loop of \<^verbatim>\<open>parseFile\<close> over the auxiliary files: their imports never replace one.\<close>

fun auxImports :: "env \<Rightarrow> astFile list \<Rightarrow> (string \<Rightarrow> importedPackage option) \<Rightarrow>
    (string \<Rightarrow> importedPackage option) result" where
  "auxImports ev [] imps = Inr imps"
| "auxImports ev (f # fs) imps =
     (case importsOfFile ev f of
        Inl e \<Rightarrow> Inl e
      | Inr (auxImps, _) \<Rightarrow> auxImports ev fs (auxImps ++ imps))"

fun parseInterfaces :: "nat \<Rightarrow> env \<Rightarrow> fileParser \<Rightarrow> string \<Rightarrow> namedInterface list \<Rightarrow>
    (interface list \<times> fileParser) result option" where
  "parseInterfaces fuel ev p importPath [] = Some (Inr ([], p))"
| "parseInterfaces fuel ev p importPath (ni # nis) =
     (case parseInterface fuel ev p (Name (ni_name ni)) importPath ni of
        None \<Rightarrow> None
      | Some (Inl e) \<Rightarrow> Some (Inl e)
      | Some (Inr (i, p')) \<Rightarrow>
          (case parseInterfaces fuel ev p' importPath nis of
             None \<Rightarrow> None
           | Some (Inl e) \<Rightarrow> Some (Inl e)
           | Some (Inr (is, p'')) \<Rightarrow> Some (Inr (i # is, p''))))"

fun parseStructs :: "fileParser \<Rightarrow> string \<Rightarrow> namedStruct list \<Rightarrow> struct list result" where
  "parseStructs p importPath [] = Inr []"
| "parseStructs p importPath (ni # nis) =
     (case parseStruct p (Name (ns_name ni)) importPath ni of
        Inl e \<Rightarrow> Inl e
      | Inr i \<Rightarrow>
          (case parseStructs p importPath nis of
             Inl e \<Rightarrow> Inl e
           | Inr ss \<Rightarrow> Inr (i # ss)))"

text \<open>
  \<^verbatim>\<open>parseFile\<close>: the imports of the file and of the auxiliary files are added to
  \<^verbatim>\<open>p.imports\<close> where the name is not yet there; then every interface of
  \<^verbatim>\<open>iterInterfaces(file)\<close> is resolved and every struct of \<^verbatim>\<open>iterStruct(file)\<close>
  translated. The goroutine of \<^verbatim>\<open>iterStruct\<close> starts after the loop over the
  interfaces has ended.
\<close>

definition parseFile :: "nat \<Rightarrow> env \<Rightarrow> mapOrder \<Rightarrow> fileParser \<Rightarrow> string \<Rightarrow> astFile \<Rightarrow>
    package result option" where
  "parseFile fuel ev ord p importPath file =
     (case importsOfFile ev file of
        Inl e \<Rightarrow> Some (Inl e)
      | Inr (allImports, dotImports) \<Rightarrow>
          (case auxImports ev (fp_auxFiles p) (allImports ++ fp_imports p) of
             Inl e \<Rightarrow> Some (Inl e)
           | Inr imps \<Rightarrow>
               (case parseInterfaces fuel ev (set_imports p imps) importPath
                       (iterInterfaces file) of
                  None \<Rightarrow> None
                | Some (Inl e) \<Rightarrow> Some (Inl e)
                | Some (Inr (is, p')) \<Rightarrow>
                    (case iterStruct ord file of
                       Inl e \<Rightarrow> Some (Inl e)
                     | Inr nss \<Rightarrow>
                         (case parseStructs p' importPath nss of
                            Inl e \<Rightarrow> Some (Inl e)
                          | Inr ss \<Rightarrow>
                              Some (Inr (Package (Name (file_Name file)) importPath is ss
                                           dotImports)))))))"

section \<open>The identifier allocator\<close>

text \<open>
  \<^verbatim>\<open>identifierAllocator\<close> is a \<^verbatim>\<open>map[string]struct{}\<close>: a finite set of names. The
  loop of \<^verbatim>\<open>allocateIdentifier\<close> has no exit but its \<^verbatim>\<open>return\<close>; \<open>ident\<close> is the
  candidate \<^verbatim>\<open>id\<close> and \<open>i\<close> the counter, which starts at 2 and only grows (a counter
  of 64 bits cannot wrap before the map holds \<open>2 ^ 63\<close> names).
\<close>

type_synonym identifierAllocator = "string fset"

definition newIdentifierAllocator :: "string list \<Rightarrow> identifierAllocator" where
  "newIdentifierAllocator taken = fold finsert taken {||}"

definition probe :: "string \<Rightarrow> nat \<Rightarrow> string" where
  "probe want i = want @ ''_'' @ Itoa i"

lemma of_char_digit_char: "d < 10 \<Longrightarrow> of_char (digit_char d) = 48 + d"
proof -
  assume "d < 10"
  then have "d \<in> {0, 1, 2, 3, 4, 5, 6, 7, 8, 9}" by auto
  then show ?thesis by (auto simp: digit_char_def)
qed

lemma digits_val_snoc: "digits_val (s @ [c]) = 10 * digits_val s + (of_char c - 48)"
  by (simp add: digits_val_def)

lemma digits_val_Itoa: "digits_val (Itoa n) = n"
proof (induction n rule: Itoa.induct)
  case (1 n)
  show ?case
  proof (cases "n < 10")
    case True
    then show ?thesis
      by (subst Itoa.simps) (simp add: digits_val_def of_char_digit_char)
  next
    case False
    with 1 have "digits_val (Itoa (n div 10)) = n div 10" by simp
    with False show ?thesis
      by (subst Itoa.simps) (simp add: digits_val_snoc of_char_digit_char)
  qed
qed

lemma Itoa_inj: "Itoa m = Itoa n \<Longrightarrow> m = n"
  by (metis digits_val_Itoa)

lemma probe_inj: "probe want i = probe want j \<Longrightarrow> i = j"
  by (auto simp: probe_def dest: Itoa_inj)

lemma finite_probes: "finite {j. probe want j |\<in>| (a::identifierAllocator)}"
proof -
  have "inj_on (probe want) {j. probe want j |\<in>| a}"
    by (auto simp: inj_on_def dest: probe_inj)
  moreover have "probe want ` {j. probe want j |\<in>| a} \<subseteq> fset a" by auto
  ultimately show ?thesis
    by (meson finite_fset finite_subset inj_on_finite)
qed

function allocateIdentifier_loop ::
    "identifierAllocator \<Rightarrow> string \<Rightarrow> string \<Rightarrow> nat \<Rightarrow> string \<times> identifierAllocator" where
  "allocateIdentifier_loop a want ident i =
     (if ident |\<notin>| a then (ident, finsert ident a)
      else allocateIdentifier_loop a want (want @ ''_'' @ Itoa i) (i + 1))"
  by pat_completeness auto
termination
proof (relation "measure (\<lambda>(a, want, ident, i).
    card {j. i \<le> j \<and> probe want j |\<in>| a} + (if ident |\<in>| a then 1 else 0))", goal_cases)
  case 1
  then show ?case by simp
next
  case (2 a want ident i)
  have fin: "finite {j. i + 1 \<le> j \<and> probe want j |\<in>| a}"
    by (rule finite_subset[OF _ finite_probes[of want a]]) auto
  show ?case
  proof (cases "probe want i |\<in>| a")
    case True
    have "{j. i \<le> j \<and> probe want j |\<in>| a} = insert i {j. i + 1 \<le> j \<and> probe want j |\<in>| a}"
      using True by (auto simp: le_eq_less_or_eq)
    with fin have "card {j. i \<le> j \<and> probe want j |\<in>| a}
        = Suc (card {j. i + 1 \<le> j \<and> probe want j |\<in>| a})"
      by simp
    with 2 True show ?thesis by (simp add: probe_def)
  next
    case False
    have "{j. i + 1 \<le> j \<and> probe want j |\<in>| a} = {j. i \<le> j \<and> probe want j |\<in>| a}"
      using False by (auto simp: Suc_le_eq le_eq_less_or_eq)
    with 2 False show ?thesis by (simp add: probe_def)
  qed
qed

declare allocateIdentifier_loop.simps [simp del]

definition allocateIdentifier :: "identifierAllocator \<Rightarrow> string \<Rightarrow> string \<times> identifierAllocator" where
  "allocateIdentifier a want = allocateIdentifier_loop a want want 2"

section \<open>Properties of the identifier allocator\<close>

lemma allocateIdentifier_loop_spec:
  "allocateIdentifier_loop a want ident i = (r, a') \<Longrightarrow>
     a' = finsert r a \<and> r |\<notin>| a \<and>
     (ident |\<notin>| a \<longrightarrow> r = ident) \<and>
     (ident |\<in>| a \<longrightarrow>
        (\<exists>k\<ge>i. r = probe want k \<and> (\<forall>j. i \<le> j \<and> j < k \<longrightarrow> probe want j |\<in>| a)))"
proof (induction a want ident i rule: allocateIdentifier_loop.induct)
  case (1 a want ident i)
  show ?case
  proof (cases "ident |\<in>| a")
    case False
    from "1.prems" False have "r = ident" "a' = finsert ident a"
      by (auto simp: allocateIdentifier_loop.simps[of a want ident])
    with False show ?thesis by simp
  next
    case True
    with "1.prems" have rec: "allocateIdentifier_loop a want (want @ ''_'' @ Itoa i) (i + 1) = (r, a')"
      by (simp add: allocateIdentifier_loop.simps[of a want ident])
    from "1.IH"[OF _ rec] True have IH1: "a' = finsert r a" "r |\<notin>| a"
      and IH2: "probe want i |\<notin>| a \<Longrightarrow> r = probe want i"
      and IH3: "probe want i |\<in>| a \<Longrightarrow>
          (\<exists>k\<ge>i + 1. r = probe want k \<and>
             (\<forall>j. i + 1 \<le> j \<and> j < k \<longrightarrow> probe want j |\<in>| a))"
      by (simp_all add: probe_def)
    have "\<exists>k\<ge>i. r = probe want k \<and> (\<forall>j. i \<le> j \<and> j < k \<longrightarrow> probe want j |\<in>| a)"
    proof (cases "probe want i |\<in>| a")
      case False
      from IH2[OF False] have "r = probe want i" .
      then show ?thesis by (intro exI[of _ i]) auto
    next
      case pin: True
      from IH3[OF pin] obtain k where k: "k \<ge> i + 1" "r = probe want k"
          "\<forall>j. i + 1 \<le> j \<and> j < k \<longrightarrow> probe want j |\<in>| a"
        by blast
      have "\<forall>j. i \<le> j \<and> j < k \<longrightarrow> probe want j |\<in>| a"
      proof (intro allI impI)
        fix j assume j: "i \<le> j \<and> j < k"
        show "probe want j |\<in>| a"
        proof (cases "j = i")
          case True
          with pin show ?thesis by simp
        next
          case False
          with j have "i + 1 \<le> j \<and> j < k" by simp
          with k(3) show ?thesis by blast
        qed
      qed
      with k(1,2) show ?thesis by (intro exI[of _ k]) auto
    qed
    with IH1 True show ?thesis by simp
  qed
qed

lemma allocate_Foo:
  "allocateIdentifier (newIdentifierAllocator [''Foo'']) ''Foo'' = (''Foo_2'', {|''Foo_2'', ''Foo''|})"
  by (simp add: allocateIdentifier_def newIdentifierAllocator_def allocateIdentifier_loop.simps
      Itoa.simps digit_char_def)

lemma allocate_Foo_again:
  "allocateIdentifier {|''Foo_2'', ''Foo''|} ''Foo'' = (''Foo_3'', {|''Foo_3'', ''Foo_2'', ''Foo''|})"
  by (simp add: allocateIdentifier_def allocateIdentifier_loop.simps Itoa.simps digit_char_def)

text \<open>
  C8. For every allocator state \<open>a\<close> and every requested name \<open>want\<close>,
  \<open>allocateIdentifier\<close> returns \<open>want\<close> when it is not taken, and otherwise
  \<open>want_k\<close> for the least \<open>k \<ge> 2\<close> whose name is free (every \<open>want_j\<close> with
  \<open>2 \<le> j < k\<close> is taken); the name returned was free and is the one name added to the
  state. The function is total: its loop was shown to terminate on every finite set of
  names, so each call has this one result. On the allocator seeded with \<open>Foo\<close> the first
  call gives \<open>Foo_2\<close> and the second \<open>Foo_3\<close>.
\<close>

theorem allocateIdentifier_first_free:
  "(case allocateIdentifier a want of
      (r, a') \<Rightarrow>
        a' = finsert r a \<and> r |\<notin>| a \<and>
        (want |\<notin>| a \<longrightarrow> r = want) \<and>
        (want |\<in>| a \<longrightarrow>
           (\<exists>k\<ge>2. r = want @ ''_'' @ Itoa k \<and>
              (\<forall>j. 2 \<le> j \<and> j < k \<longrightarrow> want @ ''_'' @ Itoa j |\<in>| a)))) \<and>
   (case allocateIdentifier (newIdentifierAllocator [''Foo'']) ''Foo'' of
      (r1, a1) \<Rightarrow> r1 = ''Foo_2'' \<and> fst (allocateIdentifier a1 ''Foo'') = ''Foo_3'')"
proof -
  obtain r a' where ra: "allocateIdentifier a want = (r, a')"
    by (cases "allocateIdentifier a want")
  from allocateIdentifier_loop_spec[OF ra[unfolded allocateIdentifier_def]]
  have "a' = finsert r a \<and> r |\<notin>| a \<and>
        (want |\<notin>| a \<longrightarrow> r = want) \<and>
        (want |\<in>| a \<longrightarrow>
           (\<exists>k\<ge>2. r = want @ ''_'' @ Itoa k \<and>
              (\<forall>j. 2 \<le> j \<and> j < k \<longrightarrow> want @ ''_'' @ Itoa j |\<in>| a)))"
    by (simp add: probe_def)
  then have "case allocateIdentifier a want of
      (r, a') \<Rightarrow>
        a' = finsert r a \<and> r |\<notin>| a \<and>
        (want |\<notin>| a \<longrightarrow> r = want) \<and>
        (want |\<in>| a \<longrightarrow>
           (\<exists>k\<ge>2. r = want @ ''_'' @ Itoa k \<and>
              (\<forall>j. 2 \<le> j \<and> j < k \<longrightarrow> want @ ''_'' @ Itoa j |\<in>| a)))"
    unfolding ra by simp
  moreover have "case allocateIdentifier (newIdentifierAllocator [''Foo'']) ''Foo'' of
      (r1, a1) \<Rightarrow> r1 = ''Foo_2'' \<and> fst (allocateIdentifier a1 ''Foo'') = ''Foo_3''"
    unfolding allocate_Foo by (simp add: allocate_Foo_again)
  ultimately show ?thesis by (rule conjI)
qed

theorem allocateIdentifier_first_free_witness:
  "''Foo'' |\<in>| {|''Foo'', ''Foo_2''|} \<and>
   (\<exists>k\<ge>2. fst (allocateIdentifier {|''Foo'', ''Foo_2''|} ''Foo'') = ''Foo'' @ ''_'' @ Itoa k \<and>
      (\<forall>j. 2 \<le> j \<and> j < k \<longrightarrow> ''Foo'' @ ''_'' @ Itoa j |\<in>| {|''Foo'', ''Foo_2''|})) \<and>
   fst (allocateIdentifier {|''Foo'', ''Foo_2''|} ''Foo'') |\<notin>| {|''Foo'', ''Foo_2''|} \<and>
   ''Bar'' |\<notin>| {|''Foo'', ''Foo_2''|} \<and>
   fst (allocateIdentifier {|''Foo'', ''Foo_2''|} ''Bar'') = ''Bar''"
proof -
  have mem: "''Foo'' |\<in>| {|''Foo'', ''Foo_2''|}" by simp
  have nmem: "''Bar'' |\<notin>| {|''Foo'', ''Foo_2''|}" by simp
  obtain r a' where ra: "allocateIdentifier {|''Foo'', ''Foo_2''|} ''Foo'' = (r, a')"
    by (cases "allocateIdentifier {|''Foo'', ''Foo_2''|} ''Foo''")
  obtain s b' where sb: "allocateIdentifier {|''Foo'', ''Foo_2''|} ''Bar'' = (s, b')"
    by (cases "allocateIdentifier {|''Foo'', ''Foo_2''|} ''Bar''")
  from allocateIdentifier_first_free[of "{|''Foo'', ''Foo_2''|}" "''Foo''"]
  have 1: "r |\<notin>| {|''Foo'', ''Foo_2''|} \<and>
     (\<exists>k\<ge>2. r = ''Foo'' @ ''_'' @ Itoa k \<and>
        (\<forall>j. 2 \<le> j \<and> j < k \<longrightarrow> ''Foo'' @ ''_'' @ Itoa j |\<in>| {|''Foo'', ''Foo_2''|}))"
    unfolding ra using mem by simp
  from allocateIdentifier_first_free[of "{|''Foo'', ''Foo_2''|}" "''Bar''"]
  have 2: "s = ''Bar''"
    unfolding sb using nmem by simp
  from mem nmem 1 2 show ?thesis unfolding ra sb by simp
qed

section \<open>Properties of the parameter-list translation\<close>

text \<open>
  What the specification says one field group becomes, given the translation \<open>t\<close> of its
  type: one parameter for each name, in order, or one parameter without a name.
\<close>

definition expandField :: "mtype \<Rightarrow> field \<Rightarrow> parameter option list" where
  "expandField t f =
     (if field_Names f = [] then [Some (Parameter [] t)]
      else map (\<lambda>n. Some (Parameter (Name n) t)) (field_Names f))"

definition expandFields :: "mtype list \<Rightarrow> field list \<Rightarrow> parameter option list" where
  "expandFields ts flds = concat (map (\<lambda>(t, f). expandField t f) (zip ts flds))"

definition fieldCount :: "field \<Rightarrow> nat" where
  "fieldCount f = (if length (field_Names f) = 0 then 1 else length (field_Names f))"

lemma fold_fieldCount:
  "fold (\<lambda>f nf. nf + (if length (field_Names f) = 0 then 1 else length (field_Names f))) fs n
     = n + sum_list (map fieldCount fs)"
  by (induction fs arbitrary: n) (simp_all add: fieldCount_def)

lemma countFields_sum: "countFields fs = sum_list (map fieldCount fs)"
  unfolding countFields_def using fold_fieldCount[of fs 0] by simp

lemma countFields_Nil: "countFields [] = 0"
  by (simp add: countFields_sum)

lemma countFields_Cons: "countFields (f # fs) = fieldCount f + countFields fs"
  by (simp add: countFields_sum)

lemma fieldCount_pos: "0 < fieldCount f"
  by (simp add: fieldCount_def)

lemma length_expandField: "length (expandField t f) = fieldCount f"
  by (simp add: expandField_def fieldCount_def)

lemma fillNames_spec:
  "i + length ns \<le> length ps \<Longrightarrow>
     fillNames t ns ps i =
       Inr (take i ps @ map (\<lambda>n. Some (Parameter (Name n) t)) ns @ drop (i + length ns) ps,
            i + length ns)"
proof (induction ns arbitrary: ps i)
  case Nil
  then show ?case by simp
next
  case (Cons n ns)
  from Cons.prems have i: "i < length ps" by simp
  have "take (Suc i) (ps[i := Some (Parameter (Name n) t)]) = take i ps @ [Some (Parameter (Name n) t)]"
    using i by (simp add: take_Suc_conv_app_nth)
  moreover have "drop (Suc (i + length ns)) (ps[i := Some (Parameter (Name n) t)])
      = drop (Suc (i + length ns)) ps"
    by simp
  ultimately show ?case
    using Cons.IH[of "Suc i" "ps[i := Some (Parameter (Name n) t)]"] Cons.prems i by simp
qed

text \<open>
  The second loop of \<open>parseFieldList\<close>, on a slice with room left for the fields still to
  come: it never indexes outside the slice, and writes the expansion of the fields at
  \<open>i\<close>; the first type that does not translate ends it with that failure.
\<close>

lemma fillFields_spec:
  "i + countFields flds \<le> length ps \<Longrightarrow>
     fillFields p pkg flds ps i =
       (case parseTypes p pkg (map field_Type flds) of
          Inl e \<Rightarrow> Inl e
        | Inr ts \<Rightarrow>
            Inr (take i ps @ expandFields ts flds @ drop (i + countFields flds) ps))"
proof (induction flds arbitrary: ps i)
  case Nil
  then show ?case by (simp add: expandFields_def countFields_Nil)
next
  case (Cons f flds)
  show ?case
  proof (cases "parseType p pkg (field_Type f)")
    case (Inl e)
    then show ?thesis by simp
  next
    case (Inr t)
    from Cons.prems have room: "i + fieldCount f + countFields flds \<le> length ps"
      by (simp add: countFields_Cons)
    show ?thesis
    proof (cases "field_Names f = []")
      case True
      then have fc: "fieldCount f = 1" by (simp add: fieldCount_def)
      with room have i: "i < length ps" by simp
      have tk: "take (Suc i) (ps[i := Some (Parameter [] t)]) = take i ps @ [Some (Parameter [] t)]"
        using i by (simp add: take_Suc_conv_app_nth)
      from room fc have "Suc i + countFields flds \<le> length (ps[i := Some (Parameter [] t)])"
        by simp
      from Cons.IH[OF this] Inr True i tk fc show ?thesis
        by (simp add: expandFields_def expandField_def countFields_Cons split: sum.splits)
    next
      case False
      then have fc: "fieldCount f = length (field_Names f)" by (simp add: fieldCount_def)
      let ?ps' = "take i ps @ map (\<lambda>n. Some (Parameter (Name n) t)) (field_Names f)
                   @ drop (i + length (field_Names f)) ps"
      from room fc have fits: "i + length (field_Names f) \<le> length ps" by simp
      have fn: "fillNames t (field_Names f) ps i = Inr (?ps', i + length (field_Names f))"
        by (rule fillNames_spec[OF fits])
      have len: "length ?ps' = length ps" using fits by simp
      from room fc len have "(i + length (field_Names f)) + countFields flds \<le> length ?ps'"
        by simp
      note IH = Cons.IH[OF this]
      have tk: "take (i + length (field_Names f)) ?ps'
          = take i ps @ map (\<lambda>n. Some (Parameter (Name n) t)) (field_Names f)"
        using fits by simp
      have dr: "drop (i + length (field_Names f) + countFields flds) ?ps'
          = drop (i + length (field_Names f) + countFields flds) ps"
        using fits by (simp add: ac_simps)
      from IH Inr False fn tk dr fc show ?thesis
        by (simp add: expandFields_def expandField_def countFields_Cons add.assoc
            split: sum.splits)
    qed
  qed
qed

lemma length_expandFields:
  "length ts = length flds \<Longrightarrow> length (expandFields ts flds) = countFields flds"
proof (induction flds arbitrary: ts)
  case Nil
  then show ?case by (simp add: expandFields_def countFields_Nil)
next
  case (Cons f flds)
  then obtain t ts' where ts: "ts = t # ts'" "length ts' = length flds"
    by (cases ts) auto
  with Cons.IH[of ts'] show ?case
    by (simp add: expandFields_def countFields_Cons length_expandField)
qed

lemma parseTypes_length: "parseTypes p pkg es = Inr ts \<Longrightarrow> length ts = length es"
  by (induction es arbitrary: ts) (auto split: sum.splits)

lemma parseFieldList_eq:
  "parseFieldList p pkg flds =
     (case parseTypes p pkg (map field_Type flds) of
        Inl e \<Rightarrow> Inl e
      | Inr ts \<Rightarrow> Inr (expandFields ts flds))"
proof (cases "countFields flds = 0")
  case True
  then have "flds = []"
    by (cases flds) (auto simp: countFields_Cons fieldCount_def split: if_splits)
  then show ?thesis by (simp add: countFields_Nil expandFields_def)
next
  case False
  have "0 + countFields flds \<le> length (replicate (countFields flds) (None :: parameter option))"
    by simp
  from fillFields_spec[OF this, of p pkg]
  have "fillFields p pkg flds (replicate (countFields flds) None) 0 =
      (case parseTypes p pkg (map field_Type flds) of
         Inl e \<Rightarrow> Inl e
       | Inr ts \<Rightarrow> Inr (expandFields ts flds))"
    by (simp split: sum.splits)
  with False show ?thesis by (simp add: parseFieldList.simps)
qed

declare parseFieldList.simps [simp del]

lemma parseFieldList_single:
  "parseFieldList p pkg [f] =
     (case parseType p pkg (field_Type f) of
        Inl e \<Rightarrow> Inl e
      | Inr t \<Rightarrow> Inr (expandField t f))"
  unfolding parseFieldList_eq by (simp add: expandFields_def split: sum.splits)

lemma parseFieldList_length:
  "parseFieldList p pkg flds = Inr ps \<Longrightarrow> length ps = countFields flds"
  unfolding parseFieldList_eq
  by (auto split: sum.splits dest!: parseTypes_length simp: length_expandFields)

lemma IsExported_T: "IsExported (Ident pt ''T'')"
  by (simp add: IsExported_ascii)

text \<open>
  C7. For every ordered list of field groups, \<open>parseFieldList\<close> translates the types of
  the groups in order and gives, group after group, one parameter for each name of the
  group, in the order of the names and with the translation of the group's type, or one
  parameter without a name for a group without names; the first type that does not
  translate is the failure of the whole list. The group \<open>a, b T\<close> gives the two
  parameters \<open>a\<close> and \<open>b\<close>, both of type \<open>T\<close>, in this order.
\<close>

theorem parseFieldList_expands:
  "parseFieldList p pkg flds =
     (case parseTypes p pkg (map field_Type flds) of
        Inl e \<Rightarrow> Inl e
      | Inr ts \<Rightarrow> Inr (expandFields ts flds)) \<and>
   parseFieldList (newFileParser dir) pkg
       [Field doc [Ident pa ''a'', Ident pb ''b''] (ast_Ident (Ident pt ''T'')) comment] =
     Inr [Some (Parameter ''a'' (model_NamedType pkg ''T'')),
          Some (Parameter ''b'' (model_NamedType pkg ''T''))]"
proof
  show "parseFieldList p pkg flds =
     (case parseTypes p pkg (map field_Type flds) of
        Inl e \<Rightarrow> Inl e
      | Inr ts \<Rightarrow> Inr (expandFields ts flds))"
    by (rule parseFieldList_eq)
next
  have "parseType (newFileParser dir) pkg (ast_Ident (Ident pt ''T'')) = Inr (model_NamedType pkg ''T'')"
    by (simp add: IsExported_T newFileParser_def)
  then show "parseFieldList (newFileParser dir) pkg
       [Field doc [Ident pa ''a'', Ident pb ''b''] (ast_Ident (Ident pt ''T'')) comment] =
     Inr [Some (Parameter ''a'' (model_NamedType pkg ''T'')),
          Some (Parameter ''b'' (model_NamedType pkg ''T''))]"
    unfolding parseFieldList_single by (simp add: expandField_def)
qed

section \<open>Properties of the function-type translation\<close>

text \<open>
  C6. When \<open>parseFunc\<close> translates a function type with a parameter list: if the type of
  the last field group is a variadic marker, the inputs are the translation of the groups
  before the last and of nothing else, and the variadic slot holds the first parameter of
  the last group, of the element type of the marker; otherwise the variadic slot is empty and
  the inputs are the translation of all the groups. In both cases the number of inputs is the
  number of parameters of the groups translated as inputs, so the last group of a variadic
  list adds no entry to the inputs.
\<close>

theorem parseFunc_variadic_split:
  "parseFunc p pkg func (Some (FieldList opening flds)) results = Inr (ins, variadic, out) \<Longrightarrow>
     (if flds \<noteq> [] \<and> isEllipsis (field_Type (last flds))
      then parseFieldList p pkg (butlast flds) = Inr ins \<and>
           length ins = countFields (butlast flds) \<and>
           (\<exists>t. parseType p pkg (field_Type (last flds)) = Inr t \<and>
                variadic = hd (expandField t (last flds)))
      else variadic = None \<and> parseFieldList p pkg flds = Inr ins \<and>
           length ins = countFields flds)"
proof (cases "isVariadic flds")
  case True
  then have last: "flds \<noteq> [] \<and> isEllipsis (field_Type (last flds))"
    by (auto simp: isVariadic_def split: if_splits)
  assume "parseFunc p pkg func (Some (FieldList opening flds)) results = Inr (ins, variadic, out)"
  with True obtain t where
      t: "parseType p pkg (field_Type (last flds)) = Inr t"
      and v: "variadic = hd (expandField t (last flds))"
      and i: "parseFieldList p pkg (butlast flds) = Inr ins"
    by (auto simp: parseFieldList_single split: sum.splits list.splits)
  from i have "length ins = countFields (butlast flds)"
    by (rule parseFieldList_length)
  with last t v i show ?thesis by auto
next
  case False
  then have nolast: "\<not> (flds \<noteq> [] \<and> isEllipsis (field_Type (last flds)))"
    by (auto simp: isVariadic_def)
  assume "parseFunc p pkg func (Some (FieldList opening flds)) results = Inr (ins, variadic, out)"
  with False have v: "variadic = None" and i: "parseFieldList p pkg flds = Inr ins"
    by (auto split: sum.splits)
  from i have "length ins = countFields flds"
    by (rule parseFieldList_length)
  with nolast v i show ?thesis by auto
qed

text \<open>The parameter list \<open>(a int, rest ...string)\<close> of a method of an interface.\<close>

definition variadicParams :: "field list" where
  "variadicParams =
     [Field None [Ident 12 ''a''] (ast_Ident (Ident 14 ''int'')) None,
      Field None [Ident 19 ''rest'']
        (ast_Ellipsis 24 (ast_Ident (Ident 27 ''string''))) None]"

lemma parseFunc_variadicParams:
  "parseFunc (newFileParser []) ''pkg'' 0 (Some (FieldList 11 variadicParams)) None =
     Inr ([Some (Parameter ''a'' (model_PredeclaredType ''int''))],
          Some (Parameter ''rest'' (model_PredeclaredType ''string'')), [])"
  by (simp add: variadicParams_def isVariadic_def parseFieldList.simps countFields_def
      IsExported_ascii newFileParser_def)

theorem parseFunc_variadic_split_witness:
  "parseFunc (newFileParser []) ''pkg'' 0 (Some (FieldList 11 variadicParams)) None =
     Inr ([Some (Parameter ''a'' (model_PredeclaredType ''int''))],
          Some (Parameter ''rest'' (model_PredeclaredType ''string'')), []) \<and>
   variadicParams \<noteq> [] \<and> isEllipsis (field_Type (last variadicParams)) \<and>
   parseFieldList (newFileParser []) ''pkg'' (butlast variadicParams) =
     Inr [Some (Parameter ''a'' (model_PredeclaredType ''int''))] \<and>
   length [Some (Parameter ''a'' (model_PredeclaredType ''int''))] =
     countFields (butlast variadicParams)"
proof -
  have last: "variadicParams \<noteq> [] \<and> isEllipsis (field_Type (last variadicParams))"
    by (simp add: variadicParams_def)
  from parseFunc_variadic_split[OF parseFunc_variadicParams] last
  have "parseFieldList (newFileParser []) ''pkg'' (butlast variadicParams) =
          Inr [Some (Parameter ''a'' (model_PredeclaredType ''int''))] \<and>
        length [Some (Parameter ''a'' (model_PredeclaredType ''int''))] =
          countFields (butlast variadicParams)"
    by simp
  with parseFunc_variadicParams last show ?thesis by simp
qed

section \<open>Array lengths\<close>

text \<open>
  The two cases that the array case of \<open>parseType\<close> handles: a length that is a basic
  literal goes to \<open>Atoi\<close>, and its failure is the error \<open>BadArraySize\<close> at the position
  of the literal; no length gives \<open>- 1\<close>.
\<close>

lemma parseType_ArrayType_literal:
  "parseType p pkg (ast_ArrayType lbrack (ast_BasicLit valuePos k v) elt) =
     (case Atoi v of
        None \<Rightarrow> Inl (Error (BadArraySize valuePos v))
      | Some x \<Rightarrow>
          (case parseType p pkg elt of
             Inl e \<Rightarrow> Inl e
           | Inr t \<Rightarrow> Inr (model_ArrayType x t)))"
  by (simp split: option.splits)

lemma parseType_ArrayType_slice:
  "parseType p pkg (ast_ArrayType lbrack ast_Nil elt) =
     (case parseType p pkg elt of
        Inl e \<Rightarrow> Inl e
      | Inr t \<Rightarrow> Inr (model_ArrayType (- 1) t))"
  by simp

text \<open>A literal of the scanner does not begin with a sign, and then \<open>Atoi\<close> is not negative.\<close>

lemma Atoi_nonneg: "Atoi v = Some x \<Longrightarrow> hd v \<noteq> CHR ''-'' \<Longrightarrow> 0 \<le> x"
  by (cases v) (auto simp: Atoi_def Let_def split: if_splits)

text \<open>
  C5, where the code departs from it. The array type \<open>[N]int\<close>, with \<open>N\<close> a constant of
  the package, has a length that is present and is an identifier, not a basic literal:
  the unchecked assertion \<^verbatim>\<open>v.Len.(*ast.BasicLit)\<close> panics. The outcome is neither the
  error \<open>BadArraySize\<close> nor an array type.
\<close>

theorem parseType_ArrayType_ident_length_panics:
  "parseType p pkg (ast_ArrayType lbrack (ast_Ident (Ident namePos ''N''))
      (ast_Ident (Ident eltPos ''int''))) = Inl Panic"
  by simp

section \<open>The struct scanner\<close>

text \<open>The declaration \<open>type S struct{}\<close> and two methods \<open>func (s *S) M()\<close>, \<open>func (s S) N()\<close>.\<close>

definition declS :: decl where
  "declS = ast_GenDecl None token_TYPE
     [TypeSpec (Ident 6 ''S'') (ast_StructType 8 (Some (FieldList 14 []))) None]"

definition funcM :: funcDecl where
  "funcM = FuncDecl None
     (Some (FieldList 22 [Field None [Ident 23 ''s'']
        (ast_StarExpr 25 (ast_Ident (Ident 26 ''S''))) None]))
     (Ident 29 ''M'')
     (ast_FuncType 17 (Some (FieldList 30 [Field None [Ident 31 ''x'']
        (ast_Ident (Ident 33 ''int'')) None]))
        (Some (FieldList 0 [Field None [] (ast_Ident (Ident 38 ''int'')) None])))"

definition funcN :: funcDecl where
  "funcN = FuncDecl None
     (Some (FieldList 50 [Field None [Ident 51 ''s''] (ast_Ident (Ident 53 ''S'')) None]))
     (Ident 56 ''N'') (ast_FuncType 45 (Some (FieldList 57 [])) None)"

text \<open>The method \<open>func (s *S[T]) G()\<close> of a generic struct: a star over an index expression.\<close>

definition funcG :: funcDecl where
  "funcG = FuncDecl None
     (Some (FieldList 22 [Field None [Ident 23 ''s'']
        (ast_StarExpr 25 (ast_IndexExpr (ast_Ident (Ident 26 ''S'')) (ast_Ident (Ident 28 ''T''))))
        None]))
     (Ident 32 ''G'') (ast_FuncType 17 (Some (FieldList 33 [])) None)"

definition declT :: decl where
  "declT = ast_GenDecl None token_TYPE
     [TypeSpec (Ident 66 ''T'') (ast_StructType 68 (Some (FieldList 74 []))) None]"

lemma structsOfDecls_S:
  "structsOfDecls [declS] [] = [(''S'', NamedStruct (Ident 6 ''S'') None None (Some (FieldList 14 [])) [])]"
  by (simp add: declS_def)

text \<open>
  C2, where the code departs from it. A file that declares the struct \<open>S\<close> and no function:
  the sends are inside the body of the loop over the declarations, after the
  \<^verbatim>\<open>continue\<close> for a declaration that is not a function, so nothing is sent, whatever
  the order of the map. With the two methods \<open>M\<close> and \<open>N\<close> after it, \<open>S\<close> is sent twice,
  the first time with \<open>M\<close> alone.
\<close>

theorem iterStruct_sends_per_function:
  "iterStruct ord (File (Ident 1 ''p'') [declS] []) = Inr [] \<and>
   iterStruct (\<lambda>k keys. keys) (File (Ident 1 ''p'') [declS, ast_FuncDecl funcM, ast_FuncDecl funcN] []) =
     Inr [NamedStruct (Ident 6 ''S'') None None (Some (FieldList 14 [])) [funcM],
          NamedStruct (Ident 6 ''S'') None None (Some (FieldList 14 [])) [funcM, funcN]]"
  by (simp add: iterStruct_def declS_def funcM_def funcN_def attachMethod_def appendMethod_def
      rangeMap_def List.map_filter_def)

text \<open>A receiver that is neither a star nor an identifier is skipped, not a panic.\<close>

lemma receiverType_other:
  "receiverType (ast_IndexExpr (ast_Ident (Ident 26 ''S'')) (ast_Ident (Ident 28 ''T''))) = Inr []"
  by simp

text \<open>The interface \<open>type I interface { M(a [N]int) }\<close>.\<close>

definition declI :: decl where
  "declI = ast_GenDecl None token_TYPE
     [TypeSpec (Ident 6 ''I'')
        (ast_InterfaceType 8 (Some (FieldList 18
           [Field None [Ident 20 ''M'']
              (ast_FuncType 0 (Some (FieldList 21
                 [Field None [Ident 22 ''a'']
                    (ast_ArrayType 24 (ast_Ident (Ident 25 ''N'')) (ast_Ident (Ident 27 ''int'')))
                    None])) None)
              None])))
        None]"

definition genericReceiver :: astFile where
  "genericReceiver = File (Ident 1 ''p'') [declS, ast_FuncDecl funcG] []"

definition arrayOfConstant :: astFile where
  "arrayOfConstant = File (Ident 1 ''p'') [declI] []"

lemma importsOfFile_no_imports: "importsOfFile ev (File nm decls []) = Inr (Map.empty, [])"
  by (simp add: importsOfFile_def)

text \<open>
  C9. The scanner and the resolver are not total over parsed files. The file that declares
  \<open>S\<close> and the method \<open>func (s *S[T]) G()\<close> makes \<open>iterStruct\<close> panic, in every order of
  the map, and so \<open>parseFile\<close>; the file that declares the interface \<open>I\<close> with the method
  \<open>M(a [N]int)\<close> makes \<open>parseFile\<close> panic in the translation of the array length. Neither
  is an error returned, and neither declaration is skipped.
\<close>

theorem scanner_panics_on_unchecked_assertions:
  "iterStruct ord genericReceiver = Inl Panic \<and>
   parseFile fuel ev ord (newFileParser dir) importPath genericReceiver = Some (Inl Panic) \<and>
   parseFile fuel ev ord (newFileParser dir) importPath arrayOfConstant = Some (Inl Panic)"
proof (intro conjI)
  show g: "iterStruct ord genericReceiver = Inl Panic"
    by (simp add: genericReceiver_def iterStruct_def declS_def funcG_def attachMethod_def)
  have ig: "iterInterfaces genericReceiver = []"
    by (simp add: iterInterfaces_def genericReceiver_def declS_def)
  have img: "importsOfFile ev genericReceiver = Inr (Map.empty, [])"
    by (simp add: genericReceiver_def importsOfFile_no_imports)
  show "parseFile fuel ev ord (newFileParser dir) importPath genericReceiver = Some (Inl Panic)"
    unfolding parseFile_def img ig g
    by (simp add: newFileParser_def)
  have ia: "iterInterfaces arrayOfConstant =
      [NamedInterface (Ident 6 ''I'') None None (Some (FieldList 18
           [Field None [Ident 20 ''M'']
              (ast_FuncType 0 (Some (FieldList 21
                 [Field None [Ident 22 ''a'']
                    (ast_ArrayType 24 (ast_Ident (Ident 25 ''N'')) (ast_Ident (Ident 27 ''int'')))
                    None])) None)
              None]))]"
    by (simp add: iterInterfaces_def arrayOfConstant_def declI_def)
  have ima: "importsOfFile ev arrayOfConstant = Inr (Map.empty, [])"
    by (simp add: arrayOfConstant_def importsOfFile_no_imports)
  show "parseFile fuel ev ord (newFileParser dir) importPath arrayOfConstant = Some (Inl Panic)"
    unfolding parseFile_def ima ia
    by (simp add: newFileParser_def set_imports_def isVariadic_def parseFieldList.simps
        countFields_def parseInterface.simps parseMethods.simps(2))
qed

text \<open>The file \<open>type S struct{}; type T struct{}; func (s *S) M(x int) int\<close>.\<close>

definition twoStructs :: astFile where
  "twoStructs = File (Ident 1 ''p'') [declS, declT, ast_FuncDecl funcM] []"

text \<open>
  C4, where the code departs from it. The file declares the structs \<open>S\<close> and \<open>T\<close> and the
  method \<open>M\<close> of \<open>S\<close>. Two runs of \<open>parseFile\<close> on new parsers that differ only in the
  order in which the range over \<^verbatim>\<open>structMap\<close> visits its two keys give the structs of
  the package in different orders.
\<close>

theorem parseFile_struct_order_depends_on_map_order:
  "parseFile fuel ev (\<lambda>k keys. keys) (newFileParser dir) importPath twoStructs =
     Some (Inr (Package ''p'' importPath []
       [Struct ''S'' [] [] [''M'' \<mapsto> Method ''M'' [] [] [] None []],
        Struct ''T'' [] [] Map.empty] [])) \<and>
   parseFile fuel ev (\<lambda>k keys. rev keys) (newFileParser dir) importPath twoStructs =
     Some (Inr (Package ''p'' importPath []
       [Struct ''T'' [] [] Map.empty,
        Struct ''S'' [] [] [''M'' \<mapsto> Method ''M'' [] [] [] None []]] []))"
proof (intro conjI)
  have s: "structsOfDecls (file_Decls twoStructs) [] =
      [(''S'', NamedStruct (Ident 6 ''S'') None None (Some (FieldList 14 [])) []),
       (''T'', NamedStruct (Ident 66 ''T'') None None (Some (FieldList 74 [])) [])]"
    by (simp add: twoStructs_def declS_def declT_def)
  have i1: "iterStruct (\<lambda>k keys. keys) twoStructs =
      Inr [NamedStruct (Ident 6 ''S'') None None (Some (FieldList 14 [])) [funcM],
           NamedStruct (Ident 66 ''T'') None None (Some (FieldList 74 [])) []]"
    unfolding iterStruct_def s
    by (simp add: twoStructs_def declS_def declT_def funcM_def attachMethod_def appendMethod_def
        rangeMap_def List.map_filter_def)
  have i2: "iterStruct (\<lambda>k keys. rev keys) twoStructs =
      Inr [NamedStruct (Ident 66 ''T'') None None (Some (FieldList 74 [])) [],
           NamedStruct (Ident 6 ''S'') None None (Some (FieldList 14 [])) [funcM]]"
    unfolding iterStruct_def s
    by (simp add: twoStructs_def declS_def declT_def funcM_def attachMethod_def appendMethod_def
        rangeMap_def List.map_filter_def)
  have ii: "iterInterfaces twoStructs = []"
    by (simp add: iterInterfaces_def twoStructs_def declS_def declT_def)
  have im: "importsOfFile ev twoStructs = Inr (Map.empty, [])"
    by (simp add: twoStructs_def importsOfFile_no_imports)
  have nm: "Name (file_Name twoStructs) = ''p''"
    by (simp add: twoStructs_def)
  have sm: "structMethod funcM = Method ''M'' [] [] [] None []"
    by (simp add: structMethod_def funcM_def docList_def)
  show "parseFile fuel ev (\<lambda>k keys. keys) (newFileParser dir) importPath twoStructs =
     Some (Inr (Package ''p'' importPath []
       [Struct ''S'' [] [] [''M'' \<mapsto> Method ''M'' [] [] [] None []],
        Struct ''T'' [] [] Map.empty] []))"
    unfolding parseFile_def im i1 ii
    by (simp add: nm sm newFileParser_def parseStruct_def docList_def commentText_def)
  show "parseFile fuel ev (\<lambda>k keys. rev keys) (newFileParser dir) importPath twoStructs =
     Some (Inr (Package ''p'' importPath []
       [Struct ''T'' [] [] Map.empty,
        Struct ''S'' [] [] [''M'' \<mapsto> Method ''M'' [] [] [] None []]] []))"
    unfolding parseFile_def im i2 ii
    by (simp add: nm sm newFileParser_def parseStruct_def docList_def commentText_def)
qed

text \<open>Both orders are orders of a map: they permute its keys.\<close>

lemma is_mapOrder_id_rev: "is_mapOrder (\<lambda>k keys. keys) \<and> is_mapOrder (\<lambda>k keys. rev keys)"
  by (simp add: is_mapOrder_def)

section \<open>The methods of a struct of the package\<close>

lemma fold_upd_lookup:
  "fold (\<lambda>fld m. m(key fld \<mapsto> val fld)) flds m0 k = Some v \<Longrightarrow>
     m0 k = Some v \<or> (\<exists>fld\<in>set flds. key fld = k \<and> v = val fld)"
proof (induction flds arbitrary: m0)
  case Nil
  then show ?case by simp
next
  case (Cons fld flds)
  from Cons.IH[of "m0(key fld \<mapsto> val fld)"] Cons.prems
  show ?case by (auto split: if_splits)
qed

lemma parseStruct_methods:
  "parseStruct p nm pkg it = Inr s \<Longrightarrow> struct_Methods s k = Some m \<Longrightarrow>
     \<exists>fld\<in>set (ns_methods it). m = structMethod fld \<and> method_Name m = k"
  using fold_upd_lookup[of "\<lambda>fld. method_Name (structMethod fld)" structMethod
      "ns_methods it" Map.empty k m]
  by (auto simp: parseStruct_def)

lemma parseStructs_member:
  "parseStructs p importPath nss = Inr ss \<Longrightarrow> s \<in> set ss \<Longrightarrow>
     \<exists>ni\<in>set nss. parseStruct p (Name (ns_name ni)) importPath ni = Inr s"
  by (induction nss arbitrary: ss) (auto split: sum.splits)

lemma parseFile_structs:
  "parseFile fuel ev ord p importPath file = Some (Inr pk) \<Longrightarrow>
     \<exists>p' nss. iterStruct ord file = Inr nss \<and>
        parseStructs p' importPath nss = Inr (pkg_StructNames pk)"
  by (auto simp: parseFile_def split: sum.splits option.splits prod.splits)

text \<open>
  C10. For every struct of the package that \<open>parseFile\<close> returns, every method of its
  mapping from names to methods is stored under its own name and has no input parameter,
  no output parameter, no variadic parameter and no comment: \<open>parseStruct\<close> takes the
  name and the doc of the method declaration and never looks at its signature.
\<close>

theorem struct_methods_have_no_signature:
  "parseFile fuel ev ord p importPath file = Some (Inr pk) \<Longrightarrow>
   s \<in> set (pkg_StructNames pk) \<Longrightarrow> struct_Methods s k = Some m \<Longrightarrow>
     method_Name m = k \<and> method_In m = [] \<and> method_Variadic m = None \<and>
     method_Out m = [] \<and> method_Comment m = []"
proof -
  assume pf: "parseFile fuel ev ord p importPath file = Some (Inr pk)"
    and s: "s \<in> set (pkg_StructNames pk)" and m: "struct_Methods s k = Some m"
  from parseFile_structs[OF pf] obtain p' nss where
    "parseStructs p' importPath nss = Inr (pkg_StructNames pk)" by blast
  from parseStructs_member[OF this s] obtain ni where
    "parseStruct p' (Name (ns_name ni)) importPath ni = Inr s" by blast
  from parseStruct_methods[OF this m] obtain fld where
    "m = structMethod fld" "method_Name m = k" by blast
  then show ?thesis by (simp add: structMethod_def)
qed

text \<open>The file with the struct \<open>S\<close> and its method \<open>func (s *S) M(x int) int\<close>.\<close>

definition oneStruct :: astFile where
  "oneStruct = File (Ident 1 ''p'') [declS, ast_FuncDecl funcM] []"

lemma parseFile_oneStruct:
  "parseFile fuel ev (\<lambda>k keys. keys) (newFileParser dir) importPath oneStruct =
     Some (Inr (Package ''p'' importPath []
       [Struct ''S'' [] [] [''M'' \<mapsto> Method ''M'' [] [] [] None []]] []))"
proof -
  have i1: "iterStruct (\<lambda>k keys. keys) oneStruct =
      Inr [NamedStruct (Ident 6 ''S'') None None (Some (FieldList 14 [])) [funcM]]"
    by (simp add: iterStruct_def oneStruct_def declS_def funcM_def attachMethod_def
        appendMethod_def rangeMap_def List.map_filter_def)
  have ii: "iterInterfaces oneStruct = []"
    by (simp add: iterInterfaces_def oneStruct_def declS_def)
  have im: "importsOfFile ev oneStruct = Inr (Map.empty, [])"
    by (simp add: oneStruct_def importsOfFile_no_imports)
  have nm: "Name (file_Name oneStruct) = ''p''"
    by (simp add: oneStruct_def)
  have sm: "structMethod funcM = Method ''M'' [] [] [] None []"
    by (simp add: structMethod_def funcM_def docList_def)
  show ?thesis
    unfolding parseFile_def im i1 ii
    by (simp add: nm sm newFileParser_def parseStruct_def docList_def commentText_def)
qed

theorem struct_methods_have_no_signature_witness:
  "parseFile 0 \<lparr>goList = (\<lambda>paths. []), parseDir = (\<lambda>pth dir. Inr [])\<rparr> (\<lambda>k keys. keys)
      (newFileParser []) ''example.com/p'' oneStruct =
     Some (Inr (Package ''p'' ''example.com/p'' []
       [Struct ''S'' [] [] [''M'' \<mapsto> Method ''M'' [] [] [] None []]] [])) \<and>
   fd_Type funcM \<noteq> ast_FuncType 17 None None \<and>
   method_In (Method ''M'' [] [] [] None []) = [] \<and>
   method_Out (Method ''M'' [] [] [] None []) = []"
  using struct_methods_have_no_signature[OF parseFile_oneStruct,
      where s = "Struct ''S'' [] [] [''M'' \<mapsto> Method ''M'' [] [] [] None []]"
        and k = "''M''" and m = "Method ''M'' [] [] [] None []"]
  by (simp add: parseFile_oneStruct funcM_def)

section \<open>The order of the methods of a resolved interface\<close>

text \<open>
  What one entry of a method list contributes: the methods, and the parser afterwards,
  that the loop of \<open>parseInterface\<close> yields on this entry alone.
\<close>

definition entryMethods :: "nat \<Rightarrow> env \<Rightarrow> fileParser \<Rightarrow> string \<Rightarrow> string \<Rightarrow> field \<Rightarrow>
    (model_Method list \<times> fileParser) result option" where
  "entryMethods fuel ev p nm pkg fld = parseMethods fuel ev p nm pkg [fld] []"

text \<open>
  The contributions of the entries of a method list, entry after entry in the order of
  declaration, each entry resolved with the parser that the entries before it left.
\<close>

fun methodsInOrder :: "nat \<Rightarrow> env \<Rightarrow> fileParser \<Rightarrow> string \<Rightarrow> string \<Rightarrow> field list \<Rightarrow>
    (model_Method list list \<times> fileParser) result option" where
  "methodsInOrder fuel ev p nm pkg [] = Some (Inr ([], p))"
| "methodsInOrder fuel ev p nm pkg (fld # flds) =
     (case entryMethods fuel ev p nm pkg fld of
        None \<Rightarrow> None
      | Some (Inl e) \<Rightarrow> Some (Inl e)
      | Some (Inr (ms, p1)) \<Rightarrow>
          (case methodsInOrder fuel ev p1 nm pkg flds of
             None \<Rightarrow> None
           | Some (Inl e) \<Rightarrow> Some (Inl e)
           | Some (Inr (mss, p2)) \<Rightarrow> Some (Inr (ms # mss, p2))))"

lemma parseMethods_Cons:
  "parseMethods fuel ev p nm pkg (fld # flds) acc =
     (case parseMethods fuel ev p nm pkg [fld] [] of
        None \<Rightarrow> None
      | Some (Inl e) \<Rightarrow> Some (Inl e)
      | Some (Inr (ms, p1)) \<Rightarrow> parseMethods fuel ev p1 nm pkg flds (acc @ ms))"
  by (simp add: parseMethods.simps(2)
      split: expr.splits list.splits sum.splits option.splits nat.splits prod.splits
        importedPackage.splits pkgError.splits)

lemma parseMethods_acc:
  "parseMethods fuel ev p nm pkg flds acc =
     (case parseMethods fuel ev p nm pkg flds [] of
        None \<Rightarrow> None
      | Some (Inl e) \<Rightarrow> Some (Inl e)
      | Some (Inr (ms, p')) \<Rightarrow> Some (Inr (acc @ ms, p')))"
proof (induction flds arbitrary: p acc)
  case Nil
  then show ?case by simp
next
  case (Cons fld flds)
  show ?case
  proof (cases "parseMethods fuel ev p nm pkg [fld] []")
    case None
    then show ?thesis
      by (simp add: parseMethods_Cons[of fuel ev p nm pkg fld flds])
  next
    case (Some r)
    show ?thesis
    proof (cases r)
      case (Inl e)
      with Some show ?thesis
        by (simp add: parseMethods_Cons[of fuel ev p nm pkg fld flds])
    next
      case (Inr msp)
      obtain ms p1 where msp: "msp = (ms, p1)" by (cases msp)
      have l: "parseMethods fuel ev p nm pkg (fld # flds) acc =
          parseMethods fuel ev p1 nm pkg flds (acc @ ms)"
        using Some Inr msp by (simp add: parseMethods_Cons[of fuel ev p nm pkg fld flds acc])
      have r: "parseMethods fuel ev p nm pkg (fld # flds) [] =
          parseMethods fuel ev p1 nm pkg flds ms"
        using Some Inr msp by (simp add: parseMethods_Cons[of fuel ev p nm pkg fld flds "[]"])
      have a: "parseMethods fuel ev p1 nm pkg flds (acc @ ms) =
          (case parseMethods fuel ev p1 nm pkg flds [] of
             None \<Rightarrow> None
           | Some (Inl e) \<Rightarrow> Some (Inl e)
           | Some (Inr (ms', p')) \<Rightarrow> Some (Inr ((acc @ ms) @ ms', p')))"
        by (rule Cons.IH)
      have b: "parseMethods fuel ev p1 nm pkg flds ms =
          (case parseMethods fuel ev p1 nm pkg flds [] of
             None \<Rightarrow> None
           | Some (Inl e) \<Rightarrow> Some (Inl e)
           | Some (Inr (ms', p')) \<Rightarrow> Some (Inr (ms @ ms', p')))"
        by (rule Cons.IH)
      show ?thesis
        unfolding l r a b by (simp split: option.splits sum.splits)
    qed
  qed
qed

lemma parseMethods_methodsInOrder:
  "parseMethods fuel ev p nm pkg flds [] =
     (case methodsInOrder fuel ev p nm pkg flds of
        None \<Rightarrow> None
      | Some (Inl e) \<Rightarrow> Some (Inl e)
      | Some (Inr (mss, p')) \<Rightarrow> Some (Inr (concat mss, p')))"
proof (induction flds arbitrary: p)
  case Nil
  then show ?case by simp
next
  case (Cons fld flds)
  show ?case
  proof (cases "parseMethods fuel ev p nm pkg [fld] []")
    case None
    then show ?thesis
      by (simp add: parseMethods_Cons[of fuel ev p nm pkg fld flds] entryMethods_def)
  next
    case (Some r)
    show ?thesis
    proof (cases r)
      case (Inl e)
      with Some show ?thesis
        by (simp add: parseMethods_Cons[of fuel ev p nm pkg fld flds] entryMethods_def)
    next
      case (Inr msp)
      obtain ms p1 where msp: "msp = (ms, p1)" by (cases msp)
      have l: "parseMethods fuel ev p nm pkg (fld # flds) [] =
          parseMethods fuel ev p1 nm pkg flds ms"
        using Some Inr msp by (simp add: parseMethods_Cons[of fuel ev p nm pkg fld flds "[]"])
      have e: "entryMethods fuel ev p nm pkg fld = Some (Inr (ms, p1))"
        using Some Inr msp by (simp add: entryMethods_def)
      have a: "parseMethods fuel ev p1 nm pkg flds ms =
          (case parseMethods fuel ev p1 nm pkg flds [] of
             None \<Rightarrow> None
           | Some (Inl e) \<Rightarrow> Some (Inl e)
           | Some (Inr (ms', p')) \<Rightarrow> Some (Inr (ms @ ms', p')))"
        by (rule parseMethods_acc)
      show ?thesis
        unfolding l methodsInOrder.simps e a Cons.IH[of p1]
        by (simp split: option.splits sum.splits)
    qed
  qed
qed

lemma parseInterface_methodsInOrder:
  "parseInterface fuel ev p nm pkg (NamedInterface n doc comment (Some (FieldList lbrace flds))) =
     (case methodsInOrder fuel ev p nm pkg flds of
        None \<Rightarrow> None
      | Some (Inl e) \<Rightarrow> Some (Inl e)
      | Some (Inr (mss, p')) \<Rightarrow>
          Some (Inr (Interface nm (docList doc) (commentText comment) (concat mss), p')))"
  unfolding parseInterface.simps[of fuel ev p nm pkg] parseMethods_methodsInOrder
  by (simp split: option.splits sum.splits)

lemma entryMethods_signature:
  "entryMethods fuel ev p nm pkg (Field d [m] (ast_FuncType func params results) c) =
     (case parseFunc p pkg func params results of
        Inl e \<Rightarrow> Some (Inl e)
      | Inr (ins, variadic, out) \<Rightarrow>
          Some (Inr ([Method (Name m) (docList d) (commentText c) ins variadic out], p)))"
  by (simp add: entryMethods_def parseMethods.simps(2) split: sum.splits)

lemma entryMethods_local:
  "(case fp_auxInterfaces p pkg (Name v) of
      Some ei \<Rightarrow> Some ei
    | None \<Rightarrow> fp_importedInterfaces p pkg (Name v)) = Some ei \<Longrightarrow>
   entryMethods (Suc fuel) ev p nm pkg (Field d names (ast_Ident v) c) =
     (case parseInterface fuel ev p (Name v) pkg ei of
        None \<Rightarrow> None
      | Some (Inl e) \<Rightarrow> Some (Inl e)
      | Some (Inr (eintf, p')) \<Rightarrow> Some (Inr (intf_Methods eintf, p')))"
  by (simp add: entryMethods_def parseMethods.simps(2) split: option.splits sum.splits)

lemma entryMethods_aux:
  "fp_imports p (Name x) = Some epkg \<Longrightarrow> fp_auxInterfaces p (Name x) (Name sel) = Some ei \<Longrightarrow>
   entryMethods (Suc fuel) ev p nm pkg (Field d names (ast_SelectorExpr (ast_Ident x) sel) c) =
     (case parseInterface fuel ev p (Name sel) (Name x) ei of
        None \<Rightarrow> None
      | Some (Inl e) \<Rightarrow> Some (Inl e)
      | Some (Inr (eintf, p')) \<Rightarrow> Some (Inr (intf_Methods eintf, p')))"
  by (simp add: entryMethods_def parseMethods.simps(2) split: option.splits sum.splits)

lemma entryMethods_package:
  "fp_imports p (Name x) = Some (importedPkg pth cached) \<Longrightarrow>
   fp_auxInterfaces p (Name x) (Name sel) = None \<Longrightarrow>
   (case cached of Some parser \<Rightarrow> Inr (Inr parser) | None \<Rightarrow> parsePackage ev p pth)
     = Inr (Inr parser) \<Longrightarrow>
   fp_importedInterfaces parser pth (Name sel) = Some ei \<Longrightarrow>
   entryMethods (Suc fuel) ev p nm pkg (Field d names (ast_SelectorExpr (ast_Ident x) sel) c) =
     (case parseInterface fuel ev parser (Name sel) pth ei of
        None \<Rightarrow> None
      | Some (Inl e) \<Rightarrow> Some (Inl e)
      | Some (Inr (eintf, parser')) \<Rightarrow>
          Some (Inr (intf_Methods eintf,
                     set_imports p ((fp_imports p)(Name x \<mapsto> importedPkg pth (Some parser'))))))"
  by (cases cached)
     (simp_all add: entryMethods_def parseMethods.simps(2) split: option.splits sum.splits)

text \<open>
  C1, as the code has it. The methods of a resolved interface are the concatenation of the
  contributions of the entries of its method list, entry after entry in the order of
  declaration (\<open>methodsInOrder\<close>), with nothing removed: an own signature contributes
  its one method; an embedded interface of the same package, of an auxiliary file of
  another package, or of another package contributes the methods of that interface as
  \<open>parseInterface\<close> resolves it. Own methods and embedded methods are interleaved as they
  are declared; the own methods do not come first.
\<close>

theorem parseInterface_methods_in_declaration_order:
  "parseInterface fuel ev p nm pkg (NamedInterface n doc comment (Some (FieldList lbrace flds))) =
     (case methodsInOrder fuel ev p nm pkg flds of
        None \<Rightarrow> None
      | Some (Inl e) \<Rightarrow> Some (Inl e)
      | Some (Inr (mss, p')) \<Rightarrow>
          Some (Inr (Interface nm (docList doc) (commentText comment) (concat mss), p'))) \<and>
   entryMethods fuel ev p nm pkg (Field d [m] (ast_FuncType func params results) c) =
     (case parseFunc p pkg func params results of
        Inl e \<Rightarrow> Some (Inl e)
      | Inr (ins, variadic, out) \<Rightarrow>
          Some (Inr ([Method (Name m) (docList d) (commentText c) ins variadic out], p))) \<and>
   ((case fp_auxInterfaces p pkg (Name v) of
       Some ei \<Rightarrow> Some ei
     | None \<Rightarrow> fp_importedInterfaces p pkg (Name v)) = Some ei \<longrightarrow>
    entryMethods (Suc fuel) ev p nm pkg (Field d names (ast_Ident v) c) =
      (case parseInterface fuel ev p (Name v) pkg ei of
         None \<Rightarrow> None
       | Some (Inl e) \<Rightarrow> Some (Inl e)
       | Some (Inr (eintf, p')) \<Rightarrow> Some (Inr (intf_Methods eintf, p')))) \<and>
   (fp_imports p (Name x) = Some epkg \<and> fp_auxInterfaces p (Name x) (Name sel) = Some ei \<longrightarrow>
    entryMethods (Suc fuel) ev p nm pkg (Field d names (ast_SelectorExpr (ast_Ident x) sel) c) =
      (case parseInterface fuel ev p (Name sel) (Name x) ei of
         None \<Rightarrow> None
       | Some (Inl e) \<Rightarrow> Some (Inl e)
       | Some (Inr (eintf, p')) \<Rightarrow> Some (Inr (intf_Methods eintf, p')))) \<and>
   (fp_imports p (Name x) = Some (importedPkg pth cached) \<and>
    fp_auxInterfaces p (Name x) (Name sel) = None \<and>
    (case cached of Some parser \<Rightarrow> Inr (Inr parser) | None \<Rightarrow> parsePackage ev p pth)
      = Inr (Inr parser) \<and>
    fp_importedInterfaces parser pth (Name sel) = Some ei \<longrightarrow>
    entryMethods (Suc fuel) ev p nm pkg (Field d names (ast_SelectorExpr (ast_Ident x) sel) c) =
      (case parseInterface fuel ev parser (Name sel) pth ei of
         None \<Rightarrow> None
       | Some (Inl e) \<Rightarrow> Some (Inl e)
       | Some (Inr (eintf, parser')) \<Rightarrow>
           Some (Inr (intf_Methods eintf,
                      set_imports p ((fp_imports p)(Name x \<mapsto> importedPkg pth (Some parser')))))))"
  using parseInterface_methodsInOrder[of fuel ev p nm pkg n doc comment lbrace flds]
    entryMethods_signature[of fuel ev p nm pkg d m func params results c]
    entryMethods_local[of p pkg v ei fuel ev nm d names c]
    entryMethods_aux[of p x epkg sel ei fuel ev nm pkg d names c]
    entryMethods_package[of p x pth cached sel ev parser ei fuel nm pkg d names c]
  by blast

text \<open>
  The interfaces \<open>type A interface { B; M(x int) int }\<close> and \<open>type B interface { N() }\<close>
  of one file, and the parser after \<^verbatim>\<open>addAuxInterfacesFromFile\<close> on that file.
\<close>

definition fieldN :: field where
  "fieldN = Field None [Ident 60 ''N''] (ast_FuncType 0 (Some (FieldList 61 [])) None) None"

definition fieldM :: field where
  "fieldM = Field None [Ident 30 ''M'']
     (ast_FuncType 0
        (Some (FieldList 31 [Field None [Ident 32 ''x''] (ast_Ident (Ident 34 ''int'')) None]))
        (Some (FieldList 0 [Field None [] (ast_Ident (Ident 39 ''int'')) None])))
     None"

definition embedB :: field where
  "embedB = Field None [] (ast_Ident (Ident 20 ''B'')) None"

definition interfaceA :: namedInterface where
  "interfaceA = NamedInterface (Ident 6 ''A'') None None (Some (FieldList 18 [embedB, fieldM]))"

definition interfaceB :: namedInterface where
  "interfaceB = NamedInterface (Ident 50 ''B'') None None (Some (FieldList 62 [fieldN]))"

definition fileAB :: astFile where
  "fileAB = File (Ident 1 ''p'')
     [ast_GenDecl None token_TYPE
        [TypeSpec (Ident 6 ''A'') (ast_InterfaceType 8 (Some (FieldList 18 [embedB, fieldM]))) None],
      ast_GenDecl None token_TYPE
        [TypeSpec (Ident 50 ''B'') (ast_InterfaceType 52 (Some (FieldList 62 [fieldN]))) None]]
     []"

definition parserAB :: fileParser where
  "parserAB = FileParser Map.empty (\<lambda>pkg. Map.empty) [] (\<lambda>pkg. Map.empty)
     ((\<lambda>pkg. Map.empty)(''example.com/p'' := [''A'' \<mapsto> interfaceA, ''B'' \<mapsto> interfaceB]))
     []"

definition noPackages :: env where
  "noPackages = \<lparr>goList = (\<lambda>paths. []), parseDir = (\<lambda>pth dir. Inl ''cannot find package'')\<rparr>"

definition methodN :: model_Method where
  "methodN = Method ''N'' [] [] [] None []"

definition methodM :: model_Method where
  "methodM = Method ''M'' [] [] [Some (Parameter ''x'' (model_PredeclaredType ''int''))] None
     [Some (Parameter [] (model_PredeclaredType ''int''))]"

lemma addAux_fileAB:
  "addAuxInterfacesFromFile ord (newFileParser []) ''example.com/p'' fileAB = Inr parserAB"
  by (simp add: addAuxInterfacesFromFile_def iterStruct_def fileAB_def iterInterfaces_def
      newFileParser_def parserAB_def addInterfaces_def addStructs_def interfaceA_def
      interfaceB_def fun_upd_twist)

lemma parseInterface_B:
  "parseInterface fuel ev parserAB ''B'' ''example.com/p'' interfaceB =
     Some (Inr (Interface ''B'' [] [] [methodN], parserAB))"
  by (simp add: parseInterface.simps parseMethods.simps(2) interfaceB_def fieldN_def methodN_def
      docList_def commentText_def isVariadic_def parseFieldList.simps countFields_def)

lemma parseInterface_A:
  "parseInterface (Suc fuel) ev parserAB ''A'' ''example.com/p'' interfaceA =
     Some (Inr (Interface ''A'' [] [] [methodN, methodM], parserAB))"
proof -
  have l: "fp_auxInterfaces parserAB ''example.com/p'' ''B'' = Some interfaceB"
    by (simp add: parserAB_def)
  have f: "parseFunc parserAB ''example.com/p'' 0
      (Some (FieldList 31 [Field None [Ident 32 ''x''] (ast_Ident (Ident 34 ''int'')) None]))
      (Some (FieldList 0 [Field None [] (ast_Ident (Ident 39 ''int'')) None])) =
     Inr ([Some (Parameter ''x'' (model_PredeclaredType ''int''))], None,
          [Some (Parameter [] (model_PredeclaredType ''int''))])"
    by (simp add: isVariadic_def parseFieldList.simps countFields_def IsExported_ascii)
  show ?thesis
    unfolding interfaceA_def parseInterface.simps[of "Suc fuel" ev parserAB "''A''"]
    by (simp add: parseMethods.simps(2) embedB_def fieldM_def l f parseInterface_B
        methodM_def docList_def commentText_def del: parseFunc.simps)
qed

text \<open>
  The formula of the specification, in its words: the own methods of the interface, then
  the methods of its embedded interfaces in the order of declaration.
\<close>

definition ownMethodsThenEmbedded ::
    "model_Method list \<Rightarrow> model_Method list list \<Rightarrow> model_Method list" where
  "ownMethodsThenEmbedded own embedded = own @ concat embedded"

text \<open>
  The interface \<open>A\<close> embeds \<open>B\<close> before it declares its own method \<open>M\<close>: the code gives
  the method \<open>N\<close> of \<open>B\<close> first, the formula gives \<open>M\<close> first.
\<close>

theorem embedded_before_own_counterexample:
  "parseInterface 1 noPackages parserAB ''A'' ''example.com/p'' interfaceA =
     Some (Inr (Interface ''A'' [] [] [methodN, methodM], parserAB)) \<and>
   parseInterface 0 noPackages parserAB ''B'' ''example.com/p'' interfaceB =
     Some (Inr (Interface ''B'' [] [] [methodN], parserAB)) \<and>
   [methodN, methodM] \<noteq> ownMethodsThenEmbedded [methodM] [[methodN]]"
  using parseInterface_A[of 0 noPackages] parseInterface_B[of 0 noPackages]
  by (simp add: ownMethodsThenEmbedded_def methodN_def methodM_def)

text \<open>
  The same interface \<open>B\<close> embedded as \<open>q.B\<close>: from an auxiliary file of the package \<open>q\<close>
  (\<open>parserAux\<close>), and from the package \<open>example.com/q\<close>, which is parsed at the first use
  and kept in the table afterwards (\<open>parserImports\<close>, in the environment \<open>packageQ\<close>).
\<close>

definition embedQB :: field where
  "embedQB = Field None [] (ast_SelectorExpr (ast_Ident (Ident 20 ''q'')) (Ident 22 ''B'')) None"

definition parserAux :: fileParser where
  "parserAux = FileParser [''q'' \<mapsto> importedPkg ''example.com/q'' None] (\<lambda>pkg. Map.empty) []
     (\<lambda>pkg. Map.empty) ((\<lambda>pkg. Map.empty)(''q'' := [''B'' \<mapsto> interfaceB])) []"

definition fileB :: astFile where
  "fileB = File (Ident 1 ''q'')
     [ast_GenDecl None token_TYPE
        [TypeSpec (Ident 50 ''B'') (ast_InterfaceType 52 (Some (FieldList 62 [fieldN]))) None]]
     []"

definition packageQ :: env where
  "packageQ = \<lparr>goList = (\<lambda>paths. []),
     parseDir = (\<lambda>pth dir. if pth = ''example.com/q'' then Inr [fileB]
                           else Inl ''cannot find package'')\<rparr>"

definition parserQ :: fileParser where
  "parserQ = FileParser Map.empty ((\<lambda>pkg. Map.empty)(''example.com/q'' := [''B'' \<mapsto> interfaceB]))
     [] (\<lambda>pkg. Map.empty) (\<lambda>pkg. Map.empty) []"

definition parserImports :: fileParser where
  "parserImports = FileParser [''q'' \<mapsto> importedPkg ''example.com/q'' None] (\<lambda>pkg. Map.empty) []
     (\<lambda>pkg. Map.empty) (\<lambda>pkg. Map.empty) []"

lemma parsePackage_packageQ:
  "parsePackage packageQ parserImports ''example.com/q'' = Inr (Inr parserQ)"
  by (simp add: parsePackage_def packageQ_def parserImports_def fileB_def importsOfFile_def
      newFileParser_def addInterfaces_def iterInterfaces_def parserQ_def interfaceB_def)

lemma parseInterface_interfaceB:
  "parseInterface fuel ev p ''B'' pkg interfaceB = Some (Inr (Interface ''B'' [] [] [methodN], p))"
  by (simp add: parseInterface.simps parseMethods.simps(2) interfaceB_def fieldN_def methodN_def
      docList_def commentText_def isVariadic_def parseFieldList.simps countFields_def)

theorem parseInterface_methods_in_declaration_order_witness:
  "(case fp_auxInterfaces parserAB ''example.com/p'' (Name (Ident 20 ''B'')) of
      Some ei \<Rightarrow> Some ei
    | None \<Rightarrow> fp_importedInterfaces parserAB ''example.com/p'' (Name (Ident 20 ''B'')))
     = Some interfaceB \<and>
   entryMethods 1 noPackages parserAB ''A'' ''example.com/p'' embedB =
     Some (Inr ([methodN], parserAB)) \<and>
   entryMethods 1 noPackages parserAB ''A'' ''example.com/p'' fieldM =
     Some (Inr ([methodM], parserAB)) \<and>
   parseInterface 1 noPackages parserAB ''A'' ''example.com/p'' interfaceA =
     Some (Inr (Interface ''A'' [] [] (concat [[methodN], [methodM]]), parserAB)) \<and>
   fp_imports parserAux (Name (Ident 20 ''q'')) = Some (importedPkg ''example.com/q'' None) \<and>
   fp_auxInterfaces parserAux (Name (Ident 20 ''q'')) (Name (Ident 22 ''B'')) = Some interfaceB \<and>
   entryMethods 1 noPackages parserAux ''A'' ''example.com/p'' embedQB =
     Some (Inr ([methodN], parserAux)) \<and>
   fp_imports parserImports (Name (Ident 20 ''q'')) = Some (importedPkg ''example.com/q'' None) \<and>
   fp_auxInterfaces parserImports (Name (Ident 20 ''q'')) (Name (Ident 22 ''B'')) = None \<and>
   parsePackage packageQ parserImports ''example.com/q'' = Inr (Inr parserQ) \<and>
   fp_importedInterfaces parserQ ''example.com/q'' (Name (Ident 22 ''B'')) = Some interfaceB \<and>
   entryMethods 1 packageQ parserImports ''A'' ''example.com/p'' embedQB =
     Some (Inr ([methodN],
       set_imports parserImports
         ((fp_imports parserImports)(''q'' \<mapsto> importedPkg ''example.com/q'' (Some parserQ)))))"
proof -
  have l: "(case fp_auxInterfaces parserAB ''example.com/p'' (Name (Ident 20 ''B'')) of
      Some ei \<Rightarrow> Some ei
    | None \<Rightarrow> fp_importedInterfaces parserAB ''example.com/p'' (Name (Ident 20 ''B'')))
     = Some interfaceB"
    by (simp add: parserAB_def)
  have f: "parseFunc parserAB ''example.com/p'' 0
      (Some (FieldList 31 [Field None [Ident 32 ''x''] (ast_Ident (Ident 34 ''int'')) None]))
      (Some (FieldList 0 [Field None [] (ast_Ident (Ident 39 ''int'')) None])) =
     Inr ([Some (Parameter ''x'' (model_PredeclaredType ''int''))], None,
          [Some (Parameter [] (model_PredeclaredType ''int''))])"
    by (simp add: isVariadic_def parseFieldList.simps countFields_def IsExported_ascii)
  note embed = parseInterface_methods_in_declaration_order[where fuel = 0 and ev = noPackages
      and p = parserAB and nm = "''A''" and pkg = "''example.com/p''" and v = "Ident 20 ''B''"
      and ei = interfaceB and d = None and names = "[]" and c = None]
  note own = parseInterface_methods_in_declaration_order[where fuel = "Suc 0"
      and ev = noPackages and p = parserAB and nm = "''A''" and pkg = "''example.com/p''"
      and n = "Ident 6 ''A''" and doc = None and comment = None and lbrace = 18
      and flds = "[embedB, fieldM]" and d = None and m = "Ident 30 ''M''" and func = 0
      and params = "Some (FieldList 31
          [Field None [Ident 32 ''x''] (ast_Ident (Ident 34 ''int'')) None])"
      and results = "Some (FieldList 0 [Field None [] (ast_Ident (Ident 39 ''int'')) None])"
      and c = None]
  note aux = parseInterface_methods_in_declaration_order[where fuel = 0 and ev = noPackages
      and p = parserAux and nm = "''A''" and pkg = "''example.com/p''" and x = "Ident 20 ''q''"
      and sel = "Ident 22 ''B''" and epkg = "importedPkg ''example.com/q'' None"
      and ei = interfaceB and d = None and names = "[]" and c = None]
  note imp = parseInterface_methods_in_declaration_order[where fuel = 0 and ev = packageQ
      and p = parserImports and nm = "''A''" and pkg = "''example.com/p''"
      and x = "Ident 20 ''q''" and sel = "Ident 22 ''B''" and pth = "''example.com/q''"
      and cached = None and parser = parserQ
      and ei = interfaceB and d = None and names = "[]" and c = None]
  from embed[THEN conjunct2, THEN conjunct2, THEN conjunct1] l
  have e: "entryMethods (Suc 0) noPackages parserAB ''A'' ''example.com/p'' embedB =
      Some (Inr ([methodN], parserAB))"
    by (simp add: embedB_def parseInterface_B)
  from own[THEN conjunct2, THEN conjunct1]
  have m: "entryMethods (Suc 0) noPackages parserAB ''A'' ''example.com/p'' fieldM =
      Some (Inr ([methodM], parserAB))"
    by (simp add: fieldM_def f methodM_def docList_def commentText_def del: parseFunc.simps)
  from own[THEN conjunct1]
  have a: "parseInterface (Suc 0) noPackages parserAB ''A'' ''example.com/p'' interfaceA =
     Some (Inr (Interface ''A'' [] [] (concat [[methodN], [methodM]]), parserAB))"
    by (simp add: interfaceA_def e m docList_def commentText_def del: parseFunc.simps)
  have a1: "fp_imports parserAux (Name (Ident 20 ''q'')) =
      Some (importedPkg ''example.com/q'' None)"
    and a2: "fp_auxInterfaces parserAux (Name (Ident 20 ''q'')) (Name (Ident 22 ''B'')) =
      Some interfaceB"
    by (simp_all add: parserAux_def)
  have i1: "fp_imports parserImports (Name (Ident 20 ''q'')) =
      Some (importedPkg ''example.com/q'' None)"
    and i2: "fp_auxInterfaces parserImports (Name (Ident 20 ''q'')) (Name (Ident 22 ''B'')) = None"
    by (simp_all add: parserImports_def)
  have i3: "fp_importedInterfaces parserQ ''example.com/q'' (Name (Ident 22 ''B'')) =
      Some interfaceB"
    by (simp add: parserQ_def)
  from aux[THEN conjunct2, THEN conjunct2, THEN conjunct2, THEN conjunct1] a1 a2
  have x: "entryMethods (Suc 0) noPackages parserAux ''A'' ''example.com/p'' embedQB =
     Some (Inr ([methodN], parserAux))"
    by (simp add: embedQB_def parseInterface_interfaceB)
  from imp[THEN conjunct2, THEN conjunct2, THEN conjunct2, THEN conjunct2] i1 i2 i3
    parsePackage_packageQ
  have i: "entryMethods (Suc 0) packageQ parserImports ''A'' ''example.com/p'' embedQB =
     Some (Inr ([methodN],
       set_imports parserImports
         ((fp_imports parserImports)(''q'' \<mapsto> importedPkg ''example.com/q'' (Some parserQ)))))"
    by (simp add: embedQB_def parseInterface_interfaceB)
  from l e m a a1 a2 x i1 i2 i3 i parsePackage_packageQ show ?thesis by simp
qed

section \<open>The outcome with another import in the place of a duplicate\<close>

text \<open>
  The parser with another import entered under the name \<open>n\<close>: what the table of
  \<^verbatim>\<open>p.imports\<close> would hold without the ambiguity.
\<close>

definition replaceImport :: "string \<Rightarrow> importedPackage \<Rightarrow> fileParser \<Rightarrow> fileParser" where
  "replaceImport n x p = set_imports p ((fp_imports p)(n \<mapsto> x))"

lemma replaceImport_sel [simp]:
  "fp_imports (replaceImport n x p) = (fp_imports p)(n \<mapsto> x)"
  "fp_importedInterfaces (replaceImport n x p) = fp_importedInterfaces p"
  "fp_auxFiles (replaceImport n x p) = fp_auxFiles p"
  "fp_auxStruct (replaceImport n x p) = fp_auxStruct p"
  "fp_auxInterfaces (replaceImport n x p) = fp_auxInterfaces p"
  "fp_srcDir (replaceImport n x p) = fp_srcDir p"
  by (simp_all add: replaceImport_def set_imports_def)

lemma wrap_Fatal: "wrap f e = Fatal m \<longleftrightarrow> e = Fatal m"
  by (cases e) auto

lemma translation_ignores_unused_duplicate:
  fixes p :: fileParser and n nm :: string and ds :: "string list" and x :: importedPackage
  defines "F \<equiv> Fatal (duplicateImport_Error nm ds)"
  shows "fp_imports p n = Some (duplicateImport nm ds) \<Longrightarrow>
           parseType p pkg texpr \<noteq> Inl F \<Longrightarrow>
           parseType (replaceImport n x p) pkg texpr = parseType p pkg texpr"
    and "fp_imports p n = Some (duplicateImport nm ds) \<Longrightarrow>
           parseTypes p pkg es \<noteq> Inl F \<Longrightarrow>
           parseTypes (replaceImport n x p) pkg es = parseTypes p pkg es"
    and "fp_imports p n = Some (duplicateImport nm ds) \<Longrightarrow>
           parseFunc p pkg func params results \<noteq> Inl F \<Longrightarrow>
           parseFunc (replaceImport n x p) pkg func params results
             = parseFunc p pkg func params results"
    and "fp_imports p n = Some (duplicateImport nm ds) \<Longrightarrow>
           parseFunc_params p pkg fpos params2 \<noteq> Inl F \<Longrightarrow>
           parseFunc_params (replaceImport n x p) pkg fpos params2
             = parseFunc_params p pkg fpos params2"
    and "fp_imports p n = Some (duplicateImport nm ds) \<Longrightarrow>
           parseFunc_results p pkg fpos2 results2 \<noteq> Inl F \<Longrightarrow>
           parseFunc_results (replaceImport n x p) pkg fpos2 results2
             = parseFunc_results p pkg fpos2 results2"
    and "fp_imports p n = Some (duplicateImport nm ds) \<Longrightarrow>
           parseFieldList p pkg flds \<noteq> Inl F \<Longrightarrow>
           parseFieldList (replaceImport n x p) pkg flds = parseFieldList p pkg flds"
    and "fp_imports p n = Some (duplicateImport nm ds) \<Longrightarrow>
           fillFields p pkg flds2 ps i \<noteq> Inl F \<Longrightarrow>
           fillFields (replaceImport n x p) pkg flds2 ps i = fillFields p pkg flds2 ps i"
proof (induction p pkg texpr and p pkg es and p pkg func params results and p pkg fpos params2 and p pkg fpos2 results2 and p pkg flds and p pkg flds2 ps i
    rule: parseType_parseTypes_parseFunc_parseFunc_params_parseFunc_results_parseFieldList_fillFields.induct)
  case (1 p pkg x0 index)
  then show ?case
    by (auto split: sum.splits prod.splits simp: wrap_Fatal F_def)
next
  case (2 p pkg x0 indices)
  then show ?case
    by (auto split: sum.splits prod.splits simp: wrap_Fatal F_def)
next
  case (3 p pkg lbrack len elt)
  then show ?case
    by (auto split: sum.splits prod.splits simp: wrap_Fatal F_def)
next
  case (4 p pkg bgn dir val)
  then show ?case
    by (auto split: sum.splits prod.splits simp: wrap_Fatal F_def)
next
  case (5 p pkg ps elt)
  then show ?case
    by (auto split: sum.splits prod.splits simp: wrap_Fatal F_def)
next
  case (6 p pkg func params results)
  then show ?case
    by (auto split: sum.splits prod.splits simp: wrap_Fatal F_def)
next
  case (7 p pkg v)
  then show ?case
    by (auto simp: F_def split: option.splits sum.splits importedPackage.splits)
next
  case (8 p pkg interface methods)
  then show ?case
    by (auto split: sum.splits prod.splits simp: wrap_Fatal F_def)
next
  case (9 p pkg mp key val)
  then show ?case
    by (auto split: sum.splits prod.splits simp: wrap_Fatal F_def)
next
  case (10 p pkg x0 sel)
  then show ?case
    by (auto simp: F_def split: option.splits sum.splits importedPackage.splits expr.splits)
next
  case (11 p pkg star x0)
  then show ?case
    by (auto split: sum.splits prod.splits simp: wrap_Fatal F_def)
next
  case (12 p pkg strct flds)
  then show ?case
    by (auto split: sum.splits prod.splits simp: wrap_Fatal F_def)
next
  case (13 p pkg lparen x0)
  then show ?case
    by (auto split: sum.splits prod.splits simp: wrap_Fatal F_def)
next
  case (15 p pkg)
  then show ?case
    by (auto split: sum.splits prod.splits simp: wrap_Fatal F_def)
next
  case (16 p pkg v vs)
  then show ?case
    by (auto split: sum.splits prod.splits simp: wrap_Fatal F_def)
next
  case (17 p pkg func params results)
  then show ?case
    by (auto split: sum.splits prod.splits simp: wrap_Fatal F_def)
next
  case (18 p pkg fpos)
  then show ?case
    by (auto split: sum.splits prod.splits simp: wrap_Fatal F_def)
next
  case (19 p pkg fpos fl)
  then show ?case
    by (auto split: sum.splits prod.splits list.splits if_splits simp: wrap_Fatal F_def)
next
  case (20 p pkg fpos)
  then show ?case
    by (auto split: sum.splits prod.splits simp: wrap_Fatal F_def)
next
  case (21 p pkg fpos rl)
  then show ?case
    by (auto split: sum.splits prod.splits simp: wrap_Fatal F_def)
next
  case (22 p pkg flds)
  then show ?case
    by (auto simp: parseFieldList.simps)
next
  case (23 p pkg ps i)
  then show ?case
    by (auto split: sum.splits prod.splits simp: wrap_Fatal F_def)
next
  case (24 p pkg f fs ps i)
  then show ?case
    by (auto split: sum.splits prod.splits if_splits simp: F_def)
qed simp_all

text \<open>An outcome of the resolution, with the parser that it returns changed by \<open>f\<close>.\<close>

definition afterReplace :: "(fileParser \<Rightarrow> fileParser) \<Rightarrow> ('a \<times> fileParser) result option \<Rightarrow>
    ('a \<times> fileParser) result option" where
  "afterReplace f r =
     (case r of
        None \<Rightarrow> None
      | Some (Inl e) \<Rightarrow> Some (Inl e)
      | Some (Inr (v, q)) \<Rightarrow> Some (Inr (v, f q)))"

lemma afterReplace_simps [simp]:
  "afterReplace f None = None"
  "afterReplace f (Some (Inl e)) = Some (Inl e)"
  "afterReplace f (Some (Inr (v, q))) = Some (Inr (v, f q))"
  by (simp_all add: afterReplace_def)

lemma parsePackage_replaceImport [simp]:
  "parsePackage ev (replaceImport n x p) pth = parsePackage ev p pth"
  by (simp add: parsePackage_def split: sum.splits)

lemma replaceImport_set_imports:
  "k \<noteq> n \<Longrightarrow>
     set_imports (replaceImport n x p) (((fp_imports p)(n \<mapsto> x))(k \<mapsto> v)) =
     replaceImport n x (set_imports p ((fp_imports p)(k \<mapsto> v)))"
  by (simp add: replaceImport_def set_imports_def fun_upd_twist)

lemma lookup_replaceImport [simp]:
  "(case fp_auxInterfaces p pkg k of
      None \<Rightarrow> fp_importedInterfaces (replaceImport n x p) pkg k
    | Some ei \<Rightarrow> Some ei) =
   (case fp_auxInterfaces p pkg k of
      None \<Rightarrow> fp_importedInterfaces p pkg k
    | Some ei \<Rightarrow> Some ei)"
  by (simp split: option.splits)

lemma resolve_replaceImport [simp]:
  "(case cached of
      None \<Rightarrow>
        (case parsePackage ev (replaceImport n x p) pth of
           Inl e \<Rightarrow> Inl e
         | Inr (Inl (PkgError err)) \<Rightarrow> Inl (Error (CouldNotParsePackage ps pth err))
         | Inr (Inr ip) \<Rightarrow> Inr ip)
    | Some parser \<Rightarrow> Inr parser) =
   (case cached of
      None \<Rightarrow>
        (case parsePackage ev p pth of
           Inl e \<Rightarrow> Inl e
         | Inr (Inl (PkgError err)) \<Rightarrow> Inl (Error (CouldNotParsePackage ps pth err))
         | Inr (Inr ip) \<Rightarrow> Inr ip)
    | Some parser \<Rightarrow> Inr parser)"
  by (simp split: option.splits)

lemma fp_imports_set_imports [simp]: "fp_imports (set_imports p m) = m"
  by (simp add: set_imports_def)

lemma resolution_ignores_unused_duplicate:
  fixes n nm :: string and ds :: "string list" and x :: importedPackage
  defines "F \<equiv> Fatal (duplicateImport_Error nm ds)"
  shows "fp_imports p n = Some (duplicateImport nm ds) \<Longrightarrow>
           parseInterface fuel ev p iname pkg it \<noteq> Some (Inl F) \<Longrightarrow>
           parseInterface fuel ev (replaceImport n x p) iname pkg it
             = afterReplace (replaceImport n x) (parseInterface fuel ev p iname pkg it) \<and>
           (\<forall>v p'. parseInterface fuel ev p iname pkg it = Some (Inr (v, p')) \<longrightarrow>
              fp_imports p' n = Some (duplicateImport nm ds))"
    and "fp_imports p n = Some (duplicateImport nm ds) \<Longrightarrow>
           parseMethods fuel ev p iname pkg flds acc \<noteq> Some (Inl F) \<Longrightarrow>
           parseMethods fuel ev (replaceImport n x p) iname pkg flds acc
             = afterReplace (replaceImport n x) (parseMethods fuel ev p iname pkg flds acc) \<and>
           (\<forall>v p'. parseMethods fuel ev p iname pkg flds acc = Some (Inr (v, p')) \<longrightarrow>
              fp_imports p' n = Some (duplicateImport nm ds))"
proof (induction fuel ev p iname pkg it and fuel ev p iname pkg flds acc
    rule: parseInterface_parseMethods.induct)
  case (1 fuel ev p iname pkg it)
  show ?case
  proof (cases "ni_it it")
    case None
    then show ?thesis by (simp add: parseInterface.simps)
  next
    case (Some fl)
    from "1.prems"(2) Some have "parseMethods fuel ev p iname pkg (fl_List fl) [] \<noteq> Some (Inl F)"
      by (auto simp: parseInterface.simps)
    from "1.IH"[OF Some "1.prems"(1) this] Some show ?thesis
      by (auto simp: parseInterface.simps split: option.splits sum.splits)
  qed
next
  case (2 fuel ev p iname pkg acc)
  then show ?case by simp
next
  case (3 fuel ev p iname pkg fld flds acc)
  note dup = "3.prems"(1)
  note notF = "3.prems"(2)
  show ?case
  proof (cases "field_Type fld")
    case (ast_FuncType func params results)
    show ?thesis
    proof (cases "field_Names fld")
      case Nil
      with ast_FuncType show ?thesis by (simp add: parseMethods.simps(2))
    next
      case (Cons m ms)
      show ?thesis
      proof (cases ms)
        case (Cons m2 ms2)
        with \<open>field_Names fld = m # ms\<close> ast_FuncType show ?thesis
          by (simp add: parseMethods.simps(2))
      next
        case Nil
        note names = \<open>field_Names fld = m # ms\<close>
        show ?thesis
        proof (cases "parseFunc p pkg func params results")
          case (Inl e)
          with notF ast_FuncType names Nil have "e \<noteq> F"
            by (auto simp: parseMethods.simps(2))
          with Inl have "parseFunc p pkg func params results \<noteq> Inl F" by simp
          from translation_ignores_unused_duplicate(3)[OF dup this[unfolded F_def], of x] Inl
            ast_FuncType names Nil
          show ?thesis by (simp add: parseMethods.simps(2) del: parseFunc.simps)
        next
          case (Inr r)
          obtain ins variadic out where r: "r = (ins, variadic, out)" by (cases r) auto
          from Inr have "parseFunc p pkg func params results \<noteq> Inl F" by simp
          note pf = translation_ignores_unused_duplicate(3)[OF dup this[unfolded F_def], of x]
          from notF ast_FuncType names Nil Inr r
          have "parseMethods fuel ev p iname pkg flds
              (acc @ [Method (Name m) (docList (field_Doc fld))
                 (commentText (field_Comment fld)) ins variadic out]) \<noteq> Some (Inl F)"
            by (simp add: parseMethods.simps(2) del: parseFunc.simps)
          from "3.IH"(7)[OF ast_FuncType names Nil Inr r[symmetric] refl dup this]
            pf Inr r ast_FuncType names Nil
          show ?thesis by (simp add: parseMethods.simps(2) del: parseFunc.simps)
        qed
      qed
    qed
  next
    case (ast_Ident v)
    show ?thesis
    proof (cases "case fp_auxInterfaces p pkg (Name v) of
                    None \<Rightarrow> fp_importedInterfaces p pkg (Name v) | Some ei \<Rightarrow> Some ei")
      case None
      with ast_Ident show ?thesis by (simp add: parseMethods.simps(2))
    next
      case (Some ei)
      note look = Some
      show ?thesis
      proof (cases fuel)
        case 0
        with ast_Ident look show ?thesis by (simp add: parseMethods.simps(2))
      next
        case (Suc fuel')
        note fuel = Suc
        from notF ast_Ident look fuel
        have e: "parseInterface fuel' ev p (Name v) pkg ei \<noteq> Some (Inl F)"
          by (auto simp: parseMethods.simps(2))
        note ih = "3.IH"(1)[OF ast_Ident look fuel dup e]
        show ?thesis
        proof (cases "parseInterface fuel' ev p (Name v) pkg ei")
          case None
          with ih ast_Ident look fuel show ?thesis by (simp add: parseMethods.simps(2))
        next
          case (Some r)
          note res = Some
          show ?thesis
          proof (cases r)
            case (Inl e)
            with ih res ast_Ident look fuel show ?thesis by (simp add: parseMethods.simps(2))
          next
            case (Inr b)
            obtain eintf p1 where b: "b = (eintf, p1)" by (cases b)
            from ih res Inr b have dup1: "fp_imports p1 n = Some (duplicateImport nm ds)"
              and run2: "parseInterface fuel' ev (replaceImport n x p) (Name v) pkg ei =
                  Some (Inr (eintf, replaceImport n x p1))"
              by simp_all
            from notF ast_Ident look fuel res Inr b
            have "parseMethods fuel ev p1 iname pkg flds (acc @ intf_Methods eintf) \<noteq> Some (Inl F)"
              by (simp add: parseMethods.simps(2))
            from "3.IH"(2)[OF ast_Ident look fuel res Inr b[symmetric] dup1 this]
              run2 res Inr b ast_Ident look fuel
            show ?thesis by (simp add: parseMethods.simps(2))
          qed
        qed
      qed
    qed
  next
    case (ast_SelectorExpr x0 sel)
    note ft = ast_SelectorExpr
    show ?thesis
    proof (cases x0)
      case (ast_Ident fpkg)
      note x0 = ast_Ident
      show ?thesis
      proof (cases "fp_imports p (Name fpkg)")
        case None
        with dup have "Name fpkg \<noteq> n" by auto
        with None ft x0 show ?thesis by (simp add: parseMethods.simps(2))
      next
        case (Some epkg)
        note imp = Some
        show ?thesis
        proof (cases "fp_auxInterfaces p (Name fpkg) (Name sel)")
          case (Some ei)
          note aux = Some
          obtain epkg2 where imp2: "fp_imports (replaceImport n x p) (Name fpkg) = Some epkg2"
            using imp by (cases "Name fpkg = n") auto
          show ?thesis
          proof (cases fuel)
            case 0
            with ft x0 imp aux show ?thesis by (simp add: parseMethods.simps(2) imp2 del: replaceImport_sel(1))
          next
            case (Suc fuel')
            note fuel = Suc
            from notF ft x0 imp aux fuel
            have e: "parseInterface fuel' ev p (Name sel) (Name fpkg) ei \<noteq> Some (Inl F)"
              by (auto simp: parseMethods.simps(2))
            note ih = "3.IH"(5)[OF ft x0 imp aux fuel dup e]
            show ?thesis
            proof (cases "parseInterface fuel' ev p (Name sel) (Name fpkg) ei")
              case None
              with ih ft x0 imp aux fuel show ?thesis by (simp add: parseMethods.simps(2) imp2 del: replaceImport_sel(1))
            next
              case (Some r)
              note res = Some
              show ?thesis
              proof (cases r)
                case (Inl e)
                with ih res ft x0 imp aux fuel show ?thesis
                  by (simp add: parseMethods.simps(2) imp2 del: replaceImport_sel(1))
              next
                case (Inr b)
                obtain eintf p1 where b: "b = (eintf, p1)" by (cases b)
                from ih res Inr b have dup1: "fp_imports p1 n = Some (duplicateImport nm ds)"
                  and run2: "parseInterface fuel' ev (replaceImport n x p) (Name sel) (Name fpkg) ei =
                      Some (Inr (eintf, replaceImport n x p1))"
                  by simp_all
                from notF ft x0 imp aux fuel res Inr b
                have "parseMethods fuel ev p1 iname pkg flds (acc @ intf_Methods eintf)
                    \<noteq> Some (Inl F)"
                  by (simp add: parseMethods.simps(2) imp2 del: replaceImport_sel(1))
                from "3.IH"(6)[OF ft x0 imp aux fuel res Inr b[symmetric] dup1 this]
                  run2 res Inr b ft x0 imp aux fuel
                show ?thesis by (simp add: parseMethods.simps(2) imp2 del: replaceImport_sel(1))
              qed
            qed
          qed
        next
          case None
          note aux = None
          have ne: "Name fpkg \<noteq> n"
          proof
            assume "Name fpkg = n"
            with imp dup have "epkg = duplicateImport nm ds" by simp
            with ft x0 imp aux have
              "parseMethods fuel ev p iname pkg (fld # flds) acc = Some (Inl F)"
              by (simp add: parseMethods.simps(2) F_def)
            with notF show False by simp
          qed
          show ?thesis
          proof (cases "Path epkg")
            case (Inl e)
            with ft x0 imp aux ne show ?thesis by (simp add: parseMethods.simps(2))
          next
            case (Inr pth)
            note path = Inr
            show ?thesis
            proof (cases "Parser epkg")
              case (Inl e)
              with ft x0 imp aux ne path show ?thesis by (simp add: parseMethods.simps(2))
            next
              case (Inr cached)
              note cached = Inr
              show ?thesis
              proof (cases "case cached of
                  None \<Rightarrow>
                    (case parsePackage ev p pth of
                       Inl e \<Rightarrow> Inl e
                     | Inr (Inl (PkgError err)) \<Rightarrow>
                         Inl (Error (CouldNotParsePackage (NamePos fpkg) pth err))
                     | Inr (Inr ip) \<Rightarrow> Inr ip)
                | Some parser \<Rightarrow> Inr parser")
                case (Inl e)
                with ft x0 imp aux ne path cached show ?thesis
                  by (simp add: parseMethods.simps(2))
              next
                case (Inr parser)
                note parser = Inr
                show ?thesis
                proof (cases "fp_importedInterfaces parser pth (Name sel)")
                  case None
                  with ft x0 imp aux ne path cached parser show ?thesis
                    by (simp add: parseMethods.simps(2))
                next
                  case (Some ei)
                  note look = Some
                  show ?thesis
                  proof (cases fuel)
                    case 0
                    with ft x0 imp aux ne path cached parser look show ?thesis
                      by (simp add: parseMethods.simps(2))
                  next
                    case (Suc fuel')
                    note fuel = Suc
                    show ?thesis
                    proof (cases "parseInterface fuel' ev parser (Name sel) pth ei")
                      case None
                      with ft x0 imp aux ne path cached parser look fuel show ?thesis
                        by (simp add: parseMethods.simps(2))
                    next
                      case (Some r)
                      note res = Some
                      show ?thesis
                      proof (cases r)
                        case (Inl e)
                        with ft x0 imp aux ne path cached parser look fuel res show ?thesis
                          by (simp add: parseMethods.simps(2))
                      next
                        case (Inr b)
                        obtain eintf parser2 where b: "b = (eintf, parser2)" by (cases b)
                        let ?q = "set_imports p
                          ((fp_imports p)(Name fpkg \<mapsto> importedPkg pth (Some parser2)))"
                        from ne dup have dupq: "fp_imports ?q n = Some (duplicateImport nm ds)"
                          by simp
                        from notF ft x0 imp aux path cached parser look fuel res Inr b
                        have notFq: "parseMethods fuel ev ?q iname pkg flds
                            (acc @ intf_Methods eintf) \<noteq> Some (Inl F)"
                          by (simp add: parseMethods.simps(2))
                        note ih = "3.IH"(4)[OF ft x0 imp aux path cached parser look fuel res
                            Inr b[symmetric] dupq notFq]
                        from ih ft x0 imp aux ne path cached parser look fuel res Inr b
                        show ?thesis
                          by (simp add: parseMethods.simps(2) replaceImport_set_imports[OF ne])
                      qed
                    qed
                  qed
                qed
              qed
            qed
          qed
        qed
      qed
    qed (simp_all add: parseMethods.simps(2) ft)
  qed (simp_all add: parseMethods.simps(2))
qed

section \<open>An interface that does not dereference a name of the import table\<close>

text \<open>
  The places where the translation of a type, under the package name \<open>pkg\<close>, reads the entry
  \<open>n\<close> of \<^verbatim>\<open>p.imports\<close> and calls \<^verbatim>\<open>Path()\<close> on it: a name qualified by \<open>n\<close>, and an
  exported identifier when \<open>pkg\<close> itself is \<open>n\<close> (\<^verbatim>\<open>p.imports[pkg]\<close> in the identifier
  case of \<open>parseType\<close>). The length of an array is not translated.
\<close>

fun readsImport :: "string \<Rightarrow> string \<Rightarrow> expr \<Rightarrow> bool"
  and readsImport_field :: "string \<Rightarrow> string \<Rightarrow> field \<Rightarrow> bool"
  and readsImport_fieldList :: "string \<Rightarrow> string \<Rightarrow> fieldList \<Rightarrow> bool"
where
  "readsImport n pkg (ast_Ident v) = (IsExported v \<and> pkg = n)"
| "readsImport n pkg (ast_SelectorExpr x sel) =
     (case x of ast_Ident xi \<Rightarrow> Name xi = n | _ \<Rightarrow> False)"
| "readsImport n pkg (ast_IndexExpr x index) = (readsImport n pkg x \<or> readsImport n pkg index)"
| "readsImport n pkg (ast_IndexListExpr x indices) =
     (readsImport n pkg x \<or> (\<exists>index\<in>set indices. readsImport n pkg index))"
| "readsImport n pkg (ast_ArrayType lbrack len elt) = readsImport n pkg elt"
| "readsImport n pkg (ast_ChanType bgn dir val) = readsImport n pkg val"
| "readsImport n pkg (ast_Ellipsis ps elt) = readsImport n pkg elt"
| "readsImport n pkg (ast_FuncType func params results) =
     ((case params of None \<Rightarrow> False | Some fl \<Rightarrow> readsImport_fieldList n pkg fl) \<or>
      (case results of None \<Rightarrow> False | Some fl \<Rightarrow> readsImport_fieldList n pkg fl))"
| "readsImport n pkg (ast_MapType mp key val) = (readsImport n pkg key \<or> readsImport n pkg val)"
| "readsImport n pkg (ast_StarExpr star x) = readsImport n pkg x"
| "readsImport n pkg (ast_ParenExpr lparen x) = readsImport n pkg x"
| "readsImport n pkg _ = False"
| "readsImport_field n pkg (Field d names t c) = readsImport n pkg t"
| "readsImport_fieldList n pkg (FieldList lbrace flds) = (\<exists>f\<in>set flds. readsImport_field n pkg f)"

lemma readsImport_field_Type: "readsImport_field n pkg f = readsImport n pkg (field_Type f)"
  by (cases f) simp

lemma translation_without_import:
  fixes p :: fileParser and n :: string and x :: importedPackage
  shows "\<not> readsImport n pkg texpr \<Longrightarrow>
           parseType (replaceImport n x p) pkg texpr = parseType p pkg texpr"
    and "\<forall>e\<in>set es. \<not> readsImport n pkg e \<Longrightarrow>
           parseTypes (replaceImport n x p) pkg es = parseTypes p pkg es"
    and "\<not> readsImport n pkg (ast_FuncType func params results) \<Longrightarrow>
           parseFunc (replaceImport n x p) pkg func params results
             = parseFunc p pkg func params results"
    and "\<not> (case params2 of None \<Rightarrow> False | Some fl \<Rightarrow> readsImport_fieldList n pkg fl) \<Longrightarrow>
           parseFunc_params (replaceImport n x p) pkg fpos params2
             = parseFunc_params p pkg fpos params2"
    and "\<not> (case results2 of None \<Rightarrow> False | Some fl \<Rightarrow> readsImport_fieldList n pkg fl) \<Longrightarrow>
           parseFunc_results (replaceImport n x p) pkg fpos2 results2
             = parseFunc_results p pkg fpos2 results2"
    and "\<forall>f\<in>set flds. \<not> readsImport_field n pkg f \<Longrightarrow>
           parseFieldList (replaceImport n x p) pkg flds = parseFieldList p pkg flds"
    and "\<forall>f\<in>set flds2. \<not> readsImport_field n pkg f \<Longrightarrow>
           fillFields (replaceImport n x p) pkg flds2 ps i = fillFields p pkg flds2 ps i"
proof (induction p pkg texpr and p pkg es and p pkg func params results and p pkg fpos params2 and p pkg fpos2 results2 and p pkg flds and p pkg flds2 ps i
    rule: parseType_parseTypes_parseFunc_parseFunc_params_parseFunc_results_parseFieldList_fillFields.induct)
  case (1 p pkg x0 index)
  then show ?case by (auto split: sum.splits)
next
  case (2 p pkg x0 indices)
  then show ?case by (auto split: sum.splits)
next
  case (3 p pkg lbrack len elt)
  then show ?case by (auto split: sum.splits)
next
  case (4 p pkg bgn dir val)
  then show ?case by (auto split: sum.splits)
next
  case (5 p pkg ps elt)
  then show ?case by (auto split: sum.splits)
next
  case (6 p pkg func params results)
  then show ?case by (auto split: sum.splits)
next
  case (7 p pkg v)
  then show ?case by (auto split: option.splits sum.splits)
next
  case (8 p pkg interface methods)
  then show ?case by (auto split: sum.splits)
next
  case (9 p pkg mp key val)
  then show ?case by (auto split: sum.splits)
next
  case (10 p pkg x0 sel)
  then show ?case by (auto split: option.splits sum.splits expr.splits)
next
  case (11 p pkg star x0)
  then show ?case by (auto split: sum.splits)
next
  case (12 p pkg strct flds)
  then show ?case by (auto split: sum.splits)
next
  case (13 p pkg lparen x0)
  then show ?case by (auto split: sum.splits)
next
  case (15 p pkg)
  then show ?case by simp
next
  case (16 p pkg v vs)
  then show ?case by (auto split: sum.splits)
next
  case (17 p pkg func params results)
  then show ?case by (auto split: sum.splits prod.splits)
next
  case (18 p pkg fpos)
  then show ?case by simp
next
  case (19 p pkg fpos fl)
  from "19.prems" have all: "\<forall>f\<in>set (fl_List fl). \<not> readsImport_field n pkg f"
    by (cases fl) simp
  show ?case
  proof (cases "isVariadic (fl_List fl)")
    case True
    then have "fl_List fl \<noteq> []" by (rule isVariadic_nonempty)
    with all have l: "\<forall>f\<in>set [last (fl_List fl)]. \<not> readsImport_field n pkg f"
      by simp
    from all have b: "\<forall>f\<in>set (butlast (fl_List fl)). \<not> readsImport_field n pkg f"
      by (auto dest: in_set_butlastD)
    from "19.IH"(1)[OF True l] have e1: "parseFieldList (replaceImport n x p) pkg [last (fl_List fl)] =
        parseFieldList p pkg [last (fl_List fl)]" .
    show ?thesis
    proof (cases "parseFieldList p pkg [last (fl_List fl)]")
      case (Inl e)
      with True e1 show ?thesis by (simp del: parseFieldList.simps)
    next
      case (Inr vp)
      show ?thesis
      proof (cases vp)
        case Nil
        with True e1 Inr show ?thesis by (simp del: parseFieldList.simps)
      next
        case (Cons variadic rest)
        from "19.IH"(2)[OF True Inr Cons b] True e1 Inr Cons show ?thesis
          by (simp del: parseFieldList.simps)
      qed
    qed
  next
    case False
    from "19.IH"(3)[OF False all] False show ?thesis by (simp del: parseFieldList.simps)
  qed
next
  case (20 p pkg fpos)
  then show ?case by simp
next
  case (21 p pkg fpos rl)
  from "21.prems" have "\<forall>f\<in>set (fl_List rl). \<not> readsImport_field n pkg f"
    by (cases rl) simp
  from "21.IH"[OF this] show ?case by (simp del: parseFieldList.simps)
next
  case (22 p pkg flds)
  then show ?case by (auto simp: parseFieldList.simps)
next
  case (23 p pkg ps i)
  then show ?case by simp
next
  case (24 p pkg f fs ps i)
  then show ?case by (auto split: sum.splits prod.splits if_splits simp: readsImport_field_Type)
qed simp_all

text \<open>
  The same for the resolution of an interface, entry by entry as \<open>parseMethods\<close> goes
  through the method list: a signature is translated under \<open>pkg\<close>; an embedded interface
  of the same package, and one that an auxiliary file provides for its qualifier, are
  resolved by the same parser (the latter under the qualifier as package name); an embedded
  \<open>n.X\<close> that no auxiliary file provides calls \<^verbatim>\<open>Path()\<close> and \<^verbatim>\<open>Parser()\<close> on the entry
  \<open>n\<close>. An interface of another package is resolved by the parser of that package, which
  has an import table of its own. The bound \<open>fuel\<close> is the one of \<open>parseInterface\<close>.
\<close>

fun dereferences :: "nat \<Rightarrow> fileParser \<Rightarrow> string \<Rightarrow> string \<Rightarrow> namedInterface \<Rightarrow> bool"
  and dereferencesIn :: "nat \<Rightarrow> fileParser \<Rightarrow> string \<Rightarrow> string \<Rightarrow> field list \<Rightarrow> bool"
where
  "dereferences fuel p n pkg it =
     (case ni_it it of
        None \<Rightarrow> False
      | Some fl \<Rightarrow> dereferencesIn fuel p n pkg (fl_List fl))"
| "dereferencesIn fuel p n pkg [] = False"
| "dereferencesIn fuel p n pkg (fld # flds) =
     ((case field_Type fld of
         ast_FuncType func params results \<Rightarrow>
           readsImport n pkg (ast_FuncType func params results)
       | ast_Ident v \<Rightarrow>
           (case (case fp_auxInterfaces p pkg (Name v) of
                    Some ei \<Rightarrow> Some ei
                  | None \<Rightarrow> fp_importedInterfaces p pkg (Name v)) of
              None \<Rightarrow> False
            | Some ei \<Rightarrow>
                (case fuel of
                   0 \<Rightarrow> False
                 | Suc fuel' \<Rightarrow> dereferences fuel' p n pkg ei))
       | ast_SelectorExpr x sel \<Rightarrow>
           (case x of
              ast_Ident fpkg \<Rightarrow>
                (case fp_auxInterfaces p (Name fpkg) (Name sel) of
                   Some ei \<Rightarrow>
                     (case fuel of
                        0 \<Rightarrow> False
                      | Suc fuel' \<Rightarrow> dereferences fuel' p n (Name fpkg) ei)
                 | None \<Rightarrow> Name fpkg = n)
            | _ \<Rightarrow> False)
       | _ \<Rightarrow> False) \<or>
      dereferencesIn fuel p n pkg flds)"

declare dereferences.simps [simp del] dereferencesIn.simps(2) [simp del]

lemma dereferences_tables:
  "fp_auxInterfaces q = fp_auxInterfaces p \<Longrightarrow>
   fp_importedInterfaces q = fp_importedInterfaces p \<Longrightarrow>
     dereferences fuel q n pkg it = dereferences fuel p n pkg it"
  "fp_auxInterfaces q = fp_auxInterfaces p \<Longrightarrow>
   fp_importedInterfaces q = fp_importedInterfaces p \<Longrightarrow>
     dereferencesIn fuel q n pkg flds = dereferencesIn fuel p n pkg flds"
proof (induction fuel p n pkg it and fuel p n pkg flds rule: dereferences_dereferencesIn.induct)
  case (1 fuel p n pkg it)
  then show ?case by (simp add: dereferences.simps split: option.splits)
next
  case (2 fuel p n pkg)
  then show ?case by simp
next
  case (3 fuel p n pkg fld flds)
  then show ?case
    by (simp add: dereferencesIn.simps(2) split: expr.splits option.splits nat.splits)
qed

text \<open>
  The two tables of interfaces of a parser are those of the parser that a resolution
  returns: only \<^verbatim>\<open>p.imports\<close> is written.
\<close>

definition sameTables :: "fileParser \<Rightarrow> fileParser \<Rightarrow> bool" where
  "sameTables p q \<longleftrightarrow>
     fp_auxInterfaces q = fp_auxInterfaces p \<and> fp_importedInterfaces q = fp_importedInterfaces p"

lemma sameTables_refl [simp]: "sameTables p p"
  by (simp add: sameTables_def)

lemma sameTables_trans: "sameTables p q \<Longrightarrow> sameTables q r \<Longrightarrow> sameTables p r"
  by (simp add: sameTables_def)

lemma sameTables_set_imports [simp]: "sameTables p (set_imports p m)"
  by (simp add: sameTables_def set_imports_def)

lemma dereferencesIn_sameTables:
  "sameTables p q \<Longrightarrow> dereferencesIn fuel q n pkg flds = dereferencesIn fuel p n pkg flds"
  by (rule dereferences_tables(2)) (simp_all add: sameTables_def)

lemma resolution_without_dereference:
  fixes n nm :: string and ds :: "string list" and x :: importedPackage
  shows "fp_imports p n = Some (duplicateImport nm ds) \<Longrightarrow>
           \<not> dereferences fuel p n pkg it \<Longrightarrow>
           parseInterface fuel ev (replaceImport n x p) iname pkg it
             = afterReplace (replaceImport n x) (parseInterface fuel ev p iname pkg it) \<and>
           (\<forall>v p'. parseInterface fuel ev p iname pkg it = Some (Inr (v, p')) \<longrightarrow>
              fp_imports p' n = Some (duplicateImport nm ds) \<and> sameTables p p')"
    and "fp_imports p n = Some (duplicateImport nm ds) \<Longrightarrow>
           \<not> dereferencesIn fuel p n pkg flds \<Longrightarrow>
           parseMethods fuel ev (replaceImport n x p) iname pkg flds acc
             = afterReplace (replaceImport n x) (parseMethods fuel ev p iname pkg flds acc) \<and>
           (\<forall>v p'. parseMethods fuel ev p iname pkg flds acc = Some (Inr (v, p')) \<longrightarrow>
              fp_imports p' n = Some (duplicateImport nm ds) \<and> sameTables p p')"
proof (induction fuel ev p iname pkg it and fuel ev p iname pkg flds acc
    rule: parseInterface_parseMethods.induct)
  case (1 fuel ev p iname pkg it)
  show ?case
  proof (cases "ni_it it")
    case None
    then show ?thesis by (simp add: parseInterface.simps)
  next
    case (Some fl)
    from "1.prems"(2) Some have "\<not> dereferencesIn fuel p n pkg (fl_List fl)"
      by (simp add: dereferences.simps)
    from "1.IH"[OF Some "1.prems"(1) this] Some show ?thesis
      by (auto simp: parseInterface.simps split: option.splits sum.splits)
  qed
next
  case (2 fuel ev p iname pkg acc)
  then show ?case by simp
next
  case (3 fuel ev p iname pkg fld flds acc)
  note dup = "3.prems"(1)
  note nd = "3.prems"(2)
  from nd have rest: "\<not> dereferencesIn fuel p n pkg flds"
    by (simp add: dereferencesIn.simps(2))
  show ?case
  proof (cases "field_Type fld")
    case (ast_FuncType func params results)
    from nd ast_FuncType have nr: "\<not> readsImport n pkg (ast_FuncType func params results)"
      by (simp add: dereferencesIn.simps(2))
    note pf = translation_without_import(3)[OF nr, of x p]
    show ?thesis
    proof (cases "field_Names fld")
      case Nil
      with ast_FuncType show ?thesis by (simp add: parseMethods.simps(2))
    next
      case (Cons m ms)
      show ?thesis
      proof (cases ms)
        case (Cons m2 ms2)
        with \<open>field_Names fld = m # ms\<close> ast_FuncType show ?thesis
          by (simp add: parseMethods.simps(2))
      next
        case Nil
        note names = \<open>field_Names fld = m # ms\<close>
        show ?thesis
        proof (cases "parseFunc p pkg func params results")
          case (Inl e)
          with pf ast_FuncType names Nil
          show ?thesis by (simp add: parseMethods.simps(2) del: parseFunc.simps)
        next
          case (Inr r)
          obtain ins variadic out where r: "r = (ins, variadic, out)" by (cases r) auto
          from "3.IH"(7)[OF ast_FuncType names Nil Inr r[symmetric] refl dup rest]
            pf Inr r ast_FuncType names Nil
          show ?thesis by (simp add: parseMethods.simps(2) del: parseFunc.simps)
        qed
      qed
    qed
  next
    case (ast_Ident v)
    show ?thesis
    proof (cases "case fp_auxInterfaces p pkg (Name v) of
                    None \<Rightarrow> fp_importedInterfaces p pkg (Name v) | Some ei \<Rightarrow> Some ei")
      case None
      with ast_Ident show ?thesis by (simp add: parseMethods.simps(2))
    next
      case (Some ei)
      note look = Some
      show ?thesis
      proof (cases fuel)
        case 0
        with ast_Ident look show ?thesis by (simp add: parseMethods.simps(2))
      next
        case (Suc fuel')
        note fuel = Suc
        from nd ast_Ident look fuel
        have e: "\<not> dereferences fuel' p n pkg ei"
          by (simp add: dereferencesIn.simps(2))
        note ih = "3.IH"(1)[OF ast_Ident look fuel dup e]
        show ?thesis
        proof (cases "parseInterface fuel' ev p (Name v) pkg ei")
          case None
          with ih ast_Ident look fuel show ?thesis by (simp add: parseMethods.simps(2))
        next
          case (Some r)
          note res = Some
          show ?thesis
          proof (cases r)
            case (Inl e)
            with ih res ast_Ident look fuel show ?thesis by (simp add: parseMethods.simps(2))
          next
            case (Inr b)
            obtain eintf p1 where b: "b = (eintf, p1)" by (cases b)
            from ih res Inr b have dup1: "fp_imports p1 n = Some (duplicateImport nm ds)"
              and t1: "sameTables p p1"
              and run2: "parseInterface fuel' ev (replaceImport n x p) (Name v) pkg ei =
                  Some (Inr (eintf, replaceImport n x p1))"
              by simp_all
            from rest dereferencesIn_sameTables[OF t1]
            have rest1: "\<not> dereferencesIn fuel p1 n pkg flds" by simp
            from "3.IH"(2)[OF ast_Ident look fuel res Inr b[symmetric] dup1 rest1]
              run2 res Inr b ast_Ident look fuel
            show ?thesis
              by (auto simp: parseMethods.simps(2) intro: sameTables_trans[OF t1])
          qed
        qed
      qed
    qed
  next
    case (ast_SelectorExpr x0 sel)
    note ft = ast_SelectorExpr
    show ?thesis
    proof (cases x0)
      case (ast_Ident fpkg)
      note x0 = ast_Ident
      show ?thesis
      proof (cases "fp_imports p (Name fpkg)")
        case None
        with dup have "Name fpkg \<noteq> n" by auto
        with None ft x0 show ?thesis by (simp add: parseMethods.simps(2))
      next
        case (Some epkg)
        note imp = Some
        show ?thesis
        proof (cases "fp_auxInterfaces p (Name fpkg) (Name sel)")
          case (Some ei)
          note aux = Some
          obtain epkg2 where imp2: "fp_imports (replaceImport n x p) (Name fpkg) = Some epkg2"
            using imp by (cases "Name fpkg = n") auto
          show ?thesis
          proof (cases fuel)
            case 0
            with ft x0 imp aux show ?thesis by (simp add: parseMethods.simps(2) imp2 del: replaceImport_sel(1))
          next
            case (Suc fuel')
            note fuel = Suc
            from nd ft x0 aux fuel
            have e: "\<not> dereferences fuel' p n (Name fpkg) ei"
              by (simp add: dereferencesIn.simps(2))
            note ih = "3.IH"(5)[OF ft x0 imp aux fuel dup e]
            show ?thesis
            proof (cases "parseInterface fuel' ev p (Name sel) (Name fpkg) ei")
              case None
              with ih ft x0 imp aux fuel show ?thesis by (simp add: parseMethods.simps(2) imp2 del: replaceImport_sel(1))
            next
              case (Some r)
              note res = Some
              show ?thesis
              proof (cases r)
                case (Inl e)
                with ih res ft x0 imp aux fuel show ?thesis
                  by (simp add: parseMethods.simps(2) imp2 del: replaceImport_sel(1))
              next
                case (Inr b)
                obtain eintf p1 where b: "b = (eintf, p1)" by (cases b)
                from ih res Inr b have dup1: "fp_imports p1 n = Some (duplicateImport nm ds)"
                  and t1: "sameTables p p1"
                  and run2: "parseInterface fuel' ev (replaceImport n x p) (Name sel) (Name fpkg) ei =
                      Some (Inr (eintf, replaceImport n x p1))"
                  by simp_all
                from rest dereferencesIn_sameTables[OF t1]
                have rest1: "\<not> dereferencesIn fuel p1 n pkg flds" by simp
                from "3.IH"(6)[OF ft x0 imp aux fuel res Inr b[symmetric] dup1 rest1]
                  run2 res Inr b ft x0 imp aux fuel
                show ?thesis
                  by (auto simp: parseMethods.simps(2) imp2 simp del: replaceImport_sel(1)
                      intro: sameTables_trans[OF t1])
              qed
            qed
          qed
        next
          case None
          note aux = None
          from nd ft x0 aux have ne: "Name fpkg \<noteq> n"
            by (simp add: dereferencesIn.simps(2))
          show ?thesis
          proof (cases "Path epkg")
            case (Inl e)
            with ft x0 imp aux ne show ?thesis by (simp add: parseMethods.simps(2))
          next
            case (Inr pth)
            note path = Inr
            show ?thesis
            proof (cases "Parser epkg")
              case (Inl e)
              with ft x0 imp aux ne path show ?thesis by (simp add: parseMethods.simps(2))
            next
              case (Inr cached)
              note cached = Inr
              show ?thesis
              proof (cases "case cached of
                  None \<Rightarrow>
                    (case parsePackage ev p pth of
                       Inl e \<Rightarrow> Inl e
                     | Inr (Inl (PkgError err)) \<Rightarrow>
                         Inl (Error (CouldNotParsePackage (NamePos fpkg) pth err))
                     | Inr (Inr ip) \<Rightarrow> Inr ip)
                | Some parser \<Rightarrow> Inr parser")
                case (Inl e)
                with ft x0 imp aux ne path cached show ?thesis
                  by (simp add: parseMethods.simps(2))
              next
                case (Inr parser)
                note parser = Inr
                show ?thesis
                proof (cases "fp_importedInterfaces parser pth (Name sel)")
                  case None
                  with ft x0 imp aux ne path cached parser show ?thesis
                    by (simp add: parseMethods.simps(2))
                next
                  case (Some ei)
                  note look = Some
                  show ?thesis
                  proof (cases fuel)
                    case 0
                    with ft x0 imp aux ne path cached parser look show ?thesis
                      by (simp add: parseMethods.simps(2))
                  next
                    case (Suc fuel')
                    note fuel = Suc
                    show ?thesis
                    proof (cases "parseInterface fuel' ev parser (Name sel) pth ei")
                      case None
                      with ft x0 imp aux ne path cached parser look fuel show ?thesis
                        by (simp add: parseMethods.simps(2))
                    next
                      case (Some r)
                      note res = Some
                      show ?thesis
                      proof (cases r)
                        case (Inl e)
                        with ft x0 imp aux ne path cached parser look fuel res show ?thesis
                          by (simp add: parseMethods.simps(2))
                      next
                        case (Inr b)
                        obtain eintf parser2 where b: "b = (eintf, parser2)" by (cases b)
                        let ?q = "set_imports p
                          ((fp_imports p)(Name fpkg \<mapsto> importedPkg pth (Some parser2)))"
                        from ne dup have dupq: "fp_imports ?q n = Some (duplicateImport nm ds)"
                          by simp
                        have tq: "sameTables p ?q" by simp
                        from rest dereferencesIn_sameTables[OF tq]
                        have restq: "\<not> dereferencesIn fuel ?q n pkg flds" by simp
                        note ih = "3.IH"(4)[OF ft x0 imp aux path cached parser look fuel res
                            Inr b[symmetric] dupq restq]
                        from ih ft x0 imp aux ne path cached parser look fuel res Inr b
                        show ?thesis
                          by (auto simp: parseMethods.simps(2) replaceImport_set_imports[OF ne]
                              intro: sameTables_trans[OF tq])
                      qed
                    qed
                  qed
                qed
              qed
            qed
          qed
        qed
      qed
    qed (simp_all add: parseMethods.simps(2) ft)
  qed (simp_all add: parseMethods.simps(2))
qed

section \<open>Two imports under one name\<close>

text \<open>The paths of the imports that the second loop enters under the name \<open>n\<close>, in order.\<close>

fun pathsNamed :: "(string \<Rightarrow> string option) \<Rightarrow> string \<Rightarrow> importSpec list \<Rightarrow> string list" where
  "pathsNamed packagesName n [] = []"
| "pathsNamed packagesName n (imp # imps) =
     (case unquote (is_Path_Value imp) of
        Inl e \<Rightarrow> pathsNamed packagesName n imps
      | Inr importPath \<Rightarrow>
          if importName packagesName imp importPath = Some n
          then importPath # pathsNamed packagesName n imps
          else pathsNamed packagesName n imps)"

text \<open>The entry of a name after one more path, and after a list of paths.\<close>

definition enter :: "string \<Rightarrow> importedPackage option \<Rightarrow> string \<Rightarrow> importedPackage" where
  "enter n cur importPath =
     (case cur of
        None \<Rightarrow> importedPkg importPath None
      | Some (importedPkg pth ps) \<Rightarrow> duplicateImport n [pth, importPath]
      | Some (duplicateImport nm dups) \<Rightarrow> duplicateImport nm (importPath # dups))"

fun enterAll :: "string \<Rightarrow> importedPackage option \<Rightarrow> string list \<Rightarrow> importedPackage option" where
  "enterAll n cur [] = cur"
| "enterAll n cur (importPath # paths) = enterAll n (Some (enter n cur importPath)) paths"

lemma addImport_same: "addImport n importPath m n = Some (enter n (m n) importPath)"
  by (simp add: addImport_def enter_def split: option.splits importedPackage.splits)

lemma addImport_other: "k \<noteq> n \<Longrightarrow> addImport n importPath m k = m k"
  by (simp add: addImport_def split: option.splits importedPackage.splits)

lemma importsLoop_entry:
  "importsLoop packagesName imps m d = Inr (m', d') \<Longrightarrow> n \<noteq> ''.'' \<Longrightarrow>
     m' n = enterAll n (m n) (pathsNamed packagesName n imps)"
proof (induction imps arbitrary: m d)
  case Nil
  then show ?case by simp
next
  case (Cons imp imps)
  show ?case
  proof (cases "unquote (is_Path_Value imp)")
    case (Inl e)
    with Cons.prems show ?thesis by simp
  next
    case (Inr importPath)
    show ?thesis
    proof (cases "importName packagesName imp importPath")
      case None
      with Cons Inr show ?thesis by simp
    next
      case (Some pkgName)
      show ?thesis
      proof (cases "pkgName = ''.''")
        case True
        with Cons Inr Some show ?thesis by auto
      next
        case False
        with Cons.prems Inr Some
        have rest: "importsLoop packagesName imps (addImport pkgName importPath m) d = Inr (m', d')"
          by simp
        from Cons.IH[OF rest Cons.prems(2)] Inr Some show ?thesis
          by (cases "pkgName = n") (simp_all add: addImport_same addImport_other)
      qed
    qed
  qed
qed

lemma enterAll_duplicate:
  "enterAll n (Some (duplicateImport n dups)) paths = Some (duplicateImport n (rev paths @ dups))"
  by (induction paths arbitrary: dups) (simp_all add: enter_def)

lemma enterAll_two:
  "enterAll n None (p1 # p2 # paths) = Some (duplicateImport n (rev paths @ [p1, p2]))"
  by (simp add: enter_def enterAll_duplicate)

lemma pathsNamed_append:
  "pathsNamed packagesName n (xs @ ys) = pathsNamed packagesName n xs @ pathsNamed packagesName n ys"
  by (induction xs) (simp_all split: sum.splits)

lemma pathsNamed_member:
  "i < length imps \<Longrightarrow> unquote (is_Path_Value (imps ! i)) = Inr importPath \<Longrightarrow>
   importName packagesName (imps ! i) importPath = Some n \<Longrightarrow>
     \<exists>xs ys. pathsNamed packagesName n imps = xs @ importPath # ys \<and>
        xs = pathsNamed packagesName n (take i imps) \<and>
        ys = pathsNamed packagesName n (drop (Suc i) imps)"
proof -
  assume i: "i < length imps" and u: "unquote (is_Path_Value (imps ! i)) = Inr importPath"
    and nm: "importName packagesName (imps ! i) importPath = Some n"
  from i have "imps = take i imps @ imps ! i # drop (Suc i) imps"
    by (simp add: id_take_nth_drop)
  then have "pathsNamed packagesName n imps =
      pathsNamed packagesName n (take i imps) @
      pathsNamed packagesName n (imps ! i # drop (Suc i) imps)"
    by (metis pathsNamed_append)
  with u nm show ?thesis by simp
qed

lemma pathsNamed_two:
  assumes "i < j" "j < length imps"
    and "unquote (is_Path_Value (imps ! i)) = Inr pi"
    and "importName packagesName (imps ! i) pi = Some n"
    and "unquote (is_Path_Value (imps ! j)) = Inr pj"
    and "importName packagesName (imps ! j) pj = Some n"
  shows "\<exists>p1 p2 rest. pathsNamed packagesName n imps = p1 # p2 # rest \<and>
           pi \<in> set (p1 # p2 # rest) \<and> pj \<in> set (p1 # p2 # rest)"
proof -
  from assms(1,2) have i: "i < length imps" by simp
  from pathsNamed_member[OF assms(2,5,6)] obtain ys where
    j: "pathsNamed packagesName n imps = pathsNamed packagesName n (take j imps) @ pj # ys"
    by blast
  have ti: "i < length (take j imps)" using assms(1,2) by simp
  have "take j imps ! i = imps ! i" using assms(1) by simp
  with pathsNamed_member[OF ti, of pi packagesName n] assms(3,4)
  obtain xs zs where "pathsNamed packagesName n (take j imps) = xs @ pi # zs"
    by auto
  with j have all: "pathsNamed packagesName n imps = xs @ pi # zs @ pj # ys" by simp
  then have mem: "pi \<in> set (pathsNamed packagesName n imps)"
      "pj \<in> set (pathsNamed packagesName n imps)"
    by simp_all
  from all have "length (pathsNamed packagesName n imps) \<ge> 2" by simp
  then obtain p1 p2 rest where "pathsNamed packagesName n imps = p1 # p2 # rest"
    by (cases "pathsNamed packagesName n imps"; cases "tl (pathsNamed packagesName n imps)") auto
  with mem show ?thesis by auto
qed

lemma importsLoop_records_duplicate:
  assumes "importsLoop packagesName imps Map.empty [] = Inr (m, d)"
    and "i < j" "j < length imps"
    and "unquote (is_Path_Value (imps ! i)) = Inr pi"
    and "importName packagesName (imps ! i) pi = Some n"
    and "unquote (is_Path_Value (imps ! j)) = Inr pj"
    and "importName packagesName (imps ! j) pj = Some n"
    and "n \<noteq> ''.''"
  shows "\<exists>dups. m n = Some (duplicateImport n dups) \<and> pi \<in> set dups \<and> pj \<in> set dups"
proof -
  from pathsNamed_two[OF assms(2-7)] obtain p1 p2 rest where
    ps: "pathsNamed packagesName n imps = p1 # p2 # rest"
    and mem: "pi \<in> set (p1 # p2 # rest)" "pj \<in> set (p1 # p2 # rest)"
    by blast
  from importsLoop_entry[OF assms(1,8)] ps
  have "m n = Some (duplicateImport n (rev rest @ [p1, p2]))"
    by (simp only: enterAll_two)
  moreover from mem have "pi \<in> set (rev rest @ [p1, p2])" "pj \<in> set (rev rest @ [p1, p2])"
    by auto
  ultimately show ?thesis by blast
qed

lemma unnamedImportPaths_succeeds:
  "\<forall>imp\<in>set imps. 2 \<le> length (is_Path_Value imp) \<Longrightarrow> \<exists>paths. unnamedImportPaths imps = Inr paths"
  by (induction imps) (auto simp: unquote_def)

lemma importsLoop_succeeds:
  "\<forall>imp\<in>set imps. 2 \<le> length (is_Path_Value imp) \<Longrightarrow>
     \<exists>r. importsLoop packagesName imps m d = Inr r"
  by (induction imps arbitrary: m d) (auto simp: unquote_def split: option.splits)

text \<open>
  The name and the path under which the second loop of \<open>importsOfFile\<close> enters an
  import of the file; \<open>None\<close> for an import with the blank alias and for a dot import,
  which are not entered in the table.
\<close>

definition packagesNameOf :: "env \<Rightarrow> astFile \<Rightarrow> (string \<Rightarrow> string option)" where
  "packagesNameOf ev file =
     createPackageMap ev
       (case unnamedImportPaths (file_Imports file) of Inl e \<Rightarrow> [] | Inr paths \<Rightarrow> paths)"

definition importedAs :: "env \<Rightarrow> astFile \<Rightarrow> importSpec \<Rightarrow> (string \<times> string) option" where
  "importedAs ev file imp =
     (case unquote (is_Path_Value imp) of
        Inl e \<Rightarrow> None
      | Inr importPath \<Rightarrow>
          (case importName (packagesNameOf ev file) imp importPath of
             None \<Rightarrow> None
           | Some n \<Rightarrow> if n = ''.'' then None else Some (n, importPath)))"

lemma importsOfFile_succeeds:
  "\<forall>imp\<in>set (file_Imports file). 2 \<le> length (is_Path_Value imp) \<Longrightarrow>
     \<exists>normalImports dotImports. importsOfFile ev file = Inr (normalImports, dotImports)"
proof -
  assume q: "\<forall>imp\<in>set (file_Imports file). 2 \<le> length (is_Path_Value imp)"
  from unnamedImportPaths_succeeds[OF q] obtain paths where
    "unnamedImportPaths (file_Imports file) = Inr paths" by blast
  moreover from importsLoop_succeeds[OF q] obtain r where
    "importsLoop (createPackageMap ev paths) (file_Imports file) Map.empty [] = Inr r" by blast
  ultimately show ?thesis by (cases r) (simp add: importsOfFile_def)
qed

lemma importsOfFile_records_duplicate:
  assumes "importsOfFile ev file = Inr (normalImports, dotImports)"
    and "i < j" "j < length (file_Imports file)"
    and "importedAs ev file (file_Imports file ! i) = Some (n, pi)"
    and "importedAs ev file (file_Imports file ! j) = Some (n, pj)"
  shows "\<exists>dups. normalImports n = Some (duplicateImport n dups) \<and> pi \<in> set dups \<and> pj \<in> set dups"
proof -
  from assms(1) obtain paths where
    u: "unnamedImportPaths (file_Imports file) = Inr paths"
    and l: "importsLoop (createPackageMap ev paths) (file_Imports file) Map.empty []
        = Inr (normalImports, dotImports)"
    by (auto simp: importsOfFile_def split: sum.splits)
  from u have pn: "packagesNameOf ev file = createPackageMap ev paths"
    by (simp add: packagesNameOf_def)
  from assms(4) pn have i: "unquote (is_Path_Value (file_Imports file ! i)) = Inr pi"
      "importName (createPackageMap ev paths) (file_Imports file ! i) pi = Some n" "n \<noteq> ''.''"
    by (auto simp: importedAs_def split: sum.splits option.splits if_splits)
  from assms(5) pn have j: "unquote (is_Path_Value (file_Imports file ! j)) = Inr pj"
      "importName (createPackageMap ev paths) (file_Imports file ! j) pj = Some n"
    by (auto simp: importedAs_def split: sum.splits option.splits if_splits)
  from importsLoop_records_duplicate[OF l assms(2,3) i(1,2) j i(3)] show ?thesis .
qed

lemma embed_dereferences_duplicate:
  "fp_imports p n = Some (duplicateImport nm ds) \<Longrightarrow> fp_auxInterfaces p n (Name sel) = None \<Longrightarrow>
     parseMethods fuel ev p iname pkg
       (Field d names (ast_SelectorExpr (ast_Ident (Ident namePos n)) sel) c # flds) acc =
     Some (Inl (Fatal (duplicateImport_Error nm ds)))"
  by (simp add: parseMethods.simps(2))

lemma qualified_type_dereferences_duplicate:
  "fp_imports p n = Some (duplicateImport nm ds) \<Longrightarrow>
     parseType p pkg (ast_SelectorExpr (ast_Ident (Ident namePos n)) sel) =
     Inl (Fatal (duplicateImport_Error nm ds))"
  by simp

lemma exported_identifier_dereferences_duplicate:
  "fp_imports p pkg = Some (duplicateImport nm ds) \<Longrightarrow> IsExported v \<Longrightarrow>
     parseType p pkg (ast_Ident v) = Inl (Fatal (duplicateImport_Error nm ds))"
  by simp


text \<open>
  The file \<open>package p; import ("a/foo"; "b/foo"); type I interface { foo.Doer }\<close>, on a
  machine where \<^verbatim>\<open>go list\<close> names neither package (the directory \<open>a/foo\<close> may declare
  a package of another name, so that the file is legal Go): both imports are entered under
  the last element of their paths.
\<close>

definition quoted :: "string \<Rightarrow> string" where
  "quoted s = CHR 0x22 # s @ [CHR 0x22]"

lemma unquote_quoted: "unquote (quoted s) = Inr s"
  by (simp add: unquote_def quoted_def butlast_append)

definition embedFoo :: field where
  "embedFoo = Field None []
     (ast_SelectorExpr (ast_Ident (Ident 60 ''foo'')) (Ident 64 ''Doer'')) None"

definition ambiguousFile :: astFile where
  "ambiguousFile = File (Ident 9 ''p'')
     [ast_GenDecl None token_TYPE
        [TypeSpec (Ident 50 ''I'') (ast_InterfaceType 52 (Some (FieldList 62 [embedFoo]))) None]]
     [ImportSpec None (quoted ''a/foo''), ImportSpec None (quoted ''b/foo'')]"

definition ambiguousTable :: "string \<Rightarrow> importedPackage option" where
  "ambiguousTable = [''foo'' \<mapsto> duplicateImport ''foo'' [''a/foo'', ''b/foo'']]"

lemma pathSuffixName_foo:
  "pathSuffixName ''a/foo'' = ''foo''" "pathSuffixName ''b/foo'' = ''foo''"
  by (simp_all add: pathSuffixName_def)

lemma importsOfFile_ambiguousFile:
  "importsOfFile noPackages ambiguousFile = Inr (ambiguousTable, [])"
  by (simp add: importsOfFile_def ambiguousFile_def unquote_quoted createPackageMap_def
      noPackages_def importName_def pathSuffixName_foo addImport_def ambiguousTable_def)

lemma importedAs_ambiguousFile:
  "importedAs noPackages ambiguousFile (file_Imports ambiguousFile ! 0) = Some (''foo'', ''a/foo'')"
  "importedAs noPackages ambiguousFile (file_Imports ambiguousFile ! 1) = Some (''foo'', ''b/foo'')"
  by (simp_all add: importedAs_def packagesNameOf_def ambiguousFile_def unquote_quoted
      createPackageMap_def noPackages_def importName_def pathSuffixName_foo)


definition ambiguousParser :: fileParser where
  "ambiguousParser = set_imports parserAB ambiguousTable"

lemma parseInterface_B_ambiguous:
  "parseInterface fuel ev (set_imports parserAB tbl) ''B'' ''example.com/p'' interfaceB =
     Some (Inr (Interface ''B'' [] [] [methodN], set_imports parserAB tbl))"
  by (simp add: parseInterface.simps parseMethods.simps(2) interfaceB_def fieldN_def methodN_def
      docList_def commentText_def isVariadic_def parseFieldList.simps countFields_def)

text \<open>
  The interface \<open>A\<close>, which embeds \<open>B\<close> and declares \<open>M(x int) int\<close>, under the ambiguous
  table: it dereferences nothing of the name \<open>foo\<close> and is resolved as without the
  ambiguity. So is the file that imports \<open>a/foo\<close> and \<open>b/foo\<close> and declares the interface
  \<open>B\<close> alone.
\<close>

lemma parseInterface_A_ambiguous:
  "parseInterface (Suc fuel) ev (set_imports parserAB tbl) ''A'' ''example.com/p'' interfaceA =
     Some (Inr (Interface ''A'' [] [] [methodN, methodM], set_imports parserAB tbl))"
proof -
  have l: "fp_auxInterfaces (set_imports parserAB tbl) ''example.com/p'' ''B'' = Some interfaceB"
    by (simp add: parserAB_def set_imports_def)
  have f: "parseFunc (set_imports parserAB tbl) ''example.com/p'' 0
      (Some (FieldList 31 [Field None [Ident 32 ''x''] (ast_Ident (Ident 34 ''int'')) None]))
      (Some (FieldList 0 [Field None [] (ast_Ident (Ident 39 ''int'')) None])) =
     Inr ([Some (Parameter ''x'' (model_PredeclaredType ''int''))], None,
          [Some (Parameter [] (model_PredeclaredType ''int''))])"
    by (simp add: isVariadic_def parseFieldList.simps countFields_def IsExported_ascii)
  show ?thesis
    unfolding interfaceA_def
      parseInterface.simps[of "Suc fuel" ev "set_imports parserAB tbl" "''A''"]
    by (simp add: parseMethods.simps(2) embedB_def fieldM_def l f parseInterface_B_ambiguous
        methodM_def docList_def commentText_def del: parseFunc.simps)
qed

lemma interfaceA_dereferences_nothing:
  "\<not> dereferences (Suc 0) ambiguousParser ''foo'' ''example.com/p'' interfaceA"
  by (simp add: dereferences.simps dereferencesIn.simps(2) interfaceA_def embedB_def fieldM_def
      ambiguousParser_def parserAB_def set_imports_def interfaceB_def fieldN_def)

definition unusedAmbiguity :: astFile where
  "unusedAmbiguity = File (Ident 9 ''p'')
     [ast_GenDecl None token_TYPE
        [TypeSpec (Ident 50 ''B'') (ast_InterfaceType 52 (Some (FieldList 62 [fieldN]))) None]]
     [ImportSpec None (quoted ''a/foo''), ImportSpec None (quoted ''b/foo'')]"

lemma parseFile_unusedAmbiguity:
  "parseFile 0 noPackages (\<lambda>k keys. keys) (newFileParser []) ''example.com/p'' unusedAmbiguity =
     Some (Inr (Package ''p'' ''example.com/p'' [Interface ''B'' [] [] [methodN]] [] []))"
proof -
  have im: "importsOfFile noPackages unusedAmbiguity = Inr (ambiguousTable, [])"
    by (simp add: importsOfFile_def unusedAmbiguity_def unquote_quoted createPackageMap_def
        noPackages_def importName_def pathSuffixName_foo addImport_def ambiguousTable_def)
  have ii: "iterInterfaces unusedAmbiguity =
      [NamedInterface (Ident 50 ''B'') None None (Some (FieldList 62 [fieldN]))]"
    by (simp add: iterInterfaces_def unusedAmbiguity_def)
  have st: "iterStruct (\<lambda>k keys. keys) unusedAmbiguity = Inr []"
    by (simp add: iterStruct_def unusedAmbiguity_def rangeMap_def List.map_filter_def)
  have nm: "Name (file_Name unusedAmbiguity) = ''p''"
    by (simp add: unusedAmbiguity_def)
  show ?thesis
    unfolding parseFile_def im ii st nm
    by (simp add: newFileParser_def parseInterface.simps parseMethods.simps(2) fieldN_def
        methodN_def docList_def commentText_def isVariadic_def parseFieldList.simps
        countFields_def set_imports_def)
qed


end
